theory Spec2Isabelle
  imports Main "HOL-Library.Word"
begin

unbundle bit_operations_syntax

section \<open>Data model\<close>

text \<open>
  Go's \<open>uint8\<close> and \<open>uint64\<close> are words (\<open>+\<close>, \<open>*\<close> wrap around); \<open>types.Slot\<close>,
  \<open>types.Epoch\<close>, \<open>types.ValidatorIndex\<close> and \<open>types.CommitteeIndex\<close> are \<open>uint64\<close>.
  A byte slice is the list of its bytes. A pointer that the code tests against \<open>nil\<close> is an
  \<open>option\<close>; so are the two slices of the state (\<open>Validators\<close>, \<open>Balances\<close>) whose
  nil-ness the indexed accessors observe.
\<close>

type_synonym u8 = "8 word"
type_synonym u64 = "64 word"
type_synonym bytes = "u8 list"

record Checkpoint =
  cp_Epoch :: u64
  cp_Root :: bytes

record AttestationData =
  ad_Slot :: u64
  ad_CommitteeIndex :: u64
  ad_BeaconBlockRoot :: bytes
  ad_Source :: Checkpoint
  ad_Target :: Checkpoint

record Attestation =
  at_AggregationBits :: bytes
  at_Data :: AttestationData
  at_Signature :: bytes

record IndexedAttestation =
  ia_AttestingIndices :: "u64 list"
  ia_Data :: AttestationData
  ia_Signature :: bytes

record Validator =
  va_PublicKey :: bytes
  va_WithdrawalCredentials :: bytes
  va_EffectiveBalance :: u64
  va_Slashed :: bool
  va_ActivationEligibilityEpoch :: u64
  va_ActivationEpoch :: u64
  va_ExitEpoch :: u64
  va_WithdrawableEpoch :: u64

record Fork =
  fk_PreviousVersion :: bytes
  fk_CurrentVersion :: bytes
  fk_Epoch :: u64

text \<open>
  The fields of the protobuf state \<open>pbp2p.BeaconState\<close> that the modelled accessors and the
  attestation transition read or write, and the container \<open>state.BeaconState\<close> around it
  (\<open>b.state\<close> may be nil).
\<close>

record InnerState =
  st_GenesisValidatorsRoot :: "bytes option"
  st_Slot :: u64
  st_Fork :: "Fork option"
  st_Validators :: "Validator option list option"
  st_Balances :: "u64 list option"
  st_PreviousEpochParticipation :: bytes
  st_CurrentEpochParticipation :: bytes
  st_PreviousJustifiedCheckpoint :: "Checkpoint option"
  st_CurrentJustifiedCheckpoint :: "Checkpoint option"

record BeaconState =
  state :: "InnerState option"

record ReadOnlyValidator =
  validator :: "Validator option"

datatype error =
    ErrNilInnerState
  | ErrIndexOutOfRange u64
  | ErrIndexDoesNotExist u64
  | ErrNilAttestation
  | ErrTargetEpoch
  | ErrSlotTargetEpoch
  | ErrMinInclusionDelay
  | ErrEpochInclusion
  | ErrActiveValidatorCount
  | ErrCommitteeIndex
  | ErrBitfieldLengths
  | ErrBeaconCommittee
  | ErrConvertToIndexed
  | ErrInvalidIndices
  | ErrFfgTargetEpoch
  | ErrSourceMismatch
  | ErrBlockRoot
  | ErrBlockRootAtSlot
  | ErrAttestingIndices
  | ErrBaseReward
  | ErrProposerIndex
  | ErrDomain
  | ErrPublicKey
  | ErrInvalidSignature
  | PanicNilDereference
  | PanicIndexOutOfRange
  | PanicSlotOverflow
  | PanicDivideByZero

section \<open>State container: accessors (package state)\<close>

definition zero48 :: bytes where
  "zero48 = replicate 48 0"

definition HasInnerState :: "BeaconState \<Rightarrow> bool" where
  "HasInnerState b = (state b \<noteq> None)"

definition ReadOnlyValidator_IsNil :: "ReadOnlyValidator \<Rightarrow> bool" where
  "ReadOnlyValidator_IsNil v = (validator v = None)"

definition ReadOnlyValidator_EffectiveBalance :: "ReadOnlyValidator \<Rightarrow> error + u64" where
  "ReadOnlyValidator_EffectiveBalance v =
     (if ReadOnlyValidator_IsNil v then Inr 0
      else case validator v of None \<Rightarrow> Inl PanicNilDereference
           | Some val \<Rightarrow> Inr (va_EffectiveBalance val))"

definition ReadOnlyValidator_ActivationEligibilityEpoch :: "ReadOnlyValidator \<Rightarrow> error + u64" where
  "ReadOnlyValidator_ActivationEligibilityEpoch v =
     (if ReadOnlyValidator_IsNil v then Inr 0
      else case validator v of None \<Rightarrow> Inl PanicNilDereference
           | Some val \<Rightarrow> Inr (va_ActivationEligibilityEpoch val))"

definition ReadOnlyValidator_ActivationEpoch :: "ReadOnlyValidator \<Rightarrow> error + u64" where
  "ReadOnlyValidator_ActivationEpoch v =
     (if ReadOnlyValidator_IsNil v then Inr 0
      else case validator v of None \<Rightarrow> Inl PanicNilDereference
           | Some val \<Rightarrow> Inr (va_ActivationEpoch val))"

definition ReadOnlyValidator_WithdrawableEpoch :: "ReadOnlyValidator \<Rightarrow> error + u64" where
  "ReadOnlyValidator_WithdrawableEpoch v =
     (if ReadOnlyValidator_IsNil v then Inr 0
      else case validator v of None \<Rightarrow> Inl PanicNilDereference
           | Some val \<Rightarrow> Inr (va_WithdrawableEpoch val))"

definition ReadOnlyValidator_ExitEpoch :: "ReadOnlyValidator \<Rightarrow> error + u64" where
  "ReadOnlyValidator_ExitEpoch v =
     (if ReadOnlyValidator_IsNil v then Inr 0
      else case validator v of None \<Rightarrow> Inl PanicNilDereference
           | Some val \<Rightarrow> Inr (va_ExitEpoch val))"

text \<open>\<open>copy(pubkey[:], key)\<close> into a zeroed 48-byte array: the first 48 bytes, zero padded.\<close>

definition ToBytes48 :: "bytes \<Rightarrow> bytes" where
  "ToBytes48 key = take 48 key @ replicate (48 - length key) 0"

definition ReadOnlyValidator_PublicKey :: "ReadOnlyValidator \<Rightarrow> error + bytes" where
  "ReadOnlyValidator_PublicKey v =
     (if ReadOnlyValidator_IsNil v then Inr zero48
      else case validator v of None \<Rightarrow> Inl PanicNilDereference
           | Some val \<Rightarrow> Inr (ToBytes48 (va_PublicKey val)))"

text \<open>
  \<open>WithdrawalCredentials\<close> has no \<open>IsNil\<close> guard in the source: it reads
  \<open>v.validator.WithdrawalCredentials\<close> at once, which on a nil pointer is a run-time panic.
\<close>

definition ReadOnlyValidator_WithdrawalCredentials :: "ReadOnlyValidator \<Rightarrow> error + bytes" where
  "ReadOnlyValidator_WithdrawalCredentials v =
     (case validator v of None \<Rightarrow> Inl PanicNilDereference
      | Some val \<Rightarrow> Inr (va_WithdrawalCredentials val))"

definition ReadOnlyValidator_Slashed :: "ReadOnlyValidator \<Rightarrow> error + bool" where
  "ReadOnlyValidator_Slashed v =
     (if ReadOnlyValidator_IsNil v then Inr False
      else case validator v of None \<Rightarrow> Inl PanicNilDereference
           | Some val \<Rightarrow> Inr (va_Slashed val))"

text \<open>
  Modelled from the spec: the package function \<open>CopyValidator\<close> is not among the sources;
  accessors "return defensive copies", and the copy of a value is that value.
\<close>

definition CopyValidator :: "Validator option \<Rightarrow> Validator option" where
  "CopyValidator val = val"

definition ReadOnlyValidator_CopyValidator :: "ReadOnlyValidator \<Rightarrow> error + Validator option" where
  "ReadOnlyValidator_CopyValidator v =
     (if ReadOnlyValidator_IsNil v then Inr None else Inr (CopyValidator (validator v)))"

definition empty_Validator :: Validator where
  "empty_Validator = \<lparr>va_PublicKey = [], va_WithdrawalCredentials = [], va_EffectiveBalance = 0,
     va_Slashed = False, va_ActivationEligibilityEpoch = 0, va_ActivationEpoch = 0,
     va_ExitEpoch = 0, va_WithdrawableEpoch = 0\<rparr>"

definition BeaconState_ValidatorAtIndex :: "BeaconState \<Rightarrow> u64 \<Rightarrow> error + Validator option" where
  "BeaconState_ValidatorAtIndex b idx =
     (case state b of None \<Rightarrow> Inl ErrNilInnerState
      | Some s \<Rightarrow>
        (case st_Validators s of None \<Rightarrow> Inr (Some empty_Validator)
         | Some vals \<Rightarrow>
             if length vals \<le> unat idx then Inl (ErrIndexOutOfRange idx)
             else Inr (CopyValidator (vals ! unat idx))))"

definition BeaconState_ValidatorAtIndexReadOnly :: "BeaconState \<Rightarrow> u64 \<Rightarrow> error + ReadOnlyValidator" where
  "BeaconState_ValidatorAtIndexReadOnly b idx =
     (case state b of None \<Rightarrow> Inl ErrNilInnerState
      | Some s \<Rightarrow>
        (case st_Validators s of None \<Rightarrow> Inr \<lparr>validator = None\<rparr>
         | Some vals \<Rightarrow>
             if length vals \<le> unat idx then Inl (ErrIndexOutOfRange idx)
             else Inr \<lparr>validator = vals ! unat idx\<rparr>))"

text \<open>\<open>PubkeyAtIndex\<close> returns a bare \<open>[48]byte\<close>: it has no error result.\<close>

definition BeaconState_PubkeyAtIndex :: "BeaconState \<Rightarrow> u64 \<Rightarrow> bytes" where
  "BeaconState_PubkeyAtIndex b idx =
     (case state b of None \<Rightarrow> zero48
      | Some s \<Rightarrow>
        (let vals = (case st_Validators s of None \<Rightarrow> [] | Some vs \<Rightarrow> vs)
         in if unat idx \<ge> length vals then zero48
            else (case vals ! unat idx of None \<Rightarrow> zero48
                  | Some val \<Rightarrow> ToBytes48 (va_PublicKey val))))"

definition BeaconState_BalanceAtIndex :: "BeaconState \<Rightarrow> u64 \<Rightarrow> error + u64" where
  "BeaconState_BalanceAtIndex b idx =
     (case state b of None \<Rightarrow> Inl ErrNilInnerState
      | Some s \<Rightarrow>
        (case st_Balances s of None \<Rightarrow> Inr 0
         | Some bals \<Rightarrow>
             if length bals \<le> unat idx then Inl (ErrIndexDoesNotExist idx)
             else Inr (bals ! unat idx)))"

definition BeaconState_NumValidators :: "BeaconState \<Rightarrow> nat" where
  "BeaconState_NumValidators b =
     (case state b of None \<Rightarrow> 0
      | Some s \<Rightarrow> (case st_Validators s of None \<Rightarrow> 0 | Some vals \<Rightarrow> length vals))"

definition BeaconState_Slot :: "BeaconState \<Rightarrow> u64" where
  "BeaconState_Slot b = (case state b of None \<Rightarrow> 0 | Some s \<Rightarrow> st_Slot s)"

definition BeaconState_Fork :: "BeaconState \<Rightarrow> Fork option" where
  "BeaconState_Fork b = (case state b of None \<Rightarrow> None | Some s \<Rightarrow> st_Fork s)"

definition BeaconState_GenesisValidatorRoot :: "bytes \<Rightarrow> BeaconState \<Rightarrow> bytes" where
  "BeaconState_GenesisValidatorRoot zeroHash b =
     (case state b of None \<Rightarrow> []
      | Some s \<Rightarrow> (case st_GenesisValidatorsRoot s of None \<Rightarrow> zeroHash
                   | Some r \<Rightarrow> take 32 r @ replicate (32 - length r) 0))"

definition BeaconState_PreviousJustifiedCheckpoint :: "BeaconState \<Rightarrow> Checkpoint option" where
  "BeaconState_PreviousJustifiedCheckpoint b =
     (case state b of None \<Rightarrow> None | Some s \<Rightarrow> st_PreviousJustifiedCheckpoint s)"

definition BeaconState_CurrentJustifiedCheckpoint :: "BeaconState \<Rightarrow> Checkpoint option" where
  "BeaconState_CurrentJustifiedCheckpoint b =
     (case state b of None \<Rightarrow> None | Some s \<Rightarrow> st_CurrentJustifiedCheckpoint s)"

definition BeaconState_CurrentEpochParticipation :: "BeaconState \<Rightarrow> bytes" where
  "BeaconState_CurrentEpochParticipation b =
     (case state b of None \<Rightarrow> [] | Some s \<Rightarrow> st_CurrentEpochParticipation s)"

definition BeaconState_PreviousEpochParticipation :: "BeaconState \<Rightarrow> bytes" where
  "BeaconState_PreviousEpochParticipation b =
     (case state b of None \<Rightarrow> [] | Some s \<Rightarrow> st_PreviousEpochParticipation s)"

text \<open>
  Modelled from the spec: the setters \<open>SetCurrentParticipationBits\<close> and
  \<open>SetPreviousParticipationBits\<close> are not among the sources. A setter "atomically swaps the
  field's backing storage", and "any accessor invoked before initialization fails with
  UninitializedState". The result is the container after the call and the error, if any.
\<close>

definition BeaconState_SetCurrentParticipationBits :: "BeaconState \<Rightarrow> bytes \<Rightarrow> BeaconState \<times> error option" where
  "BeaconState_SetCurrentParticipationBits b val =
     (case state b of None \<Rightarrow> (b, Some ErrNilInnerState)
      | Some s \<Rightarrow> (b\<lparr>state := Some (s\<lparr>st_CurrentEpochParticipation := val\<rparr>)\<rparr>, None))"

definition BeaconState_SetPreviousParticipationBits :: "BeaconState \<Rightarrow> bytes \<Rightarrow> BeaconState \<times> error option" where
  "BeaconState_SetPreviousParticipationBits b val =
     (case state b of None \<Rightarrow> (b, Some ErrNilInnerState)
      | Some s \<Rightarrow> (b\<lparr>state := Some (s\<lparr>st_PreviousEpochParticipation := val\<rparr>)\<rparr>, None))"

section \<open>Configuration and collaborators of the attestation transition\<close>

text \<open>
  \<open>params.BeaconConfig()\<close>: the constants the transition reads. The package is not among the
  sources, so the configuration is a parameter of every operation.
\<close>

record BeaconConfig =
  MinAttestationInclusionDelay :: u64
  SlotsPerEpoch :: u64
  TimelyHeadFlag :: u8
  TimelySourceFlag :: u8
  TimelyTargetFlag :: u8
  TimelyHeadNumerator :: u64
  TimelySourceNumerator :: u64
  TimelyTargetNumerator :: u64
  RewardDenominator :: u64
  ProposerRewardQuotient :: u64
  DomainBeaconAttester :: bytes
  ZeroHash :: bytes

text \<open>
  The functions of the packages \<open>helpers\<close>, \<open>attestationutil\<close>, \<open>epoch\<close> and \<open>bls\<close> that the
  transition calls and that are not among the sources. They read the state and do not change
  it; each is a parameter. A helper that returns an error returns \<open>None\<close> (or \<open>False\<close>)
  for it.
\<close>

record collaborators =
  ValidateNilAttestation :: "Attestation \<Rightarrow> bool"
  CurrentEpoch :: "BeaconState \<Rightarrow> u64"
  PrevEpoch :: "BeaconState \<Rightarrow> u64"
  ValidateSlotTargetEpoch :: "AttestationData \<Rightarrow> bool"
  ActiveValidatorCount :: "BeaconState \<Rightarrow> u64 \<Rightarrow> u64 option"
  SlotCommitteeCount :: "u64 \<Rightarrow> u64"
  VerifyAttestationBitfieldLengths :: "BeaconState \<Rightarrow> Attestation \<Rightarrow> bool"
  BeaconCommitteeFromState :: "BeaconState \<Rightarrow> u64 \<Rightarrow> u64 \<Rightarrow> u64 list option"
  ConvertToIndexed :: "Attestation \<Rightarrow> u64 list \<Rightarrow> IndexedAttestation option"
  IsValidAttestationIndices :: "IndexedAttestation \<Rightarrow> bool"
  CheckPointIsEqual :: "Checkpoint \<Rightarrow> Checkpoint option \<Rightarrow> bool"
  BlockRoot :: "BeaconState \<Rightarrow> u64 \<Rightarrow> bytes option"
  BlockRootAtSlot :: "BeaconState \<Rightarrow> u64 \<Rightarrow> bytes option"
  AttestingIndices :: "bytes \<Rightarrow> u64 list \<Rightarrow> u64 list option"
  BaseReward :: "BeaconState \<Rightarrow> u64 \<Rightarrow> u64 option"
  BeaconProposerIndex :: "BeaconState \<Rightarrow> u64 option"
  Domain :: "Fork option \<Rightarrow> u64 \<Rightarrow> bytes \<Rightarrow> bytes \<Rightarrow> bytes option"
  PublicKeyFromBytes :: "bytes \<Rightarrow> bytes option"
  VerifyIndexedAttestationSig :: "IndexedAttestation \<Rightarrow> bytes list \<Rightarrow> bytes \<Rightarrow> bool"

text \<open>
  Modelled from the spec: \<open>helpers.HasValidatorFlag\<close> and \<open>helpers.AddValidatorFlag\<close> are not
  among the sources. The participation byte is a "bitmask with named bit constants" with
  "has" and "set" operations.
\<close>

definition HasValidatorFlag :: "u8 \<Rightarrow> u8 \<Rightarrow> bool" where
  "HasValidatorFlag flag flagPosition = (flag AND flagPosition = flagPosition)"

definition AddValidatorFlag :: "u8 \<Rightarrow> u8 \<Rightarrow> u8" where
  "AddValidatorFlag flag flagPosition = flag OR flagPosition"

text \<open>
  Modelled from the spec: \<open>mathutil.IntegerSquareRoot\<close> is not among the sources; the spec has
  \<open>floor(sqrt(SLOTS_PER_EPOCH))\<close>: the largest \<open>r\<close> with \<open>r * r \<le> n\<close>.
\<close>

primrec isqrt_below :: "nat \<Rightarrow> nat \<Rightarrow> nat" where
  "isqrt_below n 0 = 0"
| "isqrt_below n (Suc k) = (if Suc k * Suc k \<le> n then Suc k else isqrt_below n k)"

definition IntegerSquareRoot :: "u64 \<Rightarrow> u64" where
  "IntegerSquareRoot n = word_of_nat (isqrt_below (unat n) (unat n))"

text \<open>
  \<open>types.Slot.Add\<close> (the eth2-types library) is the checked addition: it panics when the sum
  does not fit 64 bits, where the operator \<open>+\<close> wraps around.
\<close>

definition Slot_Add :: "u64 \<Rightarrow> u64 \<Rightarrow> error + u64" where
  "Slot_Add s x = (if unat s + unat x < 2 ^ 64 then Inr (s + x) else Inl PanicSlotOverflow)"

text \<open>
  Modelled from the spec: \<open>helpers.IncreaseBalance\<close> is not among the sources. It "credits
  the result to the ... balance" at the index; the indexed accessors fail when the index is
  out of range or the state is not initialised. The addition is that of \<open>uint64\<close>.
\<close>

definition IncreaseBalance :: "BeaconState \<Rightarrow> u64 \<Rightarrow> u64 \<Rightarrow> BeaconState \<times> error option" where
  "IncreaseBalance b idx delta =
     (case state b of None \<Rightarrow> (b, Some ErrNilInnerState)
      | Some s \<Rightarrow>
        (case st_Balances s of None \<Rightarrow> (b, Some (ErrIndexDoesNotExist idx))
         | Some bals \<Rightarrow>
             if length bals \<le> unat idx then (b, Some (ErrIndexDoesNotExist idx))
             else (b\<lparr>state := Some (s\<lparr>st_Balances :=
                       Some (bals[unat idx := bals ! unat idx + delta])\<rparr>)\<rparr>, None)))"

section \<open>Attestation transition (package blocks)\<close>

text \<open>
  What \<open>ProcessAttestationNoVerifySignature\<close> has established when it reaches the
  participation flags: the committee, whether the target epoch is the current one, the copy
  of the selected participation array, and the three matches. The checks run in the order of
  the source: \<open>validate_attestation\<close> is lines 134 to 170 (nil, epochs, inclusion
  window), \<open>check_committee\<close> lines 171 to 194, \<open>match_roots\<close> lines 196 to 224.
\<close>

record checked =
  ck_committee :: "u64 list"
  ck_isCurrent :: bool
  ck_epochParticipation :: bytes
  ck_matchingSource :: bool
  ck_matchingTarget :: bool
  ck_matchingHead :: bool

definition match_roots :: "collaborators \<Rightarrow> BeaconState \<Rightarrow> Attestation \<Rightarrow> u64 list \<Rightarrow> error + checked" where
  "match_roots h beaconState att committee =
    (let currEpoch = CurrentEpoch h beaconState;
         prevEpoch = PrevEpoch h beaconState;
         data = at_Data att;
         isCurrent = (cp_Epoch (ad_Target data) = currEpoch);
         justifiedCheckpt =
           (if isCurrent then BeaconState_CurrentJustifiedCheckpoint beaconState
            else BeaconState_PreviousJustifiedCheckpoint beaconState);
         ffgTargetEpoch = (if isCurrent then currEpoch else prevEpoch);
         epochParticipation =
           (if isCurrent then BeaconState_CurrentEpochParticipation beaconState
            else BeaconState_PreviousEpochParticipation beaconState)
     in
     if cp_Epoch (ad_Target data) \<noteq> ffgTargetEpoch then Inl ErrFfgTargetEpoch
     else
       let matchingSource = CheckPointIsEqual h (ad_Source data) justifiedCheckpt in
       if \<not> matchingSource then Inl ErrSourceMismatch
       else
         (case BlockRoot h beaconState (cp_Epoch (ad_Target data)) of
            None \<Rightarrow> Inl ErrBlockRoot
          | Some r \<Rightarrow>
            let matchingTarget = (r = cp_Root (ad_Target data)) in
            (case BlockRootAtSlot h beaconState (ad_Slot data) of
               None \<Rightarrow> Inl ErrBlockRootAtSlot
             | Some r' \<Rightarrow>
               let matchingHead = (r' = ad_BeaconBlockRoot data) in
               Inr \<lparr>ck_committee = committee, ck_isCurrent = isCurrent,
                    ck_epochParticipation = epochParticipation,
                    ck_matchingSource = matchingSource,
                    ck_matchingTarget = matchingTarget,
                    ck_matchingHead = matchingHead\<rparr>)))"

definition check_committee :: "collaborators \<Rightarrow> BeaconState \<Rightarrow> Attestation \<Rightarrow> error + checked" where
  "check_committee h beaconState att =
    (case ActiveValidatorCount h beaconState (cp_Epoch (ad_Target (at_Data att))) of
       None \<Rightarrow> Inl ErrActiveValidatorCount
     | Some activeValidatorCount \<Rightarrow>
       let c = SlotCommitteeCount h activeValidatorCount in
       if ad_CommitteeIndex (at_Data att) \<ge> c then Inl ErrCommitteeIndex
       else if \<not> VerifyAttestationBitfieldLengths h beaconState att
         then Inl ErrBitfieldLengths
       else
         (case BeaconCommitteeFromState h beaconState (ad_Slot (at_Data att))
                 (ad_CommitteeIndex (at_Data att)) of
            None \<Rightarrow> Inl ErrBeaconCommittee
          | Some committee \<Rightarrow>
            (case ConvertToIndexed h att committee of
               None \<Rightarrow> Inl ErrConvertToIndexed
             | Some indexedAtt \<Rightarrow>
               if \<not> IsValidAttestationIndices h indexedAtt then Inl ErrInvalidIndices
               else match_roots h beaconState att committee)))"

definition validate_attestation :: "collaborators \<Rightarrow> BeaconConfig \<Rightarrow> BeaconState \<Rightarrow> Attestation \<Rightarrow> error + checked" where
  "validate_attestation h cfg beaconState att =
    (if \<not> ValidateNilAttestation h att then Inl ErrNilAttestation
     else
       let currEpoch = CurrentEpoch h beaconState;
           prevEpoch = PrevEpoch h beaconState;
           data = at_Data att
       in
       if cp_Epoch (ad_Target data) \<noteq> prevEpoch \<and> cp_Epoch (ad_Target data) \<noteq> currEpoch
         then Inl ErrTargetEpoch
       else if \<not> ValidateSlotTargetEpoch h (at_Data att) then Inl ErrSlotTargetEpoch
       else
         let s = ad_Slot (at_Data att) in
         if \<not> (s + MinAttestationInclusionDelay cfg \<le> BeaconState_Slot beaconState)
           then Inl ErrMinInclusionDelay
         else if \<not> (BeaconState_Slot beaconState \<le> s + SlotsPerEpoch cfg)
           then Inl ErrEpochInclusion
         else check_committee h beaconState att)"

text \<open>
  Source lines 227 to 239: \<open>participatedFlags\<close> is a Go map from flag to bool, here a function
  that is \<open>False\<close> where the map has no entry. The source flag is tested with \<open>Slot.Add\<close>.
\<close>

definition participatedFlags :: "BeaconConfig \<Rightarrow> u64 \<Rightarrow> AttestationData \<Rightarrow> bool \<Rightarrow> bool \<Rightarrow> bool \<Rightarrow> error + (u8 \<Rightarrow> bool)" where
  "participatedFlags cfg stateSlot data matchingHead matchingTarget matchingSource =
    (let headFlag = TimelyHeadFlag cfg;
         sourceFlag = TimelySourceFlag cfg;
         targetFlag = TimelyTargetFlag cfg;
         m0 = (\<lambda>_. False);
         m1 = (if matchingHead \<and> matchingTarget
                  \<and> stateSlot \<le> ad_Slot data + MinAttestationInclusionDelay cfg
               then m0(headFlag := True) else m0)
     in
     if matchingSource then
       (case Slot_Add (ad_Slot data) (IntegerSquareRoot (SlotsPerEpoch cfg)) of
          Inl e \<Rightarrow> Inl e
        | Inr bound \<Rightarrow>
          let m2 = (if stateSlot \<le> bound then m1(sourceFlag := True) else m1);
              m3 = (if matchingTarget \<and> stateSlot \<le> ad_Slot data + SlotsPerEpoch cfg
                    then m2(targetFlag := True) else m2)
          in Inr m3)
     else
       Inr (if matchingTarget \<and> stateSlot \<le> ad_Slot data + SlotsPerEpoch cfg
            then m1(targetFlag := True) else m1))"

text \<open>
  One of the three guarded updates of the loop body (source lines 250 to 261). The index
  expression is evaluated only when the flag was granted (\<open>&&\<close> short-circuits), and then
  panics when the index is outside the participation array.
\<close>

definition flag_update :: "bool \<Rightarrow> u8 \<Rightarrow> u64 \<Rightarrow> u64 \<Rightarrow> u64 \<Rightarrow> bytes \<times> u64 \<Rightarrow> error + bytes \<times> u64" where
  "flag_update granted flag br numerator index acc =
    (case acc of (epochParticipation, proposerRewardNumerator) \<Rightarrow>
      if \<not> granted then Inr acc
      else if length epochParticipation \<le> unat index then Inl PanicIndexOutOfRange
      else if \<not> HasValidatorFlag (epochParticipation ! unat index) flag then
        Inr (epochParticipation[unat index :=
               AddValidatorFlag (epochParticipation ! unat index) flag],
             proposerRewardNumerator + br * numerator)
      else Inr acc)"

fun attesting_loop :: "(u64 \<Rightarrow> u64 option) \<Rightarrow> BeaconConfig \<Rightarrow> (u8 \<Rightarrow> bool) \<Rightarrow> u64 list \<Rightarrow> bytes \<times> u64 \<Rightarrow> error + bytes \<times> u64" where
  "attesting_loop baseReward cfg pf [] acc = Inr acc"
| "attesting_loop baseReward cfg pf (index # indices) acc =
    (case baseReward index of
       None \<Rightarrow> Inl ErrBaseReward
     | Some br \<Rightarrow>
       (case flag_update (pf (TimelyHeadFlag cfg)) (TimelyHeadFlag cfg) br
                (TimelyHeadNumerator cfg) index acc of
          Inl e \<Rightarrow> Inl e
        | Inr acc1 \<Rightarrow>
          (case flag_update (pf (TimelySourceFlag cfg)) (TimelySourceFlag cfg) br
                   (TimelySourceNumerator cfg) index acc1 of
             Inl e \<Rightarrow> Inl e
           | Inr acc2 \<Rightarrow>
             (case flag_update (pf (TimelyTargetFlag cfg)) (TimelyTargetFlag cfg) br
                      (TimelyTargetNumerator cfg) index acc2 of
                Inl e \<Rightarrow> Inl e
              | Inr acc3 \<Rightarrow> attesting_loop baseReward cfg pf indices acc3))))"

text \<open>
  Source lines 264 to 281: the participation array is written back to the state, and only
  then are the proposer reward computed, the proposer looked up and its balance credited.
\<close>

definition commit_attestation :: "collaborators \<Rightarrow> BeaconConfig \<Rightarrow> BeaconState \<Rightarrow> bool \<Rightarrow> bytes \<Rightarrow> u64 \<Rightarrow> BeaconState \<times> error option" where
  "commit_attestation h cfg beaconState isCurrent epochParticipation proposerRewardNumerator =
    (case (if isCurrent then BeaconState_SetCurrentParticipationBits beaconState epochParticipation
           else BeaconState_SetPreviousParticipationBits beaconState epochParticipation) of
       (b1, Some e) \<Rightarrow> (b1, Some e)
     | (b1, None) \<Rightarrow>
       if RewardDenominator cfg * ProposerRewardQuotient cfg = 0 then (b1, Some PanicDivideByZero)
       else
         let proposerReward = proposerRewardNumerator div
                                (RewardDenominator cfg * ProposerRewardQuotient cfg)
         in (case BeaconProposerIndex h b1 of
               None \<Rightarrow> (b1, Some ErrProposerIndex)
             | Some i \<Rightarrow> IncreaseBalance b1 i proposerReward))"

text \<open>
  The result is the state object after the call (the Go function works through the pointer
  \<open>beaconState\<close>) and the error, \<open>None\<close> for \<open>nil\<close>.
\<close>

definition ProcessAttestationNoVerifySignature :: "collaborators \<Rightarrow> BeaconConfig \<Rightarrow> BeaconState \<Rightarrow> Attestation \<Rightarrow> BeaconState \<times> error option" where
  "ProcessAttestationNoVerifySignature h cfg beaconState att =
    (case validate_attestation h cfg beaconState att of
       Inl e \<Rightarrow> (beaconState, Some e)
     | Inr ck \<Rightarrow>
       (case participatedFlags cfg (BeaconState_Slot beaconState) (at_Data att)
               (ck_matchingHead ck) (ck_matchingTarget ck) (ck_matchingSource ck) of
          Inl e \<Rightarrow> (beaconState, Some e)
        | Inr pf \<Rightarrow>
          (case AttestingIndices h (at_AggregationBits att) (ck_committee ck) of
             None \<Rightarrow> (beaconState, Some ErrAttestingIndices)
           | Some indices \<Rightarrow>
             (case attesting_loop (BaseReward h beaconState) cfg pf indices
                     (ck_epochParticipation ck, 0) of
                Inl e \<Rightarrow> (beaconState, Some e)
              | Inr (epochParticipation, proposerRewardNumerator) \<Rightarrow>
                commit_attestation h cfg beaconState (ck_isCurrent ck) epochParticipation
                  proposerRewardNumerator))))"

fun collect_pubkeys :: "collaborators \<Rightarrow> BeaconState \<Rightarrow> u64 list \<Rightarrow> bytes list option" where
  "collect_pubkeys h beaconState [] = Some []"
| "collect_pubkeys h beaconState (i # indices) =
    (case PublicKeyFromBytes h (BeaconState_PubkeyAtIndex beaconState i) of
       None \<Rightarrow> None
     | Some pk \<Rightarrow>
       (case collect_pubkeys h beaconState indices of
          None \<Rightarrow> None
        | Some pks \<Rightarrow> Some (pk # pks)))"

definition VerifyIndexedAttestation :: "collaborators \<Rightarrow> BeaconConfig \<Rightarrow> BeaconState \<Rightarrow> IndexedAttestation \<Rightarrow> error option" where
  "VerifyIndexedAttestation h cfg beaconState indexedAtt =
    (if \<not> IsValidAttestationIndices h indexedAtt then Some ErrInvalidIndices
     else
       (case Domain h (BeaconState_Fork beaconState) (cp_Epoch (ad_Target (ia_Data indexedAtt)))
               (DomainBeaconAttester cfg)
               (BeaconState_GenesisValidatorRoot (ZeroHash cfg) beaconState) of
          None \<Rightarrow> Some ErrDomain
        | Some domain \<Rightarrow>
          (case collect_pubkeys h beaconState (ia_AttestingIndices indexedAtt) of
             None \<Rightarrow> Some ErrPublicKey
           | Some pubkeys \<Rightarrow>
             if VerifyIndexedAttestationSig h indexedAtt pubkeys domain then None
             else Some ErrInvalidSignature)))"

definition VerifyAttestationSignature :: "collaborators \<Rightarrow> BeaconConfig \<Rightarrow> BeaconState \<Rightarrow> Attestation \<Rightarrow> error option" where
  "VerifyAttestationSignature h cfg beaconState att =
    (if \<not> ValidateNilAttestation h att then Some ErrNilAttestation
     else
       (case BeaconCommitteeFromState h beaconState (ad_Slot (at_Data att))
               (ad_CommitteeIndex (at_Data att)) of
          None \<Rightarrow> Some ErrBeaconCommittee
        | Some committee \<Rightarrow>
          (case ConvertToIndexed h att committee of
             None \<Rightarrow> Some ErrConvertToIndexed
           | Some indexedAtt \<Rightarrow> VerifyIndexedAttestation h cfg beaconState indexedAtt)))"

definition ProcessAttestation :: "collaborators \<Rightarrow> BeaconConfig \<Rightarrow> BeaconState \<Rightarrow> Attestation \<Rightarrow> BeaconState \<times> error option" where
  "ProcessAttestation h cfg beaconState att =
    (case ProcessAttestationNoVerifySignature h cfg beaconState att of
       (b1, Some e) \<Rightarrow> (b1, Some e)
     | (b1, None) \<Rightarrow> (b1, VerifyAttestationSignature h cfg b1 att))"

section \<open>A concrete configuration, collaborators and inputs\<close>

text \<open>
  The constants of the main network, an instance of the collaborators (one committee of two
  validators per slot, epochs of 32 slots, a signature check that accepts one fixed
  signature), a state of two validators at slot 1 and an attestation for slot 0. They give
  the general theorems concrete inputs to run on.
\<close>

definition example_config :: BeaconConfig where
  "example_config = \<lparr>MinAttestationInclusionDelay = 1, SlotsPerEpoch = 32,
     TimelyHeadFlag = 1, TimelySourceFlag = 2, TimelyTargetFlag = 4,
     TimelyHeadNumerator = 12, TimelySourceNumerator = 12, TimelyTargetNumerator = 32,
     RewardDenominator = 64, ProposerRewardQuotient = 8,
     DomainBeaconAttester = [1, 0, 0, 0], ZeroHash = replicate 32 0\<rparr>"

definition example_collaborators :: collaborators where
  "example_collaborators = \<lparr>
     ValidateNilAttestation = (\<lambda>att. True),
     CurrentEpoch = (\<lambda>b. BeaconState_Slot b div 32),
     PrevEpoch = (\<lambda>b. if BeaconState_Slot b div 32 = 0 then 0 else BeaconState_Slot b div 32 - 1),
     ValidateSlotTargetEpoch = (\<lambda>d. ad_Slot d div 32 = cp_Epoch (ad_Target d)),
     ActiveValidatorCount = (\<lambda>b e. Some (word_of_nat (BeaconState_NumValidators b))),
     SlotCommitteeCount = (\<lambda>n. 1),
     VerifyAttestationBitfieldLengths = (\<lambda>b att. True),
     BeaconCommitteeFromState = (\<lambda>b s i. Some [0, 1]),
     ConvertToIndexed = (\<lambda>att c. Some \<lparr>ia_AttestingIndices = c, ia_Data = at_Data att,
                                         ia_Signature = at_Signature att\<rparr>),
     IsValidAttestationIndices = (\<lambda>ia. ia_AttestingIndices ia \<noteq> []),
     CheckPointIsEqual = (\<lambda>c j. j = Some c),
     BlockRoot = (\<lambda>b e. Some [7]),
     BlockRootAtSlot = (\<lambda>b s. Some [7]),
     AttestingIndices = (\<lambda>bits c. Some c),
     BaseReward = (\<lambda>b i. Some 1000),
     BeaconProposerIndex = (\<lambda>b. Some 0),
     Domain = (\<lambda>f e d r. Some [0]),
     PublicKeyFromBytes = (\<lambda>k. Some k),
     VerifyIndexedAttestationSig = (\<lambda>ia pks d. ia_Signature ia = [1])\<rparr>"

definition example_validator :: Validator where
  "example_validator = \<lparr>va_PublicKey = replicate 48 5, va_WithdrawalCredentials = replicate 32 6,
     va_EffectiveBalance = 32000000000, va_Slashed = False, va_ActivationEligibilityEpoch = 0,
     va_ActivationEpoch = 0, va_ExitEpoch = - 1, va_WithdrawableEpoch = - 1\<rparr>"

definition example_inner :: InnerState where
  "example_inner = \<lparr>st_GenesisValidatorsRoot = Some (replicate 32 0), st_Slot = 1,
     st_Fork = Some \<lparr>fk_PreviousVersion = [0, 0, 0, 0], fk_CurrentVersion = [0, 0, 0, 0],
                     fk_Epoch = 0\<rparr>,
     st_Validators = Some [Some example_validator, Some example_validator],
     st_Balances = Some [32000000000, 32000000000],
     st_PreviousEpochParticipation = [0, 0],
     st_CurrentEpochParticipation = [0, 0],
     st_PreviousJustifiedCheckpoint = Some \<lparr>cp_Epoch = 0, cp_Root = [7]\<rparr>,
     st_CurrentJustifiedCheckpoint = Some \<lparr>cp_Epoch = 0, cp_Root = [7]\<rparr>\<rparr>"

definition example_state :: BeaconState where
  "example_state = \<lparr>state = Some example_inner\<rparr>"

definition example_state_at :: "u64 \<Rightarrow> BeaconState" where
  "example_state_at sl = \<lparr>state = Some (example_inner\<lparr>st_Slot := sl\<rparr>)\<rparr>"

definition example_attestation :: "bytes \<Rightarrow> Attestation" where
  "example_attestation sig = \<lparr>at_AggregationBits = [3],
     at_Data = \<lparr>ad_Slot = 0, ad_CommitteeIndex = 0, ad_BeaconBlockRoot = [7],
                 ad_Source = \<lparr>cp_Epoch = 0, cp_Root = [7]\<rparr>,
                 ad_Target = \<lparr>cp_Epoch = 0, cp_Root = [7]\<rparr>\<rparr>,
     at_Signature = sig\<rparr>"

definition BeaconState_Balances :: "BeaconState \<Rightarrow> u64 list option" where
  "BeaconState_Balances b = (case state b of None \<Rightarrow> None | Some s \<Rightarrow> st_Balances s)"


section \<open>The spec's participation update, as formulas\<close>

text \<open>
  Step 10 of the spec's pipeline: "for each attesting index and each satisfied flag not
  already recorded for that index, set the flag bit and accumulate
  \<open>base_reward(index) * flag_numerator\<close>". \<open>flag_contribution\<close> is what one flag adds to the
  numerator for a participation byte, \<open>index_contribution\<close> the three flags of one index,
  \<open>spec_numerator\<close> the sum over the attesting indices (each counted once), and
  \<open>add_granted\<close> the byte with every granted flag set.
\<close>

definition flag_contribution :: "(u8 \<Rightarrow> bool) \<Rightarrow> u8 \<Rightarrow> u64 \<Rightarrow> u64 \<Rightarrow> u8 \<Rightarrow> u64" where
  "flag_contribution pf flag br numerator byte =
     (if pf flag \<and> \<not> HasValidatorFlag byte flag then br * numerator else 0)"

definition index_contribution :: "BeaconConfig \<Rightarrow> (u8 \<Rightarrow> bool) \<Rightarrow> (u64 \<Rightarrow> u64) \<Rightarrow> bytes \<Rightarrow> u64 \<Rightarrow> u64" where
  "index_contribution cfg pf br ep i =
     flag_contribution pf (TimelyHeadFlag cfg) (br i) (TimelyHeadNumerator cfg) (ep ! unat i)
     + flag_contribution pf (TimelySourceFlag cfg) (br i) (TimelySourceNumerator cfg) (ep ! unat i)
     + flag_contribution pf (TimelyTargetFlag cfg) (br i) (TimelyTargetNumerator cfg) (ep ! unat i)"

definition spec_numerator :: "BeaconConfig \<Rightarrow> (u8 \<Rightarrow> bool) \<Rightarrow> (u64 \<Rightarrow> u64) \<Rightarrow> bytes \<Rightarrow> u64 list \<Rightarrow> u64" where
  "spec_numerator cfg pf br ep indices =
     sum_list (map (index_contribution cfg pf br ep) (remdups indices))"

definition grant :: "(u8 \<Rightarrow> bool) \<Rightarrow> u8 \<Rightarrow> u8 \<Rightarrow> u8" where
  "grant pf flag byte = (if pf flag then AddValidatorFlag byte flag else byte)"

definition add_granted :: "BeaconConfig \<Rightarrow> (u8 \<Rightarrow> bool) \<Rightarrow> u8 \<Rightarrow> u8" where
  "add_granted cfg pf byte =
     grant pf (TimelyTargetFlag cfg) (grant pf (TimelySourceFlag cfg)
       (grant pf (TimelyHeadFlag cfg) byte))"

definition flags_disjoint :: "BeaconConfig \<Rightarrow> bool" where
  "flags_disjoint cfg =
     (TimelyHeadFlag cfg AND TimelySourceFlag cfg = 0
      \<and> TimelyHeadFlag cfg AND TimelyTargetFlag cfg = 0
      \<and> TimelySourceFlag cfg AND TimelyTargetFlag cfg = 0)"

text \<open>
  Two states that differ at most in their balances and participation arrays, and
  collaborators whose answers do not depend on those fields (the helpers of the source read
  slots, validators, roots and randao mixes).
\<close>

definition other_fields :: "InnerState \<Rightarrow> InnerState" where
  "other_fields s = s\<lparr>st_Balances := None, st_PreviousEpochParticipation := [],
                       st_CurrentEpochParticipation := []\<rparr>"

definition same_but_rewards :: "BeaconState \<Rightarrow> BeaconState \<Rightarrow> bool" where
  "same_but_rewards b b' = (map_option other_fields (state b) = map_option other_fields (state b'))"

definition reward_blind :: "collaborators \<Rightarrow> bool" where
  "reward_blind h =
     (\<forall>b b'. same_but_rewards b b' \<longrightarrow>
        CurrentEpoch h b = CurrentEpoch h b' \<and> PrevEpoch h b = PrevEpoch h b'
        \<and> ActiveValidatorCount h b = ActiveValidatorCount h b'
        \<and> VerifyAttestationBitfieldLengths h b = VerifyAttestationBitfieldLengths h b'
        \<and> BeaconCommitteeFromState h b = BeaconCommitteeFromState h b'
        \<and> BlockRoot h b = BlockRoot h b' \<and> BlockRootAtSlot h b = BlockRootAtSlot h b'
        \<and> BaseReward h b = BaseReward h b'
        \<and> BeaconProposerIndex h b = BeaconProposerIndex h b')"

definition example_checked :: checked where
  "example_checked = \<lparr>ck_committee = [0, 1], ck_isCurrent = True, ck_epochParticipation = [0, 0],
     ck_matchingSource = True, ck_matchingTarget = True, ck_matchingHead = True\<rparr>"

definition any_granted :: "BeaconConfig \<Rightarrow> (u8 \<Rightarrow> bool) \<Rightarrow> bool" where
  "any_granted cfg pf =
     (pf (TimelyHeadFlag cfg) \<or> pf (TimelySourceFlag cfg) \<or> pf (TimelyTargetFlag cfg))"

definition example_state_partial :: BeaconState where
  "example_state_partial = \<lparr>state = Some (example_inner\<lparr>st_CurrentEpochParticipation := [1, 0]\<rparr>)\<rparr>"

definition example_state_after :: BeaconState where
  "example_state_after = \<lparr>state = Some (example_inner\<lparr>st_CurrentEpochParticipation := [7, 7],
                                          st_Balances := Some [32000000195, 32000000000]\<rparr>)\<rparr>"

text \<open>
  The record of checks with the participation array read again from another state.
\<close>

definition reselect :: "BeaconState \<Rightarrow> checked \<Rightarrow> checked" where
  "reselect b ck = ck\<lparr>ck_epochParticipation :=
      (if ck_isCurrent ck then BeaconState_CurrentEpochParticipation b
       else BeaconState_PreviousEpochParticipation b)\<rparr>"

section \<open>Canonical codec (package ethereum_beacon_p2p_v1, generated by fastssz)\<close>

datatype ssz_error =
    ErrSize
  | ErrOffset
  | ErrBytesLength
  | ErrVectorLength
  | ErrListTooBig
  | ErrIncorrectListSize
  | ErrDivideInt
  | ErrNested
  | PanicNilPointer

text \<open>
  Modelled from the spec: the primitives of the fastssz library are not among the sources.
  A \<open>uint64\<close> is encoded as 8 bytes and an offset as 4 bytes, both little-endian;
  \<open>WriteOffset\<close> converts its \<open>int\<close> to \<open>uint32\<close>. \<open>DivideInt2\<close> is the element count of a
  list section: it fails when the section is not a whole number of elements or holds more
  than the limit.
\<close>

primrec le_encode :: "nat \<Rightarrow> nat \<Rightarrow> bytes" where
  "le_encode 0 v = []"
| "le_encode (Suc n) v = word_of_nat (v mod 256) # le_encode n (v div 256)"

primrec le_decode :: "bytes \<Rightarrow> nat" where
  "le_decode [] = 0"
| "le_decode (b # bs) = unat b + 256 * le_decode bs"

definition MarshalUint64 :: "bytes \<Rightarrow> u64 \<Rightarrow> bytes" where
  "MarshalUint64 dst v = dst @ le_encode 8 (unat v)"

definition UnmarshallUint64 :: "bytes \<Rightarrow> u64" where
  "UnmarshallUint64 buf = word_of_nat (le_decode buf)"

definition WriteOffset :: "bytes \<Rightarrow> nat \<Rightarrow> bytes" where
  "WriteOffset dst i = dst @ le_encode 4 (i mod 2 ^ 32)"

definition ReadOffset :: "bytes \<Rightarrow> nat" where
  "ReadOffset buf = le_decode buf"

definition DivideInt2 :: "nat \<Rightarrow> nat \<Rightarrow> nat \<Rightarrow> ssz_error + nat" where
  "DivideInt2 a b mx =
     (if a mod b \<noteq> 0 then Inl ErrDivideInt
      else if a div b > mx then Inl ErrListTooBig
      else Inr (a div b))"

text \<open>The Go slice expression \<open>buf[a:b]\<close>, for \<open>a \<le> b \<le> len(buf)\<close>.\<close>

definition slice :: "nat \<Rightarrow> nat \<Rightarrow> 'a list \<Rightarrow> 'a list" where
  "slice a b buf = take (b - a) (drop a buf)"

text \<open>
  The loops of the generated code. \<open>marshal_vectors k\<close> appends byte vectors, each of which
  must have \<open>k\<close> bytes; \<open>chunks k n buf\<close> is the list of \<open>buf[ii*k:(ii+1)*k]\<close> for
  \<open>ii < n\<close>, which is what the decoding loops read.
\<close>

fun marshal_vectors :: "nat \<Rightarrow> bytes list \<Rightarrow> bytes \<Rightarrow> ssz_error + bytes" where
  "marshal_vectors k [] dst = Inr dst"
| "marshal_vectors k (x # xs) dst =
     (if length x \<noteq> k then Inl ErrBytesLength else marshal_vectors k xs (dst @ x))"

primrec chunks :: "nat \<Rightarrow> nat \<Rightarrow> 'a list \<Rightarrow> 'a list list" where
  "chunks k 0 buf = []"
| "chunks k (Suc n) buf = take k buf # chunks k n (drop k buf)"

subsection \<open>Fork\<close>

definition new_Fork :: Fork where
  "new_Fork = \<lparr>fk_PreviousVersion = [], fk_CurrentVersion = [], fk_Epoch = 0\<rparr>"

definition Fork_MarshalSSZTo :: "Fork \<Rightarrow> bytes \<Rightarrow> ssz_error + bytes" where
  "Fork_MarshalSSZTo f buf =
     (if length (fk_PreviousVersion f) \<noteq> 4 then Inl ErrBytesLength
      else if length (fk_CurrentVersion f) \<noteq> 4 then Inl ErrBytesLength
      else Inr (MarshalUint64 (buf @ fk_PreviousVersion f @ fk_CurrentVersion f) (fk_Epoch f)))"

definition Fork_MarshalSSZ :: "Fork \<Rightarrow> ssz_error + bytes" where
  "Fork_MarshalSSZ f = Fork_MarshalSSZTo f []"

definition Fork_UnmarshalSSZ :: "Fork \<Rightarrow> bytes \<Rightarrow> ssz_error + Fork" where
  "Fork_UnmarshalSSZ f buf =
     (if length buf \<noteq> 16 then Inl ErrSize
      else Inr \<lparr>fk_PreviousVersion = fk_PreviousVersion f @ slice 0 4 buf,
                fk_CurrentVersion = fk_CurrentVersion f @ slice 4 8 buf,
                fk_Epoch = UnmarshallUint64 (slice 8 16 buf)\<rparr>)"

definition Fork_SizeSSZ :: "Fork \<Rightarrow> nat" where
  "Fork_SizeSSZ f = 16"

subsection \<open>Status\<close>

record Status =
  sts_ForkDigest :: bytes
  sts_FinalizedRoot :: bytes
  sts_FinalizedEpoch :: u64
  sts_HeadRoot :: bytes
  sts_HeadSlot :: u64

definition new_Status :: Status where
  "new_Status = \<lparr>sts_ForkDigest = [], sts_FinalizedRoot = [], sts_FinalizedEpoch = 0,
     sts_HeadRoot = [], sts_HeadSlot = 0\<rparr>"

definition Status_MarshalSSZTo :: "Status \<Rightarrow> bytes \<Rightarrow> ssz_error + bytes" where
  "Status_MarshalSSZTo s buf =
     (if length (sts_ForkDigest s) \<noteq> 4 then Inl ErrBytesLength
      else if length (sts_FinalizedRoot s) \<noteq> 32 then Inl ErrBytesLength
      else if length (sts_HeadRoot s) \<noteq> 32 then Inl ErrBytesLength
      else Inr (MarshalUint64
                  (MarshalUint64 (buf @ sts_ForkDigest s @ sts_FinalizedRoot s)
                     (sts_FinalizedEpoch s) @ sts_HeadRoot s)
                  (sts_HeadSlot s)))"

definition Status_MarshalSSZ :: "Status \<Rightarrow> ssz_error + bytes" where
  "Status_MarshalSSZ s = Status_MarshalSSZTo s []"

definition Status_UnmarshalSSZ :: "Status \<Rightarrow> bytes \<Rightarrow> ssz_error + Status" where
  "Status_UnmarshalSSZ s buf =
     (if length buf \<noteq> 84 then Inl ErrSize
      else Inr \<lparr>sts_ForkDigest = sts_ForkDigest s @ slice 0 4 buf,
                sts_FinalizedRoot = sts_FinalizedRoot s @ slice 4 36 buf,
                sts_FinalizedEpoch = UnmarshallUint64 (slice 36 44 buf),
                sts_HeadRoot = sts_HeadRoot s @ slice 44 76 buf,
                sts_HeadSlot = UnmarshallUint64 (slice 76 84 buf)\<rparr>)"

definition Status_SizeSSZ :: "Status \<Rightarrow> nat" where
  "Status_SizeSSZ s = 84"

subsection \<open>SigningData, ForkData, DepositMessage\<close>

record SigningData =
  sd_ObjectRoot :: bytes
  sd_Domain :: bytes

definition new_SigningData :: SigningData where
  "new_SigningData = \<lparr>sd_ObjectRoot = [], sd_Domain = []\<rparr>"

definition SigningData_MarshalSSZTo :: "SigningData \<Rightarrow> bytes \<Rightarrow> ssz_error + bytes" where
  "SigningData_MarshalSSZTo s buf =
     (if length (sd_ObjectRoot s) \<noteq> 32 then Inl ErrBytesLength
      else if length (sd_Domain s) \<noteq> 32 then Inl ErrBytesLength
      else Inr (buf @ sd_ObjectRoot s @ sd_Domain s))"

definition SigningData_MarshalSSZ :: "SigningData \<Rightarrow> ssz_error + bytes" where
  "SigningData_MarshalSSZ s = SigningData_MarshalSSZTo s []"

definition SigningData_UnmarshalSSZ :: "SigningData \<Rightarrow> bytes \<Rightarrow> ssz_error + SigningData" where
  "SigningData_UnmarshalSSZ s buf =
     (if length buf \<noteq> 64 then Inl ErrSize
      else Inr \<lparr>sd_ObjectRoot = sd_ObjectRoot s @ slice 0 32 buf,
                sd_Domain = sd_Domain s @ slice 32 64 buf\<rparr>)"

definition SigningData_SizeSSZ :: "SigningData \<Rightarrow> nat" where
  "SigningData_SizeSSZ s = 64"

record ForkData =
  fd_CurrentVersion :: bytes
  fd_GenesisValidatorsRoot :: bytes

definition new_ForkData :: ForkData where
  "new_ForkData = \<lparr>fd_CurrentVersion = [], fd_GenesisValidatorsRoot = []\<rparr>"

definition ForkData_MarshalSSZTo :: "ForkData \<Rightarrow> bytes \<Rightarrow> ssz_error + bytes" where
  "ForkData_MarshalSSZTo f buf =
     (if length (fd_CurrentVersion f) \<noteq> 4 then Inl ErrBytesLength
      else if length (fd_GenesisValidatorsRoot f) \<noteq> 32 then Inl ErrBytesLength
      else Inr (buf @ fd_CurrentVersion f @ fd_GenesisValidatorsRoot f))"

definition ForkData_MarshalSSZ :: "ForkData \<Rightarrow> ssz_error + bytes" where
  "ForkData_MarshalSSZ f = ForkData_MarshalSSZTo f []"

definition ForkData_UnmarshalSSZ :: "ForkData \<Rightarrow> bytes \<Rightarrow> ssz_error + ForkData" where
  "ForkData_UnmarshalSSZ f buf =
     (if length buf \<noteq> 36 then Inl ErrSize
      else Inr \<lparr>fd_CurrentVersion = fd_CurrentVersion f @ slice 0 4 buf,
                fd_GenesisValidatorsRoot = fd_GenesisValidatorsRoot f @ slice 4 36 buf\<rparr>)"

definition ForkData_SizeSSZ :: "ForkData \<Rightarrow> nat" where
  "ForkData_SizeSSZ f = 36"

record DepositMessage =
  dm_PublicKey :: bytes
  dm_WithdrawalCredentials :: bytes
  dm_Amount :: u64

definition new_DepositMessage :: DepositMessage where
  "new_DepositMessage = \<lparr>dm_PublicKey = [], dm_WithdrawalCredentials = [], dm_Amount = 0\<rparr>"

definition DepositMessage_MarshalSSZTo :: "DepositMessage \<Rightarrow> bytes \<Rightarrow> ssz_error + bytes" where
  "DepositMessage_MarshalSSZTo d buf =
     (if length (dm_PublicKey d) \<noteq> 48 then Inl ErrBytesLength
      else if length (dm_WithdrawalCredentials d) \<noteq> 32 then Inl ErrBytesLength
      else Inr (MarshalUint64 (buf @ dm_PublicKey d @ dm_WithdrawalCredentials d) (dm_Amount d)))"

definition DepositMessage_MarshalSSZ :: "DepositMessage \<Rightarrow> ssz_error + bytes" where
  "DepositMessage_MarshalSSZ d = DepositMessage_MarshalSSZTo d []"

definition DepositMessage_UnmarshalSSZ :: "DepositMessage \<Rightarrow> bytes \<Rightarrow> ssz_error + DepositMessage" where
  "DepositMessage_UnmarshalSSZ d buf =
     (if length buf \<noteq> 88 then Inl ErrSize
      else Inr \<lparr>dm_PublicKey = dm_PublicKey d @ slice 0 48 buf,
                dm_WithdrawalCredentials = dm_WithdrawalCredentials d @ slice 48 80 buf,
                dm_Amount = UnmarshallUint64 (slice 80 88 buf)\<rparr>)"

definition DepositMessage_SizeSSZ :: "DepositMessage \<Rightarrow> nat" where
  "DepositMessage_SizeSSZ d = 88"

subsection \<open>SyncCommittee, HistoricalBatch\<close>

record SyncCommittee =
  sc_Pubkeys :: "bytes list"
  sc_PubkeyAggregates :: "bytes list"

definition new_SyncCommittee :: SyncCommittee where
  "new_SyncCommittee = \<lparr>sc_Pubkeys = [], sc_PubkeyAggregates = []\<rparr>"

definition SyncCommittee_MarshalSSZTo :: "SyncCommittee \<Rightarrow> bytes \<Rightarrow> ssz_error + bytes" where
  "SyncCommittee_MarshalSSZTo s buf =
     (if length (sc_Pubkeys s) \<noteq> 1024 then Inl ErrVectorLength
      else case marshal_vectors 48 (sc_Pubkeys s) buf of
             Inl e \<Rightarrow> Inl e
           | Inr dst \<Rightarrow>
               if length (sc_PubkeyAggregates s) \<noteq> 16 then Inl ErrVectorLength
               else marshal_vectors 48 (sc_PubkeyAggregates s) dst)"

definition SyncCommittee_MarshalSSZ :: "SyncCommittee \<Rightarrow> ssz_error + bytes" where
  "SyncCommittee_MarshalSSZ s = SyncCommittee_MarshalSSZTo s []"

definition SyncCommittee_UnmarshalSSZ :: "SyncCommittee \<Rightarrow> bytes \<Rightarrow> ssz_error + SyncCommittee" where
  "SyncCommittee_UnmarshalSSZ s buf =
     (if length buf \<noteq> 49920 then Inl ErrSize
      else Inr \<lparr>sc_Pubkeys = chunks 48 1024 (slice 0 49152 buf),
                sc_PubkeyAggregates = chunks 48 16 (slice 49152 49920 buf)\<rparr>)"

definition SyncCommittee_SizeSSZ :: "SyncCommittee \<Rightarrow> nat" where
  "SyncCommittee_SizeSSZ s = 49920"

record HistoricalBatch =
  hb_BlockRoots :: "bytes list"
  hb_StateRoots :: "bytes list"

definition new_HistoricalBatch :: HistoricalBatch where
  "new_HistoricalBatch = \<lparr>hb_BlockRoots = [], hb_StateRoots = []\<rparr>"

definition HistoricalBatch_MarshalSSZTo :: "HistoricalBatch \<Rightarrow> bytes \<Rightarrow> ssz_error + bytes" where
  "HistoricalBatch_MarshalSSZTo h buf =
     (if length (hb_BlockRoots h) \<noteq> 8192 then Inl ErrVectorLength
      else case marshal_vectors 32 (hb_BlockRoots h) buf of
             Inl e \<Rightarrow> Inl e
           | Inr dst \<Rightarrow>
               if length (hb_StateRoots h) \<noteq> 8192 then Inl ErrVectorLength
               else marshal_vectors 32 (hb_StateRoots h) dst)"

definition HistoricalBatch_MarshalSSZ :: "HistoricalBatch \<Rightarrow> ssz_error + bytes" where
  "HistoricalBatch_MarshalSSZ h = HistoricalBatch_MarshalSSZTo h []"

definition HistoricalBatch_UnmarshalSSZ :: "HistoricalBatch \<Rightarrow> bytes \<Rightarrow> ssz_error + HistoricalBatch" where
  "HistoricalBatch_UnmarshalSSZ h buf =
     (if length buf \<noteq> 524288 then Inl ErrSize
      else Inr \<lparr>hb_BlockRoots = chunks 32 8192 (slice 0 262144 buf),
                hb_StateRoots = chunks 32 8192 (slice 262144 524288 buf)\<rparr>)"

definition HistoricalBatch_SizeSSZ :: "HistoricalBatch \<Rightarrow> nat" where
  "HistoricalBatch_SizeSSZ h = 524288"

subsection \<open>BeaconState\<close>

text \<open>
  The records of the package \<open>v1alpha1\<close> that \<open>BeaconState\<close> embeds. Their generated codecs
  are not among the sources: they are parameters (\<open>ext_codecs\<close>), each an encoder that appends
  to a buffer and a decoder with its receiver.
\<close>

record BeaconBlockHeader =
  bh_Slot :: u64
  bh_ProposerIndex :: u64
  bh_ParentRoot :: bytes
  bh_StateRoot :: bytes
  bh_BodyRoot :: bytes

record Eth1Data =
  e1_DepositRoot :: bytes
  e1_DepositCount :: u64
  e1_BlockHash :: bytes

record ext_codecs =
  BeaconBlockHeader_MarshalSSZTo :: "BeaconBlockHeader \<Rightarrow> bytes \<Rightarrow> ssz_error + bytes"
  BeaconBlockHeader_UnmarshalSSZ :: "BeaconBlockHeader \<Rightarrow> bytes \<Rightarrow> ssz_error + BeaconBlockHeader"
  Eth1Data_MarshalSSZTo :: "Eth1Data \<Rightarrow> bytes \<Rightarrow> ssz_error + bytes"
  Eth1Data_UnmarshalSSZ :: "Eth1Data \<Rightarrow> bytes \<Rightarrow> ssz_error + Eth1Data"
  Validator_MarshalSSZTo :: "Validator \<Rightarrow> bytes \<Rightarrow> ssz_error + bytes"
  Validator_UnmarshalSSZ :: "Validator \<Rightarrow> bytes \<Rightarrow> ssz_error + Validator"
  Checkpoint_MarshalSSZTo :: "Checkpoint \<Rightarrow> bytes \<Rightarrow> ssz_error + bytes"
  Checkpoint_UnmarshalSSZ :: "Checkpoint \<Rightarrow> bytes \<Rightarrow> ssz_error + Checkpoint"

definition new_BeaconBlockHeader :: BeaconBlockHeader where
  "new_BeaconBlockHeader = \<lparr>bh_Slot = 0, bh_ProposerIndex = 0, bh_ParentRoot = [],
     bh_StateRoot = [], bh_BodyRoot = []\<rparr>"

definition new_Eth1Data :: Eth1Data where
  "new_Eth1Data = \<lparr>e1_DepositRoot = [], e1_DepositCount = 0, e1_BlockHash = []\<rparr>"

definition new_Checkpoint :: Checkpoint where
  "new_Checkpoint = \<lparr>cp_Epoch = 0, cp_Root = []\<rparr>"

record pb_BeaconState =
  bs_GenesisTime :: u64
  bs_GenesisValidatorsRoot :: bytes
  bs_Slot :: u64
  bs_Fork :: "Fork option"
  bs_LatestBlockHeader :: "BeaconBlockHeader option"
  bs_BlockRoots :: "bytes list"
  bs_StateRoots :: "bytes list"
  bs_HistoricalRoots :: "bytes list"
  bs_Eth1Data :: "Eth1Data option"
  bs_Eth1DataVotes :: "Eth1Data option list"
  bs_Eth1DepositIndex :: u64
  bs_Validators :: "Validator option list"
  bs_Balances :: "u64 list"
  bs_RandaoMixes :: "bytes list"
  bs_Slashings :: "u64 list"
  bs_PreviousEpochParticipation :: bytes
  bs_CurrentEpochParticipation :: bytes
  bs_JustificationBits :: bytes
  bs_PreviousJustifiedCheckpoint :: "Checkpoint option"
  bs_CurrentJustifiedCheckpoint :: "Checkpoint option"
  bs_FinalizedCheckpoint :: "Checkpoint option"
  bs_CurrentSyncCommittee :: "SyncCommittee option"
  bs_NextSyncCommittee :: "SyncCommittee option"

definition new_BeaconState :: pb_BeaconState where
  "new_BeaconState = \<lparr>bs_GenesisTime = 0, bs_GenesisValidatorsRoot = [], bs_Slot = 0,
     bs_Fork = None, bs_LatestBlockHeader = None, bs_BlockRoots = [], bs_StateRoots = [],
     bs_HistoricalRoots = [], bs_Eth1Data = None, bs_Eth1DataVotes = [],
     bs_Eth1DepositIndex = 0, bs_Validators = [], bs_Balances = [], bs_RandaoMixes = [],
     bs_Slashings = [], bs_PreviousEpochParticipation = [], bs_CurrentEpochParticipation = [],
     bs_JustificationBits = [], bs_PreviousJustifiedCheckpoint = None,
     bs_CurrentJustifiedCheckpoint = None, bs_FinalizedCheckpoint = None,
     bs_CurrentSyncCommittee = None, bs_NextSyncCommittee = None\<rparr>"

text \<open>\<open>if p == nil { p = new(T) }\<close>: the pointed-to record, or the zero record.\<close>

definition or_new :: "'a \<Rightarrow> 'a option \<Rightarrow> 'a" where
  "or_new z p = (case p of None \<Rightarrow> z | Some v \<Rightarrow> v)"

text \<open>
  The loop over a list of pointers to records: a nil element is dereferenced by the
  element's encoder.
\<close>

fun marshal_elements :: "('a \<Rightarrow> bytes \<Rightarrow> ssz_error + bytes) \<Rightarrow> 'a option list \<Rightarrow> bytes \<Rightarrow> ssz_error + bytes" where
  "marshal_elements enc [] dst = Inr dst"
| "marshal_elements enc (None # xs) dst = Inl PanicNilPointer"
| "marshal_elements enc (Some v # xs) dst =
     (case enc v dst of Inl e \<Rightarrow> Inl e | Inr dst' \<Rightarrow> marshal_elements enc xs dst')"

fun unmarshal_elements :: "(bytes \<Rightarrow> ssz_error + 'a) \<Rightarrow> bytes list \<Rightarrow> ssz_error + 'a option list" where
  "unmarshal_elements dec [] = Inr []"
| "unmarshal_elements dec (c # cs) =
     (case dec c of Inl e \<Rightarrow> Inl e
      | Inr v \<Rightarrow> (case unmarshal_elements dec cs of Inl e \<Rightarrow> Inl e | Inr vs \<Rightarrow> Inr (Some v # vs)))"

text \<open>
  \<open>BeaconState.MarshalSSZTo\<close>, in the order of the source: fields 0 to 6, fields 7 to 14
  (the running \<open>offset\<close> starts at the size of the fixed part), fields 15 to 22, then the
  variable sections.
\<close>

definition marshal_fields_0_6 :: "ext_codecs \<Rightarrow> pb_BeaconState \<Rightarrow> bytes \<Rightarrow> ssz_error + bytes" where
  "marshal_fields_0_6 x b buf =
     (let dst = MarshalUint64 buf (bs_GenesisTime b) in
      if length (bs_GenesisValidatorsRoot b) \<noteq> 32 then Inl ErrBytesLength
      else
        let dst = MarshalUint64 (dst @ bs_GenesisValidatorsRoot b) (bs_Slot b) in
        case Fork_MarshalSSZTo (or_new new_Fork (bs_Fork b)) dst of
          Inl e \<Rightarrow> Inl e
        | Inr dst \<Rightarrow>
          (case BeaconBlockHeader_MarshalSSZTo x
                  (or_new new_BeaconBlockHeader (bs_LatestBlockHeader b)) dst of
             Inl e \<Rightarrow> Inl e
           | Inr dst \<Rightarrow>
             if length (bs_BlockRoots b) \<noteq> 8192 then Inl ErrVectorLength
             else
               (case marshal_vectors 32 (bs_BlockRoots b) dst of
                  Inl e \<Rightarrow> Inl e
                | Inr dst \<Rightarrow>
                  if length (bs_StateRoots b) \<noteq> 8192 then Inl ErrVectorLength
                  else marshal_vectors 32 (bs_StateRoots b) dst)))"

definition marshal_fields_7_14 :: "ext_codecs \<Rightarrow> pb_BeaconState \<Rightarrow> bytes \<Rightarrow> ssz_error + bytes \<times> nat" where
  "marshal_fields_7_14 x b dst0 =
     (let offset = 2787217;
          dst = WriteOffset dst0 offset;
          offset = offset + length (bs_HistoricalRoots b) * 32
      in
      case Eth1Data_MarshalSSZTo x (or_new new_Eth1Data (bs_Eth1Data b)) dst of
        Inl e \<Rightarrow> Inl e
      | Inr dst \<Rightarrow>
        let dst = WriteOffset dst offset;
            offset = offset + length (bs_Eth1DataVotes b) * 72;
            dst = MarshalUint64 dst (bs_Eth1DepositIndex b);
            dst = WriteOffset dst offset;
            offset = offset + length (bs_Validators b) * 121;
            dst = WriteOffset dst offset;
            offset = offset + length (bs_Balances b) * 8
        in
        if length (bs_RandaoMixes b) \<noteq> 65536 then Inl ErrVectorLength
        else
          (case marshal_vectors 32 (bs_RandaoMixes b) dst of
             Inl e \<Rightarrow> Inl e
           | Inr dst \<Rightarrow>
             if length (bs_Slashings b) \<noteq> 8192 then Inl ErrVectorLength
             else Inr (foldl MarshalUint64 dst (bs_Slashings b), offset)))"

definition marshal_fields_15_22 :: "ext_codecs \<Rightarrow> pb_BeaconState \<Rightarrow> bytes \<times> nat \<Rightarrow> ssz_error + bytes" where
  "marshal_fields_15_22 x b acc =
     (case acc of (dst0, offset0) \<Rightarrow>
      let dst = WriteOffset dst0 offset0;
          offset = offset0 + length (bs_PreviousEpochParticipation b);
          dst = WriteOffset dst offset
      in
      if length (bs_JustificationBits b) \<noteq> 1 then Inl ErrBytesLength
      else
        (case Checkpoint_MarshalSSZTo x
                (or_new new_Checkpoint (bs_PreviousJustifiedCheckpoint b))
                (dst @ bs_JustificationBits b) of
           Inl e \<Rightarrow> Inl e
         | Inr dst \<Rightarrow>
           (case Checkpoint_MarshalSSZTo x
                   (or_new new_Checkpoint (bs_CurrentJustifiedCheckpoint b)) dst of
              Inl e \<Rightarrow> Inl e
            | Inr dst \<Rightarrow>
              (case Checkpoint_MarshalSSZTo x
                      (or_new new_Checkpoint (bs_FinalizedCheckpoint b)) dst of
                 Inl e \<Rightarrow> Inl e
               | Inr dst \<Rightarrow>
                 (case SyncCommittee_MarshalSSZTo
                         (or_new new_SyncCommittee (bs_CurrentSyncCommittee b)) dst of
                    Inl e \<Rightarrow> Inl e
                  | Inr dst \<Rightarrow>
                      SyncCommittee_MarshalSSZTo
                        (or_new new_SyncCommittee (bs_NextSyncCommittee b)) dst)))))"

definition marshal_variable :: "ext_codecs \<Rightarrow> pb_BeaconState \<Rightarrow> bytes \<Rightarrow> ssz_error + bytes" where
  "marshal_variable x b dst0 =
     (if length (bs_HistoricalRoots b) > 16777216 then Inl ErrListTooBig
      else
        case marshal_vectors 32 (bs_HistoricalRoots b) dst0 of
          Inl e \<Rightarrow> Inl e
        | Inr dst \<Rightarrow>
          if length (bs_Eth1DataVotes b) > 2048 then Inl ErrListTooBig
          else
            (case marshal_elements (Eth1Data_MarshalSSZTo x) (bs_Eth1DataVotes b) dst of
               Inl e \<Rightarrow> Inl e
             | Inr dst \<Rightarrow>
               if length (bs_Validators b) > 1099511627776 then Inl ErrListTooBig
               else
                 (case marshal_elements (Validator_MarshalSSZTo x) (bs_Validators b) dst of
                    Inl e \<Rightarrow> Inl e
                  | Inr dst \<Rightarrow>
                    if length (bs_Balances b) > 1099511627776 then Inl ErrListTooBig
                    else
                      let dst = foldl MarshalUint64 dst (bs_Balances b) in
                      if length (bs_PreviousEpochParticipation b) > 1099511627776
                        then Inl ErrBytesLength
                      else
                        let dst = dst @ bs_PreviousEpochParticipation b in
                        if length (bs_CurrentEpochParticipation b) > 1099511627776
                          then Inl ErrBytesLength
                        else Inr (dst @ bs_CurrentEpochParticipation b))))"

definition BeaconState_MarshalSSZTo :: "ext_codecs \<Rightarrow> pb_BeaconState \<Rightarrow> bytes \<Rightarrow> ssz_error + bytes" where
  "BeaconState_MarshalSSZTo x b buf =
     (case marshal_fields_0_6 x b buf of
        Inl e \<Rightarrow> Inl e
      | Inr dst \<Rightarrow>
        (case marshal_fields_7_14 x b dst of
           Inl e \<Rightarrow> Inl e
         | Inr acc \<Rightarrow>
           (case marshal_fields_15_22 x b acc of
              Inl e \<Rightarrow> Inl e
            | Inr dst \<Rightarrow> marshal_variable x b dst)))"

definition BeaconState_MarshalSSZ :: "ext_codecs \<Rightarrow> pb_BeaconState \<Rightarrow> ssz_error + bytes" where
  "BeaconState_MarshalSSZ x b = BeaconState_MarshalSSZTo x b []"

definition BeaconState_SizeSSZ :: "pb_BeaconState \<Rightarrow> nat" where
  "BeaconState_SizeSSZ b =
     2787217 + length (bs_HistoricalRoots b) * 32 + length (bs_Eth1DataVotes b) * 72
     + length (bs_Validators b) * 121 + length (bs_Balances b) * 8
     + length (bs_PreviousEpochParticipation b) + length (bs_CurrentEpochParticipation b)"

text \<open>
  The last offset that \<open>BeaconState.MarshalSSZTo\<close> writes, that of
  \<open>CurrentEpochParticipation\<close>: the value of \<open>offset\<close> when the length of
  \<open>PreviousEpochParticipation\<close> has been added, before \<open>WriteOffset\<close> converts it. The five
  offsets written before it are at most this one.
\<close>

definition BeaconState_lastOffset :: "pb_BeaconState \<Rightarrow> nat" where
  "BeaconState_lastOffset b =
     2787217 + length (bs_HistoricalRoots b) * 32 + length (bs_Eth1DataVotes b) * 72
     + length (bs_Validators b) * 121 + length (bs_Balances b) * 8
     + length (bs_PreviousEpochParticipation b)"

text \<open>
  \<open>BeaconState.UnmarshalSSZ\<close>, in the order of the source. \<open>b\<close> is the receiver: byte
  fields are appended to, records pointed to are decoded into, lists are made anew. On an
  error the Go receiver is left partly filled; the model returns the error alone.
\<close>

record offsets =
  o7 :: nat
  o9 :: nat
  o11 :: nat
  o12 :: nat
  o15 :: nat
  o16 :: nat

definition unmarshal_fields_0_7 :: "ext_codecs \<Rightarrow> pb_BeaconState \<Rightarrow> bytes \<Rightarrow> ssz_error + pb_BeaconState \<times> offsets" where
  "unmarshal_fields_0_7 x b buf =
     (case Fork_UnmarshalSSZ (or_new new_Fork (bs_Fork b)) (slice 48 64 buf) of
        Inl e \<Rightarrow> Inl e
      | Inr fork \<Rightarrow>
        (case BeaconBlockHeader_UnmarshalSSZ x
                (or_new new_BeaconBlockHeader (bs_LatestBlockHeader b)) (slice 64 176 buf) of
           Inl e \<Rightarrow> Inl e
         | Inr hdr \<Rightarrow>
           if ReadOffset (slice 524464 524468 buf) > length buf then Inl ErrOffset
           else Inr (b\<lparr>bs_GenesisTime := UnmarshallUint64 (slice 0 8 buf),
                       bs_GenesisValidatorsRoot := bs_GenesisValidatorsRoot b @ slice 8 40 buf,
                       bs_Slot := UnmarshallUint64 (slice 40 48 buf),
                       bs_Fork := Some fork,
                       bs_LatestBlockHeader := Some hdr,
                       bs_BlockRoots := chunks 32 8192 (slice 176 262320 buf),
                       bs_StateRoots := chunks 32 8192 (slice 262320 524464 buf)\<rparr>,
                     \<lparr>o7 = ReadOffset (slice 524464 524468 buf), o9 = 0, o11 = 0, o12 = 0,
                      o15 = 0, o16 = 0\<rparr>)))"

definition unmarshal_fields_8_14 :: "ext_codecs \<Rightarrow> bytes \<Rightarrow> pb_BeaconState \<times> offsets \<Rightarrow> ssz_error + pb_BeaconState \<times> offsets" where
  "unmarshal_fields_8_14 x buf acc =
     (case acc of (b, os) \<Rightarrow>
      case Eth1Data_UnmarshalSSZ x (or_new new_Eth1Data (bs_Eth1Data b))
             (slice 524468 524540 buf) of
        Inl e \<Rightarrow> Inl e
      | Inr eth1 \<Rightarrow>
        let v9 = ReadOffset (slice 524540 524544 buf) in
        if v9 > length buf \<or> o7 os > v9 then Inl ErrOffset
        else
          let v11 = ReadOffset (slice 524552 524556 buf) in
          if v11 > length buf \<or> v9 > v11 then Inl ErrOffset
          else
            let v12 = ReadOffset (slice 524556 524560 buf) in
            if v12 > length buf \<or> v11 > v12 then Inl ErrOffset
            else Inr (b\<lparr>bs_Eth1Data := Some eth1,
                        bs_Eth1DepositIndex := UnmarshallUint64 (slice 524544 524552 buf),
                        bs_RandaoMixes := chunks 32 65536 (slice 524560 2621712 buf),
                        bs_Slashings := map UnmarshallUint64
                                          (chunks 8 8192 (slice 2621712 2687248 buf))\<rparr>,
                      os\<lparr>o9 := v9, o11 := v11, o12 := v12\<rparr>))"

definition unmarshal_fields_15_22 :: "ext_codecs \<Rightarrow> bytes \<Rightarrow> pb_BeaconState \<times> offsets \<Rightarrow> ssz_error + pb_BeaconState \<times> offsets" where
  "unmarshal_fields_15_22 x buf acc =
     (case acc of (b, os) \<Rightarrow>
      let v15 = ReadOffset (slice 2687248 2687252 buf) in
      if v15 > length buf \<or> o12 os > v15 then Inl ErrOffset
      else
        let v16 = ReadOffset (slice 2687252 2687256 buf) in
        if v16 > length buf \<or> v15 > v16 then Inl ErrOffset
        else
          (case Checkpoint_UnmarshalSSZ x
                  (or_new new_Checkpoint (bs_PreviousJustifiedCheckpoint b))
                  (slice 2687257 2687297 buf) of
             Inl e \<Rightarrow> Inl e
           | Inr pj \<Rightarrow>
             (case Checkpoint_UnmarshalSSZ x
                     (or_new new_Checkpoint (bs_CurrentJustifiedCheckpoint b))
                     (slice 2687297 2687337 buf) of
                Inl e \<Rightarrow> Inl e
              | Inr cj \<Rightarrow>
                (case Checkpoint_UnmarshalSSZ x
                        (or_new new_Checkpoint (bs_FinalizedCheckpoint b))
                        (slice 2687337 2687377 buf) of
                   Inl e \<Rightarrow> Inl e
                 | Inr fc \<Rightarrow>
                   (case SyncCommittee_UnmarshalSSZ
                           (or_new new_SyncCommittee (bs_CurrentSyncCommittee b))
                           (slice 2687377 2737297 buf) of
                      Inl e \<Rightarrow> Inl e
                    | Inr cs \<Rightarrow>
                      (case SyncCommittee_UnmarshalSSZ
                              (or_new new_SyncCommittee (bs_NextSyncCommittee b))
                              (slice 2737297 2787217 buf) of
                         Inl e \<Rightarrow> Inl e
                       | Inr ns \<Rightarrow>
                         Inr (b\<lparr>bs_JustificationBits :=
                                   bs_JustificationBits b @ slice 2687256 2687257 buf,
                                 bs_PreviousJustifiedCheckpoint := Some pj,
                                 bs_CurrentJustifiedCheckpoint := Some cj,
                                 bs_FinalizedCheckpoint := Some fc,
                                 bs_CurrentSyncCommittee := Some cs,
                                 bs_NextSyncCommittee := Some ns\<rparr>,
                              os\<lparr>o15 := v15, o16 := v16\<rparr>)))))))"

definition unmarshal_variable :: "ext_codecs \<Rightarrow> bytes \<Rightarrow> pb_BeaconState \<times> offsets \<Rightarrow> ssz_error + pb_BeaconState" where
  "unmarshal_variable x tail acc =
     (case acc of (b, os) \<Rightarrow>
      case DivideInt2 (length (slice (o7 os) (o9 os) tail)) 32 16777216 of
        Inl e \<Rightarrow> Inl e
      | Inr numH \<Rightarrow>
        (case DivideInt2 (length (slice (o9 os) (o11 os) tail)) 72 2048 of
           Inl e \<Rightarrow> Inl e
         | Inr numE \<Rightarrow>
           (case unmarshal_elements (Eth1Data_UnmarshalSSZ x new_Eth1Data)
                   (chunks 72 numE (slice (o9 os) (o11 os) tail)) of
              Inl e \<Rightarrow> Inl e
            | Inr votes \<Rightarrow>
              (case DivideInt2 (length (slice (o11 os) (o12 os) tail)) 121 1099511627776 of
                 Inl e \<Rightarrow> Inl e
               | Inr numV \<Rightarrow>
                 (case unmarshal_elements (Validator_UnmarshalSSZ x empty_Validator)
                         (chunks 121 numV (slice (o11 os) (o12 os) tail)) of
                    Inl e \<Rightarrow> Inl e
                  | Inr vals \<Rightarrow>
                    (case DivideInt2 (length (slice (o12 os) (o15 os) tail)) 8 1099511627776 of
                       Inl e \<Rightarrow> Inl e
                     | Inr numB \<Rightarrow>
                       if length (slice (o15 os) (o16 os) tail) > 1099511627776
                         then Inl ErrBytesLength
                       else if length (drop (o16 os) tail) > 1099511627776
                         then Inl ErrBytesLength
                       else
                         Inr (b\<lparr>bs_HistoricalRoots :=
                                   chunks 32 numH (slice (o7 os) (o9 os) tail),
                                 bs_Eth1DataVotes := votes,
                                 bs_Validators := vals,
                                 bs_Balances := map UnmarshallUint64
                                   (chunks 8 numB (slice (o12 os) (o15 os) tail)),
                                 bs_PreviousEpochParticipation :=
                                   bs_PreviousEpochParticipation b
                                   @ slice (o15 os) (o16 os) tail,
                                 bs_CurrentEpochParticipation :=
                                   bs_CurrentEpochParticipation b
                                   @ drop (o16 os) tail\<rparr>)))))))"

definition BeaconState_UnmarshalSSZ :: "ext_codecs \<Rightarrow> pb_BeaconState \<Rightarrow> bytes \<Rightarrow> ssz_error + pb_BeaconState" where
  "BeaconState_UnmarshalSSZ x b buf =
     (if length buf < 2787217 then Inl ErrSize
      else
        case unmarshal_fields_0_7 x b buf of
          Inl e \<Rightarrow> Inl e
        | Inr acc \<Rightarrow>
          (case unmarshal_fields_8_14 x buf acc of
             Inl e \<Rightarrow> Inl e
           | Inr acc \<Rightarrow>
             (case unmarshal_fields_15_22 x buf acc of
                Inl e \<Rightarrow> Inl e
              | Inr acc \<Rightarrow> unmarshal_variable x buf acc)))"

text \<open>
  What the round trip of \<open>BeaconState\<close> needs of an embedded codec: the encoder appends
  \<open>n\<close> bytes, which the decoder turns back into the encoded record when its receiver is the
  zero record \<open>z\<close>; and the zero record, which replaces a nil pointer, is refused by the
  encoder (its byte fields are empty).
\<close>

definition codec_ok :: "('a \<Rightarrow> bytes \<Rightarrow> ssz_error + bytes) \<Rightarrow> ('a \<Rightarrow> bytes \<Rightarrow> ssz_error + 'a) \<Rightarrow> 'a \<Rightarrow> nat \<Rightarrow> bool" where
  "codec_ok enc dec z n =
     ((\<forall>v dst r. enc v dst = Inr r \<longrightarrow>
         (\<exists>e. r = dst @ e \<and> length e = n \<and> dec z e = Inr v))
      \<and> (\<forall>dst. \<exists>err. enc z dst = Inl err))"

definition ext_codecs_ok :: "ext_codecs \<Rightarrow> bool" where
  "ext_codecs_ok x =
     (codec_ok (BeaconBlockHeader_MarshalSSZTo x) (BeaconBlockHeader_UnmarshalSSZ x)
        new_BeaconBlockHeader 112
      \<and> codec_ok (Eth1Data_MarshalSSZTo x) (Eth1Data_UnmarshalSSZ x) new_Eth1Data 72
      \<and> codec_ok (Validator_MarshalSSZTo x) (Validator_UnmarshalSSZ x) empty_Validator 121
      \<and> codec_ok (Checkpoint_MarshalSSZTo x) (Checkpoint_UnmarshalSSZ x) new_Checkpoint 40)"

text \<open>
  The six offsets at the positions where \<open>BeaconState.UnmarshalSSZ\<close> reads them, and the
  conjunction of the checks it makes on them.
\<close>

definition read_offsets :: "bytes \<Rightarrow> offsets" where
  "read_offsets buf =
     \<lparr>o7 = ReadOffset (slice 524464 524468 buf), o9 = ReadOffset (slice 524540 524544 buf),
      o11 = ReadOffset (slice 524552 524556 buf), o12 = ReadOffset (slice 524556 524560 buf),
      o15 = ReadOffset (slice 2687248 2687252 buf),
      o16 = ReadOffset (slice 2687252 2687256 buf)\<rparr>"

definition offsets_valid :: "nat \<Rightarrow> offsets \<Rightarrow> bool" where
  "offsets_valid n os =
     (o7 os \<le> n \<and> o9 os \<le> n \<and> o11 os \<le> n \<and> o12 os \<le> n
      \<and> o15 os \<le> n \<and> o16 os \<le> n
      \<and> o7 os \<le> o9 os \<and> o9 os \<le> o11 os \<and> o11 os \<le> o12 os \<and> o12 os \<le> o15 os
      \<and> o15 os \<le> o16 os)"

text \<open>
  \<open>BeaconState.UnmarshalSSZ\<close> decodes the block header before it reads the first offset and
  the \<open>Eth1Data\<close> before the second. A generated decoder of a fixed-size record fails only on
  input of another size.
\<close>

definition ext_decoders_total :: "ext_codecs \<Rightarrow> bool" where
  "ext_decoders_total x =
     ((\<forall>r buf. length buf = 112 \<longrightarrow> (\<exists>v. BeaconBlockHeader_UnmarshalSSZ x r buf = Inr v))
      \<and> (\<forall>r buf. length buf = 72 \<longrightarrow> (\<exists>v. Eth1Data_UnmarshalSSZ x r buf = Inr v)))"

subsection \<open>An instance of the embedded codecs\<close>

text \<open>
  Codecs for the four embedded records, written after the pattern of the generated codecs
  above (fixed layout, byte fields checked on encoding, total size checked on decoding).
  They instantiate the parameter \<open>ext_codecs\<close> in the examples.
\<close>

definition MarshalBool :: "bytes \<Rightarrow> bool \<Rightarrow> bytes" where
  "MarshalBool dst v = dst @ [if v then 1 else 0]"

definition UnmarshalBool :: "bytes \<Rightarrow> bool" where
  "UnmarshalBool src = (hd src = 1)"

definition ex_BeaconBlockHeader_MarshalSSZTo :: "BeaconBlockHeader \<Rightarrow> bytes \<Rightarrow> ssz_error + bytes" where
  "ex_BeaconBlockHeader_MarshalSSZTo h buf =
     (if length (bh_ParentRoot h) \<noteq> 32 then Inl ErrBytesLength
      else if length (bh_StateRoot h) \<noteq> 32 then Inl ErrBytesLength
      else if length (bh_BodyRoot h) \<noteq> 32 then Inl ErrBytesLength
      else Inr (MarshalUint64 (MarshalUint64 buf (bh_Slot h)) (bh_ProposerIndex h)
                  @ bh_ParentRoot h @ bh_StateRoot h @ bh_BodyRoot h))"

definition ex_BeaconBlockHeader_UnmarshalSSZ :: "BeaconBlockHeader \<Rightarrow> bytes \<Rightarrow> ssz_error + BeaconBlockHeader" where
  "ex_BeaconBlockHeader_UnmarshalSSZ h buf =
     (if length buf \<noteq> 112 then Inl ErrSize
      else Inr \<lparr>bh_Slot = UnmarshallUint64 (slice 0 8 buf),
                bh_ProposerIndex = UnmarshallUint64 (slice 8 16 buf),
                bh_ParentRoot = bh_ParentRoot h @ slice 16 48 buf,
                bh_StateRoot = bh_StateRoot h @ slice 48 80 buf,
                bh_BodyRoot = bh_BodyRoot h @ slice 80 112 buf\<rparr>)"

definition ex_Eth1Data_MarshalSSZTo :: "Eth1Data \<Rightarrow> bytes \<Rightarrow> ssz_error + bytes" where
  "ex_Eth1Data_MarshalSSZTo e buf =
     (if length (e1_DepositRoot e) \<noteq> 32 then Inl ErrBytesLength
      else if length (e1_BlockHash e) \<noteq> 32 then Inl ErrBytesLength
      else Inr (MarshalUint64 (buf @ e1_DepositRoot e) (e1_DepositCount e) @ e1_BlockHash e))"

definition ex_Eth1Data_UnmarshalSSZ :: "Eth1Data \<Rightarrow> bytes \<Rightarrow> ssz_error + Eth1Data" where
  "ex_Eth1Data_UnmarshalSSZ e buf =
     (if length buf \<noteq> 72 then Inl ErrSize
      else Inr \<lparr>e1_DepositRoot = e1_DepositRoot e @ slice 0 32 buf,
                e1_DepositCount = UnmarshallUint64 (slice 32 40 buf),
                e1_BlockHash = e1_BlockHash e @ slice 40 72 buf\<rparr>)"

definition ex_Validator_MarshalSSZTo :: "Validator \<Rightarrow> bytes \<Rightarrow> ssz_error + bytes" where
  "ex_Validator_MarshalSSZTo v buf =
     (if length (va_PublicKey v) \<noteq> 48 then Inl ErrBytesLength
      else if length (va_WithdrawalCredentials v) \<noteq> 32 then Inl ErrBytesLength
      else Inr (MarshalUint64 (MarshalUint64 (MarshalUint64 (MarshalUint64
                  (MarshalBool
                     (MarshalUint64 (buf @ va_PublicKey v @ va_WithdrawalCredentials v)
                        (va_EffectiveBalance v))
                     (va_Slashed v))
                  (va_ActivationEligibilityEpoch v)) (va_ActivationEpoch v))
                  (va_ExitEpoch v)) (va_WithdrawableEpoch v)))"

definition ex_Validator_UnmarshalSSZ :: "Validator \<Rightarrow> bytes \<Rightarrow> ssz_error + Validator" where
  "ex_Validator_UnmarshalSSZ v buf =
     (if length buf \<noteq> 121 then Inl ErrSize
      else Inr \<lparr>va_PublicKey = va_PublicKey v @ slice 0 48 buf,
                va_WithdrawalCredentials = va_WithdrawalCredentials v @ slice 48 80 buf,
                va_EffectiveBalance = UnmarshallUint64 (slice 80 88 buf),
                va_Slashed = UnmarshalBool (slice 88 89 buf),
                va_ActivationEligibilityEpoch = UnmarshallUint64 (slice 89 97 buf),
                va_ActivationEpoch = UnmarshallUint64 (slice 97 105 buf),
                va_ExitEpoch = UnmarshallUint64 (slice 105 113 buf),
                va_WithdrawableEpoch = UnmarshallUint64 (slice 113 121 buf)\<rparr>)"

definition ex_Checkpoint_MarshalSSZTo :: "Checkpoint \<Rightarrow> bytes \<Rightarrow> ssz_error + bytes" where
  "ex_Checkpoint_MarshalSSZTo c buf =
     (if length (cp_Root c) \<noteq> 32 then Inl ErrBytesLength
      else Inr (MarshalUint64 buf (cp_Epoch c) @ cp_Root c))"

definition ex_Checkpoint_UnmarshalSSZ :: "Checkpoint \<Rightarrow> bytes \<Rightarrow> ssz_error + Checkpoint" where
  "ex_Checkpoint_UnmarshalSSZ c buf =
     (if length buf \<noteq> 40 then Inl ErrSize
      else Inr \<lparr>cp_Epoch = UnmarshallUint64 (slice 0 8 buf),
                cp_Root = cp_Root c @ slice 8 40 buf\<rparr>)"

definition example_codecs :: ext_codecs where
  "example_codecs =
     \<lparr>BeaconBlockHeader_MarshalSSZTo = ex_BeaconBlockHeader_MarshalSSZTo,
      BeaconBlockHeader_UnmarshalSSZ = ex_BeaconBlockHeader_UnmarshalSSZ,
      Eth1Data_MarshalSSZTo = ex_Eth1Data_MarshalSSZTo,
      Eth1Data_UnmarshalSSZ = ex_Eth1Data_UnmarshalSSZ,
      Validator_MarshalSSZTo = ex_Validator_MarshalSSZTo,
      Validator_UnmarshalSSZ = ex_Validator_UnmarshalSSZ,
      Checkpoint_MarshalSSZTo = ex_Checkpoint_MarshalSSZTo,
      Checkpoint_UnmarshalSSZ = ex_Checkpoint_UnmarshalSSZ\<rparr>"

subsection \<open>Example records and their encodings\<close>

definition example_root :: bytes where
  "example_root = replicate 32 7"

definition example_pubkey :: bytes where
  "example_pubkey = replicate 48 9"

definition example_Fork :: Fork where
  "example_Fork = \<lparr>fk_PreviousVersion = [0, 0, 0, 1], fk_CurrentVersion = [0, 0, 0, 2],
     fk_Epoch = 5\<rparr>"

definition example_Status :: Status where
  "example_Status = \<lparr>sts_ForkDigest = [1, 2, 3, 4], sts_FinalizedRoot = example_root,
     sts_FinalizedEpoch = 3, sts_HeadRoot = example_root, sts_HeadSlot = 130\<rparr>"

definition example_SigningData :: SigningData where
  "example_SigningData = \<lparr>sd_ObjectRoot = example_root, sd_Domain = replicate 32 1\<rparr>"

definition example_ForkData :: ForkData where
  "example_ForkData = \<lparr>fd_CurrentVersion = [0, 0, 0, 2],
     fd_GenesisValidatorsRoot = example_root\<rparr>"

definition example_DepositMessage :: DepositMessage where
  "example_DepositMessage = \<lparr>dm_PublicKey = example_pubkey,
     dm_WithdrawalCredentials = replicate 32 6, dm_Amount = 32000000000\<rparr>"

definition example_SyncCommittee :: SyncCommittee where
  "example_SyncCommittee = \<lparr>sc_Pubkeys = replicate 1024 example_pubkey,
     sc_PubkeyAggregates = replicate 16 example_pubkey\<rparr>"

definition example_HistoricalBatch :: HistoricalBatch where
  "example_HistoricalBatch = \<lparr>hb_BlockRoots = replicate 8192 example_root,
     hb_StateRoots = replicate 8192 example_root\<rparr>"

definition example_BeaconBlockHeader :: BeaconBlockHeader where
  "example_BeaconBlockHeader = \<lparr>bh_Slot = 4, bh_ProposerIndex = 1,
     bh_ParentRoot = example_root, bh_StateRoot = example_root, bh_BodyRoot = example_root\<rparr>"

definition example_Eth1Data :: Eth1Data where
  "example_Eth1Data = \<lparr>e1_DepositRoot = example_root, e1_DepositCount = 1,
     e1_BlockHash = example_root\<rparr>"

definition example_Checkpoint :: Checkpoint where
  "example_Checkpoint = \<lparr>cp_Epoch = 3, cp_Root = example_root\<rparr>"

definition example_pb_state :: pb_BeaconState where
  "example_pb_state =
     \<lparr>bs_GenesisTime = 1, bs_GenesisValidatorsRoot = example_root, bs_Slot = 130,
      bs_Fork = Some example_Fork, bs_LatestBlockHeader = Some example_BeaconBlockHeader,
      bs_BlockRoots = replicate 8192 example_root,
      bs_StateRoots = replicate 8192 example_root,
      bs_HistoricalRoots = [example_root],
      bs_Eth1Data = Some example_Eth1Data, bs_Eth1DataVotes = [Some example_Eth1Data],
      bs_Eth1DepositIndex = 1, bs_Validators = [Some example_validator],
      bs_Balances = [32000000000],
      bs_RandaoMixes = replicate 65536 example_root, bs_Slashings = replicate 8192 0,
      bs_PreviousEpochParticipation = [1], bs_CurrentEpochParticipation = [3],
      bs_JustificationBits = [0],
      bs_PreviousJustifiedCheckpoint = Some example_Checkpoint,
      bs_CurrentJustifiedCheckpoint = Some example_Checkpoint,
      bs_FinalizedCheckpoint = Some example_Checkpoint,
      bs_CurrentSyncCommittee = Some example_SyncCommittee,
      bs_NextSyncCommittee = Some example_SyncCommittee\<rparr>"

text \<open>The encodings of the examples, field by field.\<close>

definition example_Fork_encoding :: bytes where
  "example_Fork_encoding = [0, 0, 0, 1] @ [0, 0, 0, 2] @ le_encode 8 5"

definition example_Status_encoding :: bytes where
  "example_Status_encoding =
     [1, 2, 3, 4] @ example_root @ le_encode 8 3 @ example_root @ le_encode 8 130"

definition example_SigningData_encoding :: bytes where
  "example_SigningData_encoding = example_root @ replicate 32 1"

definition example_ForkData_encoding :: bytes where
  "example_ForkData_encoding = [0, 0, 0, 2] @ example_root"

definition example_DepositMessage_encoding :: bytes where
  "example_DepositMessage_encoding =
     example_pubkey @ replicate 32 6 @ le_encode 8 32000000000"

definition example_SyncCommittee_encoding :: bytes where
  "example_SyncCommittee_encoding =
     concat (replicate 1024 example_pubkey) @ concat (replicate 16 example_pubkey)"

definition example_HistoricalBatch_encoding :: bytes where
  "example_HistoricalBatch_encoding =
     concat (replicate 8192 example_root) @ concat (replicate 8192 example_root)"

definition example_BeaconBlockHeader_encoding :: bytes where
  "example_BeaconBlockHeader_encoding =
     le_encode 8 4 @ le_encode 8 1 @ example_root @ example_root @ example_root"

definition example_Eth1Data_encoding :: bytes where
  "example_Eth1Data_encoding = example_root @ le_encode 8 1 @ example_root"

definition example_Checkpoint_encoding :: bytes where
  "example_Checkpoint_encoding = le_encode 8 3 @ example_root"

definition example_validator_encoding :: bytes where
  "example_validator_encoding =
     replicate 48 5 @ replicate 32 6 @ le_encode 8 32000000000 @ [0]
     @ le_encode 8 0 @ le_encode 8 0 @ le_encode 8 (2 ^ 64 - 1) @ le_encode 8 (2 ^ 64 - 1)"

definition example_state_encoding :: bytes where
  "example_state_encoding =
     le_encode 8 1 @ example_root @ le_encode 8 130 @ example_Fork_encoding
     @ example_BeaconBlockHeader_encoding
     @ concat (replicate 8192 example_root) @ concat (replicate 8192 example_root)
     @ le_encode 4 2787217 @ example_Eth1Data_encoding @ le_encode 4 2787249
     @ le_encode 8 1 @ le_encode 4 2787321 @ le_encode 4 2787442
     @ concat (replicate 65536 example_root) @ concat (replicate 8192 (le_encode 8 0))
     @ le_encode 4 2787450 @ le_encode 4 2787451 @ [0]
     @ example_Checkpoint_encoding @ example_Checkpoint_encoding
     @ example_Checkpoint_encoding
     @ example_SyncCommittee_encoding @ example_SyncCommittee_encoding
     @ example_root @ example_Eth1Data_encoding @ example_validator_encoding
     @ le_encode 8 32000000000 @ [1] @ [3]"

text \<open>
  Two states that differ only in where \<open>2 ^ 32\<close> participation bytes are: all in
  \<open>PreviousEpochParticipation\<close>, or all in \<open>CurrentEpochParticipation\<close>. Both are within
  the limit of \<open>2 ^ 40\<close> bytes. In the encoding the last two offsets are equal.
\<close>

definition long_previous_state :: pb_BeaconState where
  "long_previous_state =
     example_pb_state\<lparr>bs_PreviousEpochParticipation := replicate 4294967296 0,
                        bs_CurrentEpochParticipation := []\<rparr>"

definition long_current_state :: pb_BeaconState where
  "long_current_state =
     example_pb_state\<lparr>bs_PreviousEpochParticipation := [],
                        bs_CurrentEpochParticipation := replicate 4294967296 0\<rparr>"

definition long_participation_encoding :: bytes where
  "long_participation_encoding =
     le_encode 8 1 @ example_root @ le_encode 8 130 @ example_Fork_encoding
     @ example_BeaconBlockHeader_encoding
     @ concat (replicate 8192 example_root) @ concat (replicate 8192 example_root)
     @ le_encode 4 2787217 @ example_Eth1Data_encoding @ le_encode 4 2787249
     @ le_encode 8 1 @ le_encode 4 2787321 @ le_encode 4 2787442
     @ concat (replicate 65536 example_root) @ concat (replicate 8192 (le_encode 8 0))
     @ le_encode 4 2787450 @ le_encode 4 2787450 @ [0]
     @ example_Checkpoint_encoding @ example_Checkpoint_encoding
     @ example_Checkpoint_encoding
     @ example_SyncCommittee_encoding @ example_SyncCommittee_encoding
     @ example_root @ example_Eth1Data_encoding @ example_validator_encoding
     @ le_encode 8 32000000000 @ replicate 4294967296 0"

text \<open>A buffer as long as the fixed part, whose first offset is \<open>2 ^ 32 - 1\<close>.\<close>

definition bad_offset_buffer :: bytes where
  "bad_offset_buffer = replicate 524464 0 @ [255, 255, 255, 255] @ replicate 2262749 0"

section \<open>Merkleization of the list fields of BeaconState\<close>

text \<open>
  Modelled from the spec: the \<open>Hasher\<close> of the fastssz library is not among the sources.
  The hash of two nodes is a parameter \<open>H\<close>. A vector of \<open>n\<close> chunks is padded with zero
  chunks up to the next power of two and hashed in pairs, bottom-up, until one node is
  left; a list of at most \<open>limit\<close> chunks is hashed as a vector of \<open>limit\<close> chunks and the
  result is hashed once more with the element count as a 32-byte little-endian integer.
  \<open>CalculateLimit\<close> is the number of 32-byte chunks that \<open>maxCapacity\<close> elements of \<open>size\<close>
  bytes fill, and \<open>FillUpTo32\<close> pads the buffer with zero bytes up to a whole chunk.
\<close>

type_synonym hash = "bytes \<Rightarrow> bytes \<Rightarrow> bytes"




















subsection \<open>Example hashes and element hashers\<close>


definition toy_hash :: hash where
  "toy_hash a b = map (\<lambda>(x, y). x + 3 * y + 1) (zip a b)"






section \<open>Verified properties\<close>

subsection \<open>Which step an error comes from\<close>

lemma participatedFlags_error:
  "participatedFlags cfg sl d mh mt ms = Inl e \<Longrightarrow> e = PanicSlotOverflow"
  by (auto simp: participatedFlags_def Slot_Add_def Let_def split: if_splits sum.splits)

lemma flag_update_error:
  "flag_update g f br n i acc = Inl e \<Longrightarrow> e = PanicIndexOutOfRange"
  by (auto simp: flag_update_def split: if_splits prod.splits)

lemma attesting_loop_error:
  "attesting_loop br cfg pf xs acc = Inl e \<Longrightarrow> e = ErrBaseReward \<or> e = PanicIndexOutOfRange"
proof (induction xs arbitrary: acc)
  case Nil
  then show ?case by simp
next
  case (Cons i xs)
  then show ?case
    by (auto split: option.splits sum.splits dest: flag_update_error)
qed

lemma set_bits_result:
  "BeaconState_SetCurrentParticipationBits b v = (b1, Some e) \<Longrightarrow> b1 = b \<and> e = ErrNilInnerState"
  "BeaconState_SetPreviousParticipationBits b v = (b1, Some e) \<Longrightarrow> b1 = b \<and> e = ErrNilInnerState"
  by (auto simp: BeaconState_SetCurrentParticipationBits_def
      BeaconState_SetPreviousParticipationBits_def split: option.splits)

lemma set_bits_has_state:
  "BeaconState_SetCurrentParticipationBits b v = (b1, None) \<Longrightarrow> state b1 \<noteq> None"
  "BeaconState_SetPreviousParticipationBits b v = (b1, None) \<Longrightarrow> state b1 \<noteq> None"
  by (auto simp: BeaconState_SetCurrentParticipationBits_def
      BeaconState_SetPreviousParticipationBits_def split: option.splits)

lemma IncreaseBalance_error:
  "IncreaseBalance b i d = (b2, Some e) \<Longrightarrow> state b \<noteq> None \<Longrightarrow> e = ErrIndexDoesNotExist i"
  by (auto simp: IncreaseBalance_def split: option.splits if_splits)

lemma commit_attestation_error:
  assumes "commit_attestation h cfg b cur ep n = (b', Some e)"
  shows "(e = ErrNilInnerState \<and> b' = b) \<or> e = PanicDivideByZero \<or> e = ErrProposerIndex
         \<or> (\<exists>i. e = ErrIndexDoesNotExist i)"
proof (cases "if cur then BeaconState_SetCurrentParticipationBits b ep
              else BeaconState_SetPreviousParticipationBits b ep")
  case (Pair b1 r)
  show ?thesis
  proof (cases r)
    case (Some e1)
    with Pair assms have "e = e1" "b' = b1"
      by (auto simp: commit_attestation_def)
    moreover from Pair Some have "b1 = b \<and> e1 = ErrNilInnerState"
      by (auto dest: set_bits_result split: if_splits)
    ultimately show ?thesis by simp
  next
    case None
    with Pair have hs: "state b1 \<noteq> None"
      by (auto dest: set_bits_has_state split: if_splits)
    from Pair None assms show ?thesis
      using hs
      by (auto simp: commit_attestation_def Let_def split: if_splits option.splits
          dest: IncreaseBalance_error)
  qed
qed

lemma match_roots_error:
  "match_roots h b att c = Inl e \<Longrightarrow>
     e \<in> {ErrFfgTargetEpoch, ErrSourceMismatch, ErrBlockRoot, ErrBlockRootAtSlot}"
  by (simp add: match_roots_def Let_def split: if_splits option.splits)

lemma check_committee_error:
  "check_committee h b att = Inl e \<Longrightarrow>
     e \<in> {ErrActiveValidatorCount, ErrCommitteeIndex, ErrBitfieldLengths, ErrBeaconCommittee,
          ErrConvertToIndexed, ErrInvalidIndices,
          ErrFfgTargetEpoch, ErrSourceMismatch, ErrBlockRoot, ErrBlockRootAtSlot}"
  by (auto simp: check_committee_def Let_def split: if_splits option.splits
      dest!: match_roots_error)

lemma validate_window:
  assumes "ValidateNilAttestation h att"
    and "cp_Epoch (ad_Target (at_Data att)) = PrevEpoch h b
         \<or> cp_Epoch (ad_Target (at_Data att)) = CurrentEpoch h b"
    and "ValidateSlotTargetEpoch h (at_Data att)"
  shows "(\<exists>e. validate_attestation h cfg b att = Inl e
              \<and> (e = ErrMinInclusionDelay \<or> e = ErrEpochInclusion))
         \<longleftrightarrow> (BeaconState_Slot b < ad_Slot (at_Data att) + MinAttestationInclusionDelay cfg
              \<or> ad_Slot (at_Data att) + SlotsPerEpoch cfg < BeaconState_Slot b)"
  using assms
  by (auto simp: validate_attestation_def Let_def dest!: check_committee_error)

lemma main_error_cases:
  assumes "ProcessAttestationNoVerifySignature h cfg b att = (b', Some e)"
  shows "validate_attestation h cfg b att = Inl e
       \<or> ((\<exists>ck. validate_attestation h cfg b att = Inr ck) \<and>
           (e \<in> {PanicSlotOverflow, ErrAttestingIndices, ErrBaseReward, PanicIndexOutOfRange,
                  ErrNilInnerState, PanicDivideByZero, ErrProposerIndex}
            \<or> (\<exists>i. e = ErrIndexDoesNotExist i)))"
  using assms
  by (auto simp: ProcessAttestationNoVerifySignature_def
      split: sum.splits option.splits prod.splits
      dest!: participatedFlags_error attesting_loop_error commit_attestation_error)

lemma main_validate_error:
  "validate_attestation h cfg b att = Inl e \<Longrightarrow>
     ProcessAttestationNoVerifySignature h cfg b att = (b, Some e)"
  by (simp add: ProcessAttestationNoVerifySignature_def)

lemma IntegerSquareRoot_32: "IntegerSquareRoot 32 = 5"
  unfolding IntegerSquareRoot_def by code_simp

lemmas example_defs = example_collaborators_def example_config_def example_state_def
  example_attestation_def example_inner_def example_state_at_def

subsection \<open>The inclusion window\<close>

text \<open>
  Claim C4. Once the nil check and the two epoch checks have passed,
  \<open>ProcessAttestationNoVerifySignature\<close> fails with one of the two inclusion-window errors
  exactly when \<open>attestation.slot + MIN_ATTESTATION_INCLUSION_DELAY > state.slot\<close> or
  \<open>state.slot > attestation.slot + SLOTS_PER_EPOCH\<close>, the sums being those of the source
  (\<open>uint64\<close>). The lower bound rejects with the minimum-delay error, leaving the state as it
  was. Both bounds are inclusive: a state slot equal to the attested slot plus
  \<open>SLOTS_PER_EPOCH\<close> (as numbers) passes the window check, the minimum delay being at most an
  epoch.
\<close>

theorem inclusion_window_check:
  assumes nil: "ValidateNilAttestation h att"
    and ep: "cp_Epoch (ad_Target (at_Data att)) = PrevEpoch h b
         \<or> cp_Epoch (ad_Target (at_Data att)) = CurrentEpoch h b"
    and st: "ValidateSlotTargetEpoch h (at_Data att)"
  shows "(snd (ProcessAttestationNoVerifySignature h cfg b att)
            \<in> {Some ErrMinInclusionDelay, Some ErrEpochInclusion}
          \<longleftrightarrow> (ad_Slot (at_Data att) + MinAttestationInclusionDelay cfg > BeaconState_Slot b
               \<or> BeaconState_Slot b > ad_Slot (at_Data att) + SlotsPerEpoch cfg))
       \<and> (ad_Slot (at_Data att) + MinAttestationInclusionDelay cfg > BeaconState_Slot b
            \<longrightarrow> ProcessAttestationNoVerifySignature h cfg b att = (b, Some ErrMinInclusionDelay))
       \<and> (unat (BeaconState_Slot b) = unat (ad_Slot (at_Data att)) + unat (SlotsPerEpoch cfg)
            \<and> MinAttestationInclusionDelay cfg \<le> SlotsPerEpoch cfg
            \<longrightarrow> snd (ProcessAttestationNoVerifySignature h cfg b att)
                  \<notin> {Some ErrMinInclusionDelay, Some ErrEpochInclusion})"
proof -
  let ?s = "ad_Slot (at_Data att)"
  let ?P = "ProcessAttestationNoVerifySignature h cfg b att"
  let ?W = "BeaconState_Slot b < ?s + MinAttestationInclusionDelay cfg
              \<or> ?s + SlotsPerEpoch cfg < BeaconState_Slot b"
  have a: "snd ?P \<in> {Some ErrMinInclusionDelay, Some ErrEpochInclusion} \<longleftrightarrow> ?W"
  proof
    assume "snd ?P \<in> {Some ErrMinInclusionDelay, Some ErrEpochInclusion}"
    then obtain b' e where P: "?P = (b', Some e)"
      and e: "e = ErrMinInclusionDelay \<or> e = ErrEpochInclusion"
      by (cases ?P) auto
    from main_error_cases [OF P] e have "validate_attestation h cfg b att = Inl e"
      by auto
    with e validate_window [OF nil ep st, of cfg] show ?W by blast
  next
    assume ?W
    with validate_window [OF nil ep st, of cfg] obtain e where
      "validate_attestation h cfg b att = Inl e" "e = ErrMinInclusionDelay \<or> e = ErrEpochInclusion"
      by blast
    then show "snd ?P \<in> {Some ErrMinInclusionDelay, Some ErrEpochInclusion}"
      by (auto dest: main_validate_error)
  qed
  have b: "BeaconState_Slot b < ?s + MinAttestationInclusionDelay cfg
            \<longrightarrow> ?P = (b, Some ErrMinInclusionDelay)"
    using nil ep st
    by (auto simp: validate_attestation_def Let_def intro!: main_validate_error)
  have c: "\<not> ?W" if u: "unat (BeaconState_Slot b) = unat ?s + unat (SlotsPerEpoch cfg)"
    and le: "MinAttestationInclusionDelay cfg \<le> SlotsPerEpoch cfg"
  proof -
    have lt: "unat ?s + unat (SlotsPerEpoch cfg) < 2 ^ 64"
      using unsigned_less [of "BeaconState_Slot b", where 'a = nat] u by simp
    then have 1: "unat (?s + SlotsPerEpoch cfg) = unat ?s + unat (SlotsPerEpoch cfg)"
      by (simp add: unat_add_lem [THEN iffD1])
    have m: "unat (MinAttestationInclusionDelay cfg) \<le> unat (SlotsPerEpoch cfg)"
      using le by (simp add: word_le_nat_alt)
    then have 2: "unat (?s + MinAttestationInclusionDelay cfg)
                    = unat ?s + unat (MinAttestationInclusionDelay cfg)"
      using lt by (simp add: unat_add_lem [THEN iffD1])
    show ?thesis
      using 1 2 u m by (simp add: word_less_nat_alt)
  qed
  from a b c show ?thesis by blast
qed

theorem inclusion_window_check_witness:
  "ValidateNilAttestation example_collaborators (example_attestation [1])
   \<and> (cp_Epoch (ad_Target (at_Data (example_attestation [1])))
         = PrevEpoch example_collaborators (example_state_at 32)
       \<or> cp_Epoch (ad_Target (at_Data (example_attestation [1])))
         = CurrentEpoch example_collaborators (example_state_at 32))
   \<and> ValidateSlotTargetEpoch example_collaborators (at_Data (example_attestation [1]))
   \<and> unat (BeaconState_Slot (example_state_at 32))
        = unat (ad_Slot (at_Data (example_attestation [1]))) + unat (SlotsPerEpoch example_config)
   \<and> MinAttestationInclusionDelay example_config \<le> SlotsPerEpoch example_config
   \<and> snd (ProcessAttestationNoVerifySignature example_collaborators example_config
             (example_state_at 32) (example_attestation [1]))
        \<notin> {Some ErrMinInclusionDelay, Some ErrEpochInclusion}"
  using inclusion_window_check [of example_collaborators "example_attestation [1]"
      "example_state_at 32" example_config]
  by (simp add: example_defs BeaconState_Slot_def)

subsection \<open>Accessors of the state container\<close>

text \<open>
  Claim C10. On a \<open>ReadOnlyValidator\<close> whose validator record is nil, eight of the nine
  accessors return the zero value of their result type. \<open>WithdrawalCredentials\<close> does not:
  it has no nil guard and dereferences the nil pointer, which panics.
\<close>

theorem ReadOnlyValidator_nil_accessors:
  "ReadOnlyValidator_EffectiveBalance \<lparr>validator = None\<rparr> = Inr 0
   \<and> ReadOnlyValidator_ActivationEligibilityEpoch \<lparr>validator = None\<rparr> = Inr 0
   \<and> ReadOnlyValidator_ActivationEpoch \<lparr>validator = None\<rparr> = Inr 0
   \<and> ReadOnlyValidator_ExitEpoch \<lparr>validator = None\<rparr> = Inr 0
   \<and> ReadOnlyValidator_WithdrawableEpoch \<lparr>validator = None\<rparr> = Inr 0
   \<and> ReadOnlyValidator_PublicKey \<lparr>validator = None\<rparr> = Inr (replicate 48 0)
   \<and> ReadOnlyValidator_Slashed \<lparr>validator = None\<rparr> = Inr False
   \<and> ReadOnlyValidator_CopyValidator \<lparr>validator = None\<rparr> = Inr None
   \<and> ReadOnlyValidator_WithdrawalCredentials \<lparr>validator = None\<rparr> = Inl PanicNilDereference"
  by (simp add: ReadOnlyValidator_EffectiveBalance_def
      ReadOnlyValidator_ActivationEligibilityEpoch_def ReadOnlyValidator_ActivationEpoch_def
      ReadOnlyValidator_ExitEpoch_def ReadOnlyValidator_WithdrawableEpoch_def
      ReadOnlyValidator_PublicKey_def ReadOnlyValidator_Slashed_def
      ReadOnlyValidator_CopyValidator_def ReadOnlyValidator_WithdrawalCredentials_def
      ReadOnlyValidator_IsNil_def zero48_def)

text \<open>
  Claim C9, as stated, fails: with an index at or beyond the validator count,
  \<open>PubkeyAtIndex\<close> returns the zero key (it has no error result), and on a state whose
  \<open>Validators\<close> and \<open>Balances\<close> slices are nil \<open>ValidatorAtIndex\<close> returns an empty validator,
  \<open>ValidatorAtIndexReadOnly\<close> a nil view and \<open>BalanceAtIndex\<close> zero, all without an error.
\<close>

theorem indexed_accessors_out_of_range_counterexample:
  "unat (0 :: u64) \<ge> BeaconState_NumValidators \<lparr>state = Some (example_inner\<lparr>st_Validators := Some []\<rparr>)\<rparr>
   \<and> BeaconState_PubkeyAtIndex \<lparr>state = Some (example_inner\<lparr>st_Validators := Some []\<rparr>)\<rparr> 0
       = replicate 48 0
   \<and> unat (0 :: u64) \<ge> BeaconState_NumValidators
         \<lparr>state = Some (example_inner\<lparr>st_Validators := None, st_Balances := None\<rparr>)\<rparr>
   \<and> BeaconState_ValidatorAtIndex
         \<lparr>state = Some (example_inner\<lparr>st_Validators := None, st_Balances := None\<rparr>)\<rparr> 0
       = Inr (Some empty_Validator)
   \<and> BeaconState_ValidatorAtIndexReadOnly
         \<lparr>state = Some (example_inner\<lparr>st_Validators := None, st_Balances := None\<rparr>)\<rparr> 0
       = Inr \<lparr>validator = None\<rparr>
   \<and> BeaconState_BalanceAtIndex
         \<lparr>state = Some (example_inner\<lparr>st_Validators := None, st_Balances := None\<rparr>)\<rparr> 0
       = Inr 0"
  by (simp add: BeaconState_NumValidators_def BeaconState_PubkeyAtIndex_def
      BeaconState_ValidatorAtIndex_def BeaconState_ValidatorAtIndexReadOnly_def
      BeaconState_BalanceAtIndex_def example_inner_def zero48_def)

text \<open>
  Claim C9, amended. On an initialised state and for an index at or beyond the validator
  count: \<open>ValidatorAtIndex\<close> and \<open>ValidatorAtIndexReadOnly\<close> fail with the index-out-of-range
  error when the \<open>Validators\<close> slice is not nil; \<open>PubkeyAtIndex\<close> returns the zero 48-byte
  key; \<open>BalanceAtIndex\<close> fails with its index error when the \<open>Balances\<close> slice is not nil and
  the index is at or beyond its length.
\<close>

theorem indexed_accessors_out_of_range:
  assumes "state b = Some s" and "unat idx \<ge> BeaconState_NumValidators b"
  shows "(st_Validators s \<noteq> None \<longrightarrow>
            BeaconState_ValidatorAtIndex b idx = Inl (ErrIndexOutOfRange idx)
          \<and> BeaconState_ValidatorAtIndexReadOnly b idx = Inl (ErrIndexOutOfRange idx))
       \<and> BeaconState_PubkeyAtIndex b idx = replicate 48 0
       \<and> (\<forall>bals. st_Balances s = Some bals \<and> length bals \<le> unat idx \<longrightarrow>
            BeaconState_BalanceAtIndex b idx = Inl (ErrIndexDoesNotExist idx))"
  using assms
  by (auto simp: BeaconState_NumValidators_def BeaconState_PubkeyAtIndex_def
      BeaconState_ValidatorAtIndex_def BeaconState_ValidatorAtIndexReadOnly_def
      BeaconState_BalanceAtIndex_def zero48_def split: option.splits)

theorem indexed_accessors_out_of_range_witness:
  "state example_state = Some example_inner
   \<and> unat (2 :: u64) \<ge> BeaconState_NumValidators example_state
   \<and> st_Validators example_inner \<noteq> None
   \<and> st_Balances example_inner = Some [32000000000, 32000000000]
   \<and> length [32000000000 :: u64, 32000000000] \<le> unat (2 :: u64)
   \<and> BeaconState_ValidatorAtIndex example_state 2 = Inl (ErrIndexOutOfRange 2)
   \<and> BeaconState_ValidatorAtIndexReadOnly example_state 2 = Inl (ErrIndexOutOfRange 2)
   \<and> BeaconState_PubkeyAtIndex example_state 2 = replicate 48 0
   \<and> BeaconState_BalanceAtIndex example_state 2 = Inl (ErrIndexDoesNotExist 2)"
  using indexed_accessors_out_of_range [of example_state example_inner 2]
  by (simp add: example_state_def example_inner_def BeaconState_NumValidators_def)

lemma isqrt_below_sq: "isqrt_below n k * isqrt_below n k \<le> n"
  by (induction k) auto

lemma isqrt_below_le: "isqrt_below n k \<le> k"
  by (induction k) (auto simp: le_Suc_eq)

lemma isqrt_below_greatest: "r \<le> k \<Longrightarrow> r * r \<le> n \<Longrightarrow> r \<le> isqrt_below n k"
proof (induction k)
  case 0
  then show ?case by simp
next
  case (Suc k)
  then show ?case by (cases "r = Suc k") auto
qed

lemma isqrt_below_floor:
  "isqrt_below n n * isqrt_below n n \<le> n \<and> n < (isqrt_below n n + 1) * (isqrt_below n n + 1)"
proof -
  let ?r = "isqrt_below n n"
  have "n < (?r + 1) * (?r + 1)"
  proof (rule ccontr)
    assume "\<not> n < (?r + 1) * (?r + 1)"
    then have sq: "(?r + 1) * (?r + 1) \<le> n" by simp
    have "?r + 1 \<le> (?r + 1) * (?r + 1)" by simp
    with sq have "?r + 1 \<le> n" by linarith
    from isqrt_below_greatest [OF this sq] show False by simp
  qed
  with isqrt_below_sq show ?thesis by blast
qed

lemma unat_IntegerSquareRoot: "unat (IntegerSquareRoot n) = isqrt_below (unat n) (unat n)"
proof -
  have "isqrt_below (unat n) (unat n) \<le> unat n" by (rule isqrt_below_le)
  also have "unat n < 2 ^ 64" using unsigned_less [of n, where 'a = nat] by simp
  finally show ?thesis
    by (simp add: IntegerSquareRoot_def unat_of_nat take_bit_nat_eq_self)
qed

lemma IntegerSquareRoot_floor:
  "unat (IntegerSquareRoot n) * unat (IntegerSquareRoot n) \<le> unat n
   \<and> unat n < (unat (IntegerSquareRoot n) + 1) * (unat (IntegerSquareRoot n) + 1)"
  unfolding unat_IntegerSquareRoot by (rule isqrt_below_floor)

lemma match_roots_Inr:
  assumes "match_roots h b att c = Inr ck"
  shows "ck_matchingSource ck
       \<and> ck_matchingTarget ck = (BlockRoot h b (cp_Epoch (ad_Target (at_Data att)))
                                  = Some (cp_Root (ad_Target (at_Data att))))
       \<and> ck_matchingHead ck = (BlockRootAtSlot h b (ad_Slot (at_Data att))
                                  = Some (ad_BeaconBlockRoot (at_Data att)))
       \<and> ck_committee ck = c
       \<and> ck_isCurrent ck = (cp_Epoch (ad_Target (at_Data att)) = CurrentEpoch h b)
       \<and> ck_epochParticipation ck =
           (if cp_Epoch (ad_Target (at_Data att)) = CurrentEpoch h b
            then BeaconState_CurrentEpochParticipation b
            else BeaconState_PreviousEpochParticipation b)"
  using assms
  by (auto simp: match_roots_def Let_def split: if_splits option.splits)

lemma check_committee_Inr:
  assumes "check_committee h b att = Inr ck"
  shows "\<exists>c. BeaconCommitteeFromState h b (ad_Slot (at_Data att)) (ad_CommitteeIndex (at_Data att)) = Some c
            \<and> match_roots h b att c = Inr ck"
  using assms
  by (auto simp: check_committee_def Let_def split: if_splits option.splits)

lemma validate_attestation_Inr:
  assumes "validate_attestation h cfg b att = Inr ck"
  shows "check_committee h b att = Inr ck"
  using assms
  by (auto simp: validate_attestation_def Let_def split: if_splits)

lemma participatedFlags_Inr:
  assumes d: "distinct [TimelyHeadFlag cfg, TimelySourceFlag cfg, TimelyTargetFlag cfg]"
    and noov: "unat (ad_Slot d) + unat (IntegerSquareRoot (SlotsPerEpoch cfg)) < 2 ^ 64"
  shows "\<exists>pf. participatedFlags cfg sl d mh mt ms = Inr pf
     \<and> (pf (TimelyHeadFlag cfg) \<longleftrightarrow> mh \<and> mt \<and> sl \<le> ad_Slot d + MinAttestationInclusionDelay cfg)
     \<and> (pf (TimelySourceFlag cfg) \<longleftrightarrow> ms \<and> sl \<le> ad_Slot d + IntegerSquareRoot (SlotsPerEpoch cfg))
     \<and> (pf (TimelyTargetFlag cfg) \<longleftrightarrow> mt \<and> sl \<le> ad_Slot d + SlotsPerEpoch cfg)
     \<and> (\<forall>f. pf f \<longrightarrow> f = TimelyHeadFlag cfg \<or> f = TimelySourceFlag cfg \<or> f = TimelyTargetFlag cfg)"
  using assms
  by (auto simp: participatedFlags_def Slot_Add_def Let_def)

lemma Has_Add_same: "HasValidatorFlag (AddValidatorFlag x p) p"
  by (simp add: HasValidatorFlag_def AddValidatorFlag_def)

lemma Has_Add_mono: "HasValidatorFlag x p \<Longrightarrow> HasValidatorFlag (AddValidatorFlag x q) p"
proof -
  assume "HasValidatorFlag x p"
  then have h: "x AND p = p" by (simp add: HasValidatorFlag_def)
  have "(x OR q) AND p = (x AND p) OR (q AND p)"
    by (rule bit.conj_disj_distrib2)
  also have "\<dots> = p OR (q AND p)" by (simp only: h)
  also have "\<dots> = p" by simp
  finally show ?thesis by (simp add: HasValidatorFlag_def AddValidatorFlag_def)
qed

lemma Has_Add_other:
  assumes "q AND p = 0"
  shows "HasValidatorFlag (AddValidatorFlag x q) p = HasValidatorFlag x p"
proof -
  have "(x OR q) AND p = (x AND p) OR (q AND p)"
    by (rule bit.conj_disj_distrib2)
  then have "(x OR q) AND p = x AND p" by (simp only: assms) simp
  then show ?thesis by (simp add: HasValidatorFlag_def AddValidatorFlag_def)
qed

lemma Has_grant_mono: "HasValidatorFlag x p \<Longrightarrow> HasValidatorFlag (grant pf q x) p"
  by (simp add: grant_def Has_Add_mono)

lemma Has_grant_same: "pf p \<Longrightarrow> HasValidatorFlag (grant pf p x) p"
  by (simp add: grant_def Has_Add_same)

lemma Has_grant_other:
  "q AND p = 0 \<Longrightarrow> HasValidatorFlag (grant pf q x) p = HasValidatorFlag x p"
  by (simp add: grant_def Has_Add_other)

lemma Has_add_granted_mono: "HasValidatorFlag x p \<Longrightarrow> HasValidatorFlag (add_granted cfg pf x) p"
  by (simp add: add_granted_def Has_grant_mono)

lemma Has_add_granted:
  "pf f \<Longrightarrow> f = TimelyHeadFlag cfg \<or> f = TimelySourceFlag cfg \<or> f = TimelyTargetFlag cfg
   \<Longrightarrow> HasValidatorFlag (add_granted cfg pf x) f"
  by (auto simp: add_granted_def intro: Has_grant_mono Has_grant_same)

lemma grant_id: "HasValidatorFlag x p \<Longrightarrow> grant pf p x = x"
proof -
  assume "HasValidatorFlag x p"
  then have h: "x AND p = p" by (simp add: HasValidatorFlag_def)
  have "x OR (x AND p) = x" by simp
  with h have "x OR p = x" by simp
  then show ?thesis by (simp add: grant_def AddValidatorFlag_def)
qed

text \<open>one guarded update, in terms of grant and flag_contribution\<close>
lemma flag_update_Inr:
  assumes "flag_update (pf f) f br num i (ep, n) = Inr (ep', n')"
  shows "(pf f \<longrightarrow> unat i < length ep)
       \<and> ep' = (if pf f then ep[unat i := grant pf f (ep ! unat i)] else ep)
       \<and> n' = n + flag_contribution pf f br num (ep ! unat i)"
proof (cases "pf f")
  case False
  with assms show ?thesis by (simp add: flag_update_def flag_contribution_def)
next
  case True
  with assms have r: "unat i < length ep"
    by (simp add: flag_update_def split: if_splits)
  show ?thesis
  proof (cases "HasValidatorFlag (ep ! unat i) f")
    case h: True
    with True r assms have "ep' = ep" "n' = n"
      by (simp_all add: flag_update_def)
    with True r h show ?thesis
      by (simp add: flag_contribution_def grant_id)
  next
    case h: False
    with True r assms show ?thesis
      by (auto simp: flag_update_def flag_contribution_def grant_def)
  qed
qed


lemma flag_contribution_grant_other:
  "q AND p = 0 \<Longrightarrow> flag_contribution pf p br num (grant pf q x) = flag_contribution pf p br num x"
  by (simp add: flag_contribution_def Has_grant_other)

lemma flag_contribution_add_granted:
  "f = TimelyHeadFlag cfg \<or> f = TimelySourceFlag cfg \<or> f = TimelyTargetFlag cfg
   \<Longrightarrow> flag_contribution pf f br num (add_granted cfg pf x) = 0"
  using Has_add_granted [of pf f cfg x] by (auto simp: flag_contribution_def)

lemma add_granted_idem: "add_granted cfg pf (add_granted cfg pf x) = add_granted cfg pf x"
proof -
  have "\<And>f y. f = TimelyHeadFlag cfg \<or> f = TimelySourceFlag cfg \<or> f = TimelyTargetFlag cfg
          \<Longrightarrow> grant pf f (add_granted cfg pf y) = add_granted cfg pf y"
  proof -
    fix f y
    assume f: "f = TimelyHeadFlag cfg \<or> f = TimelySourceFlag cfg \<or> f = TimelyTargetFlag cfg"
    show "grant pf f (add_granted cfg pf y) = add_granted cfg pf y"
    proof (cases "pf f")
      case True
      from Has_add_granted [of pf f cfg y, OF True f] show ?thesis by (rule grant_id)
    next
      case False
      then show ?thesis by (simp add: grant_def)
    qed
  qed
  then show ?thesis
    by (simp add: add_granted_def [of cfg pf "add_granted cfg pf x"])
qed

lemma add_granted_none:
  "\<not> pf (TimelyHeadFlag cfg) \<Longrightarrow> \<not> pf (TimelySourceFlag cfg) \<Longrightarrow> \<not> pf (TimelyTargetFlag cfg)
   \<Longrightarrow> add_granted cfg pf x = x"
  by (simp add: add_granted_def grant_def)

lemma index_contribution_none:
  "\<not> pf (TimelyHeadFlag cfg) \<Longrightarrow> \<not> pf (TimelySourceFlag cfg) \<Longrightarrow> \<not> pf (TimelyTargetFlag cfg)
   \<Longrightarrow> index_contribution cfg pf br ep i = 0"
  by (simp add: index_contribution_def flag_contribution_def)

lemma loop_body_Inr:
  assumes 1: "flag_update (pf (TimelyHeadFlag cfg)) (TimelyHeadFlag cfg) v
                (TimelyHeadNumerator cfg) i (ep, n) = Inr acc1"
    and 2: "flag_update (pf (TimelySourceFlag cfg)) (TimelySourceFlag cfg) v
                (TimelySourceNumerator cfg) i acc1 = Inr acc2"
    and 3: "flag_update (pf (TimelyTargetFlag cfg)) (TimelyTargetFlag cfg) v
                (TimelyTargetNumerator cfg) i acc2 = Inr (ep3, n3)"
    and dj: "flags_disjoint cfg"
    and br: "br i = v"
  shows "(any_granted cfg pf \<longrightarrow> unat i < length ep)
       \<and> ep3 = (if any_granted cfg pf then ep[unat i := add_granted cfg pf (ep ! unat i)] else ep)
       \<and> n3 = n + index_contribution cfg pf br ep i"
proof -
  obtain ep1 n1 where a1: "acc1 = (ep1, n1)" by (cases acc1)
  obtain ep2 n2 where a2: "acc2 = (ep2, n2)" by (cases acc2)
  let ?x = "ep ! unat i"
  let ?h = "TimelyHeadFlag cfg" and ?s = "TimelySourceFlag cfg" and ?t = "TimelyTargetFlag cfg"
  from dj have hs: "?h AND ?s = 0" and ht: "?h AND ?t = 0" and st: "?s AND ?t = 0"
    by (simp_all add: flags_disjoint_def)
  note f1 = flag_update_Inr [of pf ?h, OF 1 [unfolded a1]]
  note f2 = flag_update_Inr [of pf ?s, OF 2 [unfolded a1 a2]]
  note f3 = flag_update_Inr [of pf ?t, OF 3 [unfolded a2]]
  have e1: "ep1 ! unat i = grant pf ?h ?x"
    using f1 by (auto simp: grant_def)
  have l1: "length ep1 = length ep" using f1 by auto
  have e2: "ep2 ! unat i = grant pf ?s (grant pf ?h ?x)"
    using f2 e1 by (auto simp: grant_def)
  have l2: "length ep2 = length ep" using f2 l1 by auto
  have rng: "any_granted cfg pf \<longrightarrow> unat i < length ep"
    using f1 f2 f3 l1 l2 by (auto simp: any_granted_def)
  have n: "n3 = n + index_contribution cfg pf br ep i"
    using f1 f2 f3 e1 e2 br
    by (simp add: index_contribution_def flag_contribution_grant_other hs ht st)
  have ep: "ep3 = (if any_granted cfg pf then ep[unat i := add_granted cfg pf ?x] else ep)"
  proof (cases "any_granted cfg pf")
    case False
    then show ?thesis using f1 f2 f3 by (simp add: any_granted_def)
  next
    case True
    with rng have r: "unat i < length ep" by simp
    have "ep1 = ep[unat i := grant pf ?h ?x]"
      using f1 r by (auto simp: grant_def)
    moreover have "ep2 = ep1[unat i := grant pf ?s (ep1 ! unat i)]"
      using f2 r l1 by (auto simp: grant_def)
    moreover have "ep3 = ep2[unat i := grant pf ?t (ep2 ! unat i)]"
      using f3 r l2 by (auto simp: grant_def)
    ultimately show ?thesis
      using True r by (simp add: add_granted_def)
  qed
  from rng ep n show ?thesis by simp
qed

lemma attesting_loop_Cons_Inr:
  assumes "attesting_loop bro cfg pf (i # xs) (ep, n) = Inr r"
  obtains v acc1 acc2 ep3 n3 where "bro i = Some v"
    "flag_update (pf (TimelyHeadFlag cfg)) (TimelyHeadFlag cfg) v
                (TimelyHeadNumerator cfg) i (ep, n) = Inr acc1"
    "flag_update (pf (TimelySourceFlag cfg)) (TimelySourceFlag cfg) v
                (TimelySourceNumerator cfg) i acc1 = Inr acc2"
    "flag_update (pf (TimelyTargetFlag cfg)) (TimelyTargetFlag cfg) v
                (TimelyTargetNumerator cfg) i acc2 = Inr (ep3, n3)"
    "attesting_loop bro cfg pf xs (ep3, n3) = Inr r"
  using assms
  by (auto split: option.splits sum.splits)

lemma attesting_loop_Inr:
  assumes "attesting_loop bro cfg pf xs (ep, n) = Inr (ep', n')"
    and dj: "flags_disjoint cfg"
    and br: "\<forall>i\<in>set xs. bro i = Some (br i)"
  shows "length ep' = length ep
       \<and> (any_granted cfg pf \<longrightarrow> (\<forall>i\<in>set xs. unat i < length ep))
       \<and> (\<forall>k<length ep. ep' ! k = (if k \<in> unat ` set xs then add_granted cfg pf (ep ! k)
                                      else ep ! k))
       \<and> n' = n + (\<Sum>i\<in>set xs. index_contribution cfg pf br ep i)"
  using assms(1) br
proof (induction xs arbitrary: ep n)
  case Nil
  then show ?case by simp
next
  case (Cons i xs)
  from Cons.prems(1) obtain v acc1 acc2 ep3 n3 where v: "bro i = Some v"
    and u1: "flag_update (pf (TimelyHeadFlag cfg)) (TimelyHeadFlag cfg) v
                (TimelyHeadNumerator cfg) i (ep, n) = Inr acc1"
    and u2: "flag_update (pf (TimelySourceFlag cfg)) (TimelySourceFlag cfg) v
                (TimelySourceNumerator cfg) i acc1 = Inr acc2"
    and u3: "flag_update (pf (TimelyTargetFlag cfg)) (TimelyTargetFlag cfg) v
                (TimelyTargetNumerator cfg) i acc2 = Inr (ep3, n3)"
    and rest: "attesting_loop bro cfg pf xs (ep3, n3) = Inr (ep', n')"
    by (rule attesting_loop_Cons_Inr)
  from Cons.prems(2) v have bri: "br i = v" by simp
  from loop_body_Inr [of pf cfg v i ep n acc1 acc2 ep3 n3 br, OF u1 u2 u3 dj bri]
  have rng: "any_granted cfg pf \<longrightarrow> unat i < length ep"
    and ep3: "ep3 = (if any_granted cfg pf
                     then ep[unat i := add_granted cfg pf (ep ! unat i)] else ep)"
    and n3: "n3 = n + index_contribution cfg pf br ep i"
    by simp_all
  from Cons.prems(2) have br': "\<forall>i\<in>set xs. bro i = Some (br i)" by simp
  from Cons.IH [OF rest br']
  have len: "length ep' = length ep3"
    and rng': "any_granted cfg pf \<longrightarrow> (\<forall>i\<in>set xs. unat i < length ep3)"
    and pt: "\<forall>k<length ep3. ep' ! k = (if k \<in> unat ` set xs then add_granted cfg pf (ep3 ! k)
                                         else ep3 ! k)"
    and n': "n' = n3 + (\<Sum>j\<in>set xs. index_contribution cfg pf br ep3 j)"
    by simp_all
  have l3: "length ep3 = length ep" using ep3 by simp
  have none: "add_granted cfg pf x = x" "index_contribution cfg pf br e j = 0"
    if "\<not> any_granted cfg pf" for x e j
    using that by (simp_all add: any_granted_def add_granted_none index_contribution_none)
  have A: "length ep' = length ep" using len l3 by simp
  have B: "any_granted cfg pf \<longrightarrow> (\<forall>j\<in>set (i # xs). unat j < length ep)"
    using rng rng' l3 by simp
  have C: "\<forall>k<length ep. ep' ! k = (if k \<in> unat ` set (i # xs)
                                       then add_granted cfg pf (ep ! k) else ep ! k)"
  proof (intro allI impI)
    fix k assume k: "k < length ep"
    show "ep' ! k = (if k \<in> unat ` set (i # xs) then add_granted cfg pf (ep ! k) else ep ! k)"
    proof (cases "any_granted cfg pf")
      case False
      with pt k l3 ep3 show ?thesis by (simp add: none)
    next
      case True
      with ep3 have e: "ep3 = ep[unat i := add_granted cfg pf (ep ! unat i)]" by simp
      show ?thesis
      proof (cases "k = unat i")
        case True
        with e k have "ep3 ! k = add_granted cfg pf (ep ! k)" by simp
        with pt k l3 True show ?thesis by (simp add: add_granted_idem)
      next
        case False
        with e k have "ep3 ! k = ep ! k" by simp
        with pt k l3 False show ?thesis by auto
      qed
    qed
  qed
  have D: "n' = n + (\<Sum>j\<in>set (i # xs). index_contribution cfg pf br ep j)"
  proof (cases "any_granted cfg pf")
    case False
    with n' n3 show ?thesis by (simp add: none)
  next
    case True
    with ep3 have e: "ep3 = ep[unat i := add_granted cfg pf (ep ! unat i)]" by simp
    from True rng have ri: "unat i < length ep" by simp
    have zero: "index_contribution cfg pf br ep3 i = 0"
      using e ri by (simp add: index_contribution_def flag_contribution_add_granted)
    have same: "index_contribution cfg pf br ep3 j = index_contribution cfg pf br ep j"
      if "j \<noteq> i" for j
    proof -
      from that have "unat j \<noteq> unat i" by (simp add: word_unat_eq_iff)
      with e show ?thesis by (simp add: index_contribution_def)
    qed
    have "(\<Sum>j\<in>set xs. index_contribution cfg pf br ep3 j)
          = (\<Sum>j\<in>set xs - {i}. index_contribution cfg pf br ep3 j)"
      by (rule sum.mono_neutral_right) (auto simp: zero)
    also have "\<dots> = (\<Sum>j\<in>set xs - {i}. index_contribution cfg pf br ep j)"
      by (rule sum.cong) (auto simp: same)
    finally have "(\<Sum>j\<in>set (i # xs). index_contribution cfg pf br ep j)
          = index_contribution cfg pf br ep i
            + (\<Sum>j\<in>set xs. index_contribution cfg pf br ep3 j)"
      by (simp add: sum.insert_remove)
    with n' n3 show ?thesis by (simp add: add.assoc)
  qed
  from A B C D show ?case by blast
qed

lemma main_success:
  assumes "ProcessAttestationNoVerifySignature h cfg b att = (b', None)"
  obtains ck pf indices ep' num where
    "validate_attestation h cfg b att = Inr ck"
    "participatedFlags cfg (BeaconState_Slot b) (at_Data att) (ck_matchingHead ck)
       (ck_matchingTarget ck) (ck_matchingSource ck) = Inr pf"
    "AttestingIndices h (at_AggregationBits att) (ck_committee ck) = Some indices"
    "attesting_loop (BaseReward h b) cfg pf indices (ck_epochParticipation ck, 0) = Inr (ep', num)"
    "commit_attestation h cfg b (ck_isCurrent ck) ep' num = (b', None)"
  using assms
  by (auto simp: ProcessAttestationNoVerifySignature_def
      split: sum.splits option.splits prod.splits)

lemma commit_success:
  assumes "commit_attestation h cfg b cur ep num = (b', None)"
  obtains s b1 p bals where
    "state b = Some s"
    "b1 = b\<lparr>state := Some (if cur then s\<lparr>st_CurrentEpochParticipation := ep\<rparr>
                              else s\<lparr>st_PreviousEpochParticipation := ep\<rparr>)\<rparr>"
    "(if cur then BeaconState_SetCurrentParticipationBits b ep
      else BeaconState_SetPreviousParticipationBits b ep) = (b1, None)"
    "RewardDenominator cfg * ProposerRewardQuotient cfg \<noteq> 0"
    "BeaconProposerIndex h b1 = Some p"
    "st_Balances s = Some bals" "unat p < length bals"
    "b' = b1\<lparr>state := Some ((if cur then s\<lparr>st_CurrentEpochParticipation := ep\<rparr>
                               else s\<lparr>st_PreviousEpochParticipation := ep\<rparr>)
               \<lparr>st_Balances := Some (bals[unat p := bals ! unat p
                   + num div (RewardDenominator cfg * ProposerRewardQuotient cfg)])\<rparr>)\<rparr>"
proof (cases "state b")
  case None
  with assms show ?thesis
    by (simp add: commit_attestation_def BeaconState_SetCurrentParticipationBits_def
        BeaconState_SetPreviousParticipationBits_def split: if_splits)
next
  case (Some s)
  let ?s1 = "if cur then s\<lparr>st_CurrentEpochParticipation := ep\<rparr>
             else s\<lparr>st_PreviousEpochParticipation := ep\<rparr>"
  let ?b1 = "b\<lparr>state := Some ?s1\<rparr>"
  have set: "(if cur then BeaconState_SetCurrentParticipationBits b ep
      else BeaconState_SetPreviousParticipationBits b ep) = (?b1, None)"
    using Some by (simp add: BeaconState_SetCurrentParticipationBits_def
        BeaconState_SetPreviousParticipationBits_def)
  from assms set have d: "RewardDenominator cfg * ProposerRewardQuotient cfg \<noteq> 0"
    by (auto simp: commit_attestation_def split: if_splits)
  from assms set d obtain p where p: "BeaconProposerIndex h ?b1 = Some p"
    and inc: "IncreaseBalance ?b1 p (num div (RewardDenominator cfg * ProposerRewardQuotient cfg))
               = (b', None)"
    by (auto simp: commit_attestation_def Let_def split: if_splits option.splits)
  from inc obtain bals where bals: "st_Balances ?s1 = Some bals" and r: "unat p < length bals"
    and b': "b' = ?b1\<lparr>state := Some (?s1\<lparr>st_Balances := Some (bals[unat p := bals ! unat p
                   + num div (RewardDenominator cfg * ProposerRewardQuotient cfg)])\<rparr>)\<rparr>"
    by (auto simp: IncreaseBalance_def split: option.splits if_splits)
  from bals have "st_Balances s = Some bals" by (simp split: if_splits)
  with Some set d p r b' show ?thesis
    by (intro that [of s ?b1 p bals]) simp_all
qed

lemma sum_set_remdups:
  "(\<Sum>i\<in>set xs. f i) = sum_list (map f (remdups xs))"
  by (simp add: sum.set_conv_list)

lemma attesting_loop_br:
  assumes "attesting_loop bro cfg pf xs acc = Inr r"
  shows "\<forall>i\<in>set xs. bro i = Some (the (bro i))"
  using assms
proof (induction xs arbitrary: acc)
  case Nil
  then show ?case by simp
next
  case (Cons i xs)
  obtain ep n where acc: "acc = (ep, n)" by (cases acc)
  from Cons.prems [unfolded acc] obtain v acc1 acc2 ep3 n3 where "bro i = Some v"
    "attesting_loop bro cfg pf xs (ep3, n3) = Inr r"
    by (rule attesting_loop_Cons_Inr)
  with Cons.IH show ?case by auto
qed

text \<open>
  Claim C5. When \<open>ProcessAttestationNoVerifySignature\<close> succeeds, the balances of the state
  afterwards are the balances before with one entry changed: the entry of the block proposer
  (looked up on the state with the participation array written back) is increased by the
  proposer-reward numerator divided by \<open>REWARD_DENOMINATOR * PROPOSER_REWARD_QUOTIENT\<close>
  (integer division, \<open>uint64\<close> arithmetic). The numerator that the loop computes is
  \<open>spec_numerator\<close>: the sum, over the attesting indices and the granted flags not yet set
  for the index, of the base reward of the index times the numerator constant of the flag.
  The three flag constants are disjoint bit masks.
\<close>
theorem proposer_reward_credit:
  assumes ok: "ProcessAttestationNoVerifySignature h cfg b att = (b', None)"
    and dj: "flags_disjoint cfg"
  shows "\<exists>ck pf indices br ep' b1 p bals.
      validate_attestation h cfg b att = Inr ck
    \<and> participatedFlags cfg (BeaconState_Slot b) (at_Data att) (ck_matchingHead ck)
         (ck_matchingTarget ck) (ck_matchingSource ck) = Inr pf
    \<and> AttestingIndices h (at_AggregationBits att) (ck_committee ck) = Some indices
    \<and> (\<forall>i\<in>set indices. BaseReward h b i = Some (br i))
    \<and> attesting_loop (BaseReward h b) cfg pf indices (ck_epochParticipation ck, 0)
        = Inr (ep', spec_numerator cfg pf br (ck_epochParticipation ck) indices)
    \<and> (if ck_isCurrent ck then BeaconState_SetCurrentParticipationBits b ep'
        else BeaconState_SetPreviousParticipationBits b ep') = (b1, None)
    \<and> BeaconProposerIndex h b1 = Some p
    \<and> BeaconState_Balances b = Some bals \<and> unat p < length bals
    \<and> BeaconState_Balances b' = Some (bals[unat p := bals ! unat p
          + spec_numerator cfg pf br (ck_epochParticipation ck) indices
              div (RewardDenominator cfg * ProposerRewardQuotient cfg)])"
proof -
  from ok obtain ck pf indices ep' num where
    v: "validate_attestation h cfg b att = Inr ck"
    and f: "participatedFlags cfg (BeaconState_Slot b) (at_Data att) (ck_matchingHead ck)
       (ck_matchingTarget ck) (ck_matchingSource ck) = Inr pf"
    and ai: "AttestingIndices h (at_AggregationBits att) (ck_committee ck) = Some indices"
    and lp: "attesting_loop (BaseReward h b) cfg pf indices (ck_epochParticipation ck, 0)
              = Inr (ep', num)"
    and cm: "commit_attestation h cfg b (ck_isCurrent ck) ep' num = (b', None)"
    by (rule main_success)
  define br where "br = (\<lambda>i. the (BaseReward h b i))"
  from attesting_loop_br [OF lp] have brs: "\<forall>i\<in>set indices. BaseReward h b i = Some (br i)"
    by (simp add: br_def)
  from attesting_loop_Inr [OF lp dj brs]
  have num: "num = spec_numerator cfg pf br (ck_epochParticipation ck) indices"
    by (simp add: spec_numerator_def sum_set_remdups)
  from cm obtain s b1 p bals where s: "state b = Some s"
    and set: "(if ck_isCurrent ck then BeaconState_SetCurrentParticipationBits b ep'
      else BeaconState_SetPreviousParticipationBits b ep') = (b1, None)"
    and p: "BeaconProposerIndex h b1 = Some p"
    and bals: "st_Balances s = Some bals" and r: "unat p < length bals"
    and b': "b' = b1\<lparr>state := Some ((if ck_isCurrent ck then s\<lparr>st_CurrentEpochParticipation := ep'\<rparr>
                               else s\<lparr>st_PreviousEpochParticipation := ep'\<rparr>)
               \<lparr>st_Balances := Some (bals[unat p := bals ! unat p
                   + num div (RewardDenominator cfg * ProposerRewardQuotient cfg)])\<rparr>)\<rparr>"
    by (rule commit_success)
  have B: "BeaconState_Balances b = Some bals"
    using s bals by (simp add: BeaconState_Balances_def)
  have B': "BeaconState_Balances b' = Some (bals[unat p := bals ! unat p
          + num div (RewardDenominator cfg * ProposerRewardQuotient cfg)])"
    unfolding b' by (simp add: BeaconState_Balances_def)
  from v f ai brs lp set p B r B' show ?thesis
    unfolding num by blast
qed

lemmas run_defs = ProcessAttestation_def ProcessAttestationNoVerifySignature_def
  validate_attestation_def check_committee_def match_roots_def
  BeaconState_Slot_def Let_def BeaconState_CurrentJustifiedCheckpoint_def
  BeaconState_PreviousJustifiedCheckpoint_def
  BeaconState_CurrentEpochParticipation_def BeaconState_PreviousEpochParticipation_def
  participatedFlags_def Slot_Add_def IntegerSquareRoot_32 flag_update_def
  HasValidatorFlag_def AddValidatorFlag_def
  commit_attestation_def BeaconState_SetCurrentParticipationBits_def
  BeaconState_SetPreviousParticipationBits_def IncreaseBalance_def BeaconState_NumValidators_def
  VerifyAttestationSignature_def VerifyIndexedAttestation_def BeaconState_Fork_def
  BeaconState_GenesisValidatorRoot_def BeaconState_PubkeyAtIndex_def

lemma example_run:
  "ProcessAttestationNoVerifySignature example_collaborators example_config example_state
     (example_attestation sig)
   = (\<lparr>state = Some (example_inner\<lparr>st_CurrentEpochParticipation := [7, 7],
                       st_Balances := Some [32000000218, 32000000000]\<rparr>)\<rparr>, None)"
  by (simp add: run_defs example_defs)

lemma flags_disjoint_example: "flags_disjoint example_config"
  by (simp add: flags_disjoint_def example_config_def)

theorem proposer_reward_credit_witness:
  "ProcessAttestationNoVerifySignature example_collaborators example_config example_state
     (example_attestation [1])
   = (\<lparr>state = Some (example_inner\<lparr>st_CurrentEpochParticipation := [7, 7],
                       st_Balances := Some [32000000218, 32000000000]\<rparr>)\<rparr>, None)
   \<and> flags_disjoint example_config
   \<and> (\<exists>ck pf indices br ep' b1 p bals.
      validate_attestation example_collaborators example_config example_state
        (example_attestation [1]) = Inr ck
    \<and> participatedFlags example_config (BeaconState_Slot example_state)
         (at_Data (example_attestation [1])) (ck_matchingHead ck)
         (ck_matchingTarget ck) (ck_matchingSource ck) = Inr pf
    \<and> AttestingIndices example_collaborators (at_AggregationBits (example_attestation [1]))
         (ck_committee ck) = Some indices
    \<and> (\<forall>i\<in>set indices. BaseReward example_collaborators example_state i = Some (br i))
    \<and> attesting_loop (BaseReward example_collaborators example_state) example_config pf indices
         (ck_epochParticipation ck, 0)
        = Inr (ep', spec_numerator example_config pf br (ck_epochParticipation ck) indices)
    \<and> (if ck_isCurrent ck then BeaconState_SetCurrentParticipationBits example_state ep'
        else BeaconState_SetPreviousParticipationBits example_state ep') = (b1, None)
    \<and> BeaconProposerIndex example_collaborators b1 = Some p
    \<and> BeaconState_Balances example_state = Some bals \<and> unat p < length bals
    \<and> BeaconState_Balances \<lparr>state = Some (example_inner\<lparr>st_CurrentEpochParticipation := [7, 7],
                       st_Balances := Some [32000000218, 32000000000]\<rparr>)\<rparr>
        = Some (bals[unat p := bals ! unat p
          + spec_numerator example_config pf br (ck_epochParticipation ck) indices
              div (RewardDenominator example_config * ProposerRewardQuotient example_config)]))"
proof -
  have run: "ProcessAttestationNoVerifySignature example_collaborators example_config example_state
     (example_attestation [1])
   = (\<lparr>state = Some (example_inner\<lparr>st_CurrentEpochParticipation := [7, 7],
                       st_Balances := Some [32000000218, 32000000000]\<rparr>)\<rparr>, None)"
    by (rule example_run)
  have dj: "flags_disjoint example_config" by (rule flags_disjoint_example)
  from proposer_reward_credit [OF run dj] run dj show ?thesis by blast
qed




text \<open>
  Claim C2. When the checks of \<open>ProcessAttestationNoVerifySignature\<close> have passed, the map
  \<open>participatedFlags\<close> holds exactly: the head flag iff matching head and matching target and
  \<open>state.slot \<le> attestation.slot + MIN_ATTESTATION_INCLUSION_DELAY\<close>; the source flag iff
  matching source (which the checks have established) and
  \<open>state.slot \<le> attestation.slot + floor(sqrt(SLOTS_PER_EPOCH))\<close>; the target flag iff matching
  target and \<open>state.slot \<le> attestation.slot + SLOTS_PER_EPOCH\<close>; and no other flag. Matching
  head compares the attestation's beacon-block root with the block root at the attested slot,
  matching target the target root with the block root of the target epoch.
  \<open>IntegerSquareRoot\<close> is the floor of the square root. The three flag constants are distinct,
  and the attested slot plus the square root fits 64 bits (\<open>Slot.Add\<close> panics otherwise).
\<close>
theorem timeliness_flags:
  assumes v: "validate_attestation h cfg b att = Inr ck"
    and d: "distinct [TimelyHeadFlag cfg, TimelySourceFlag cfg, TimelyTargetFlag cfg]"
    and noov: "unat (ad_Slot (at_Data att)) + unat (IntegerSquareRoot (SlotsPerEpoch cfg)) < 2 ^ 64"
  shows "\<exists>pf. participatedFlags cfg (BeaconState_Slot b) (at_Data att) (ck_matchingHead ck)
                (ck_matchingTarget ck) (ck_matchingSource ck) = Inr pf
     \<and> (pf (TimelyHeadFlag cfg) \<longleftrightarrow>
           ck_matchingHead ck \<and> ck_matchingTarget ck
           \<and> BeaconState_Slot b \<le> ad_Slot (at_Data att) + MinAttestationInclusionDelay cfg)
     \<and> (pf (TimelySourceFlag cfg) \<longleftrightarrow>
           ck_matchingSource ck
           \<and> BeaconState_Slot b \<le> ad_Slot (at_Data att) + IntegerSquareRoot (SlotsPerEpoch cfg))
     \<and> (pf (TimelyTargetFlag cfg) \<longleftrightarrow>
           ck_matchingTarget ck
           \<and> BeaconState_Slot b \<le> ad_Slot (at_Data att) + SlotsPerEpoch cfg)
     \<and> (\<forall>f. pf f \<longrightarrow> f = TimelyHeadFlag cfg \<or> f = TimelySourceFlag cfg \<or> f = TimelyTargetFlag cfg)
     \<and> ck_matchingHead ck = (BlockRootAtSlot h b (ad_Slot (at_Data att))
                               = Some (ad_BeaconBlockRoot (at_Data att)))
     \<and> ck_matchingTarget ck = (BlockRoot h b (cp_Epoch (ad_Target (at_Data att)))
                                 = Some (cp_Root (ad_Target (at_Data att))))
     \<and> ck_matchingSource ck
     \<and> unat (IntegerSquareRoot (SlotsPerEpoch cfg)) * unat (IntegerSquareRoot (SlotsPerEpoch cfg))
         \<le> unat (SlotsPerEpoch cfg)
     \<and> unat (SlotsPerEpoch cfg) < (unat (IntegerSquareRoot (SlotsPerEpoch cfg)) + 1)
                                  * (unat (IntegerSquareRoot (SlotsPerEpoch cfg)) + 1)"
proof -
  from validate_attestation_Inr [OF v] check_committee_Inr obtain c where
    "match_roots h b att c = Inr ck" by blast
  from match_roots_Inr [OF this]
  have m: "ck_matchingSource ck"
    "ck_matchingTarget ck = (BlockRoot h b (cp_Epoch (ad_Target (at_Data att)))
                                  = Some (cp_Root (ad_Target (at_Data att))))"
    "ck_matchingHead ck = (BlockRootAtSlot h b (ad_Slot (at_Data att))
                                  = Some (ad_BeaconBlockRoot (at_Data att)))"
    by simp_all
  from participatedFlags_Inr [OF d noov, of "BeaconState_Slot b" "ck_matchingHead ck"
      "ck_matchingTarget ck" "ck_matchingSource ck"]
    m IntegerSquareRoot_floor [of "SlotsPerEpoch cfg"]
  show ?thesis by blast
qed

theorem timeliness_flags_witness:
  "validate_attestation example_collaborators example_config example_state (example_attestation [1])
     = Inr example_checked
   \<and> distinct [TimelyHeadFlag example_config, TimelySourceFlag example_config,
               TimelyTargetFlag example_config]
   \<and> unat (ad_Slot (at_Data (example_attestation [1])))
       + unat (IntegerSquareRoot (SlotsPerEpoch example_config)) < 2 ^ 64
   \<and> (\<exists>pf. participatedFlags example_config (BeaconState_Slot example_state)
              (at_Data (example_attestation [1])) (ck_matchingHead example_checked)
              (ck_matchingTarget example_checked) (ck_matchingSource example_checked) = Inr pf
          \<and> (pf (TimelyHeadFlag example_config) \<longleftrightarrow>
               ck_matchingHead example_checked \<and> ck_matchingTarget example_checked
               \<and> BeaconState_Slot example_state
                   \<le> ad_Slot (at_Data (example_attestation [1]))
                      + MinAttestationInclusionDelay example_config)
          \<and> (pf (TimelySourceFlag example_config) \<longleftrightarrow>
               ck_matchingSource example_checked
               \<and> BeaconState_Slot example_state
                   \<le> ad_Slot (at_Data (example_attestation [1]))
                      + IntegerSquareRoot (SlotsPerEpoch example_config))
          \<and> (pf (TimelyTargetFlag example_config) \<longleftrightarrow>
               ck_matchingTarget example_checked
               \<and> BeaconState_Slot example_state
                   \<le> ad_Slot (at_Data (example_attestation [1])) + SlotsPerEpoch example_config))
   \<and> BeaconState_Slot example_state
        \<le> ad_Slot (at_Data (example_attestation [1])) + MinAttestationInclusionDelay example_config
   \<and> ck_matchingHead example_checked \<and> ck_matchingTarget example_checked"
proof -
  have v: "validate_attestation example_collaborators example_config example_state
     (example_attestation [1]) = Inr example_checked"
    by (simp add: run_defs example_defs example_checked_def)
  have d: "distinct [TimelyHeadFlag example_config, TimelySourceFlag example_config,
               TimelyTargetFlag example_config]"
    by (simp add: example_config_def)
  have n: "unat (ad_Slot (at_Data (example_attestation [1])))
       + unat (IntegerSquareRoot (SlotsPerEpoch example_config)) < 2 ^ 64"
    by (simp add: example_config_def example_attestation_def IntegerSquareRoot_32)
  have s: "BeaconState_Slot example_state
        \<le> ad_Slot (at_Data (example_attestation [1])) + MinAttestationInclusionDelay example_config"
    by (simp add: BeaconState_Slot_def example_defs)
  have m: "ck_matchingHead example_checked" "ck_matchingTarget example_checked"
    by (simp_all add: example_checked_def)
  from timeliness_flags [OF v d n] obtain pf where
    "participatedFlags example_config (BeaconState_Slot example_state)
              (at_Data (example_attestation [1])) (ck_matchingHead example_checked)
              (ck_matchingTarget example_checked) (ck_matchingSource example_checked) = Inr pf
          \<and> (pf (TimelyHeadFlag example_config) \<longleftrightarrow>
               ck_matchingHead example_checked \<and> ck_matchingTarget example_checked
               \<and> BeaconState_Slot example_state
                   \<le> ad_Slot (at_Data (example_attestation [1]))
                      + MinAttestationInclusionDelay example_config)
          \<and> (pf (TimelySourceFlag example_config) \<longleftrightarrow>
               ck_matchingSource example_checked
               \<and> BeaconState_Slot example_state
                   \<le> ad_Slot (at_Data (example_attestation [1]))
                      + IntegerSquareRoot (SlotsPerEpoch example_config))
          \<and> (pf (TimelyTargetFlag example_config) \<longleftrightarrow>
               ck_matchingTarget example_checked
               \<and> BeaconState_Slot example_state
                   \<le> ad_Slot (at_Data (example_attestation [1])) + SlotsPerEpoch example_config)"
    by blast
  with v d n s m show ?thesis by blast
qed

lemma flag_update_fixed:
  "(g \<longrightarrow> unat i < length e \<and> HasValidatorFlag (e ! unat i) f)
   \<Longrightarrow> flag_update g f v num i (e, m) = Inr (e, m)"
  by (auto simp: flag_update_def)

lemma attesting_loop_fixed:
  assumes "\<forall>i\<in>set xs. bro i \<noteq> None
             \<and> (\<forall>f. pf f \<and> (f = TimelyHeadFlag cfg \<or> f = TimelySourceFlag cfg
                              \<or> f = TimelyTargetFlag cfg)
                    \<longrightarrow> unat i < length e \<and> HasValidatorFlag (e ! unat i) f)"
  shows "attesting_loop bro cfg pf xs (e, m) = Inr (e, m)"
  using assms
proof (induction xs)
  case Nil
  then show ?case by simp
next
  case (Cons i xs)
  then obtain v where v: "bro i = Some v" by auto
  from Cons.prems have
    "pf (TimelyHeadFlag cfg) \<longrightarrow> unat i < length e \<and> HasValidatorFlag (e ! unat i) (TimelyHeadFlag cfg)"
    "pf (TimelySourceFlag cfg) \<longrightarrow> unat i < length e \<and> HasValidatorFlag (e ! unat i) (TimelySourceFlag cfg)"
    "pf (TimelyTargetFlag cfg) \<longrightarrow> unat i < length e \<and> HasValidatorFlag (e ! unat i) (TimelyTargetFlag cfg)"
    by auto
  then have u: "\<And>v num. flag_update (pf (TimelyHeadFlag cfg)) (TimelyHeadFlag cfg) v num i (e, m) = Inr (e, m)"
    "\<And>v num. flag_update (pf (TimelySourceFlag cfg)) (TimelySourceFlag cfg) v num i (e, m) = Inr (e, m)"
    "\<And>v num. flag_update (pf (TimelyTargetFlag cfg)) (TimelyTargetFlag cfg) v num i (e, m) = Inr (e, m)"
    by (simp_all add: flag_update_fixed)
  from Cons have "attesting_loop bro cfg pf xs (e, m) = Inr (e, m)" by simp
  with v u show ?case by simp
qed

lemma same_but_rewards_getters:
  assumes "same_but_rewards b b'"
  shows "BeaconState_Slot b' = BeaconState_Slot b"
    "BeaconState_CurrentJustifiedCheckpoint b' = BeaconState_CurrentJustifiedCheckpoint b"
    "BeaconState_PreviousJustifiedCheckpoint b' = BeaconState_PreviousJustifiedCheckpoint b"
proof -
  have "st_Slot s = st_Slot (other_fields s)"
    "st_CurrentJustifiedCheckpoint s = st_CurrentJustifiedCheckpoint (other_fields s)"
    "st_PreviousJustifiedCheckpoint s = st_PreviousJustifiedCheckpoint (other_fields s)" for s
    by (simp_all add: other_fields_def)
  with assms show "BeaconState_Slot b' = BeaconState_Slot b"
    "BeaconState_CurrentJustifiedCheckpoint b' = BeaconState_CurrentJustifiedCheckpoint b"
    "BeaconState_PreviousJustifiedCheckpoint b' = BeaconState_PreviousJustifiedCheckpoint b"
    unfolding same_but_rewards_def BeaconState_Slot_def
      BeaconState_CurrentJustifiedCheckpoint_def BeaconState_PreviousJustifiedCheckpoint_def
    by (cases "state b"; cases "state b'"; simp; metis)+
qed

lemma match_roots_blind:
  assumes bl: "reward_blind h" and sim: "same_but_rewards b b'"
  shows "match_roots h b' att c = map_sum id (reselect b') (match_roots h b att c)"
proof -
  from bl sim have eq: "CurrentEpoch h b' = CurrentEpoch h b" "PrevEpoch h b' = PrevEpoch h b"
    "BlockRoot h b' = BlockRoot h b" "BlockRootAtSlot h b' = BlockRootAtSlot h b"
    unfolding reward_blind_def by metis+
  show ?thesis
    unfolding match_roots_def Let_def eq same_but_rewards_getters [OF sim]
    by (simp add: reselect_def split: option.splits)
qed

lemma check_committee_blind:
  assumes bl: "reward_blind h" and sim: "same_but_rewards b b'"
  shows "check_committee h b' att = map_sum id (reselect b') (check_committee h b att)"
proof -
  from bl sim have eq: "ActiveValidatorCount h b' = ActiveValidatorCount h b"
    "VerifyAttestationBitfieldLengths h b' = VerifyAttestationBitfieldLengths h b"
    "BeaconCommitteeFromState h b' = BeaconCommitteeFromState h b"
    unfolding reward_blind_def by metis+
  show ?thesis
    unfolding check_committee_def Let_def eq match_roots_blind [OF bl sim]
    by (simp split: option.splits)
qed

lemma validate_attestation_blind:
  assumes bl: "reward_blind h" and sim: "same_but_rewards b b'"
  shows "validate_attestation h cfg b' att
         = map_sum id (reselect b') (validate_attestation h cfg b att)"
proof -
  from bl sim have eq: "CurrentEpoch h b' = CurrentEpoch h b" "PrevEpoch h b' = PrevEpoch h b"
    unfolding reward_blind_def by metis+
  show ?thesis
    unfolding validate_attestation_def Let_def eq check_committee_blind [OF bl sim]
      same_but_rewards_getters [OF sim]
    by simp
qed

lemma BeaconState_state_id: "state b = Some s \<Longrightarrow> b\<lparr>state := Some s\<rparr> = b"
  by (cases b) simp

lemma commit_attestation_noop:
  assumes s: "state b = Some s"
    and ep: "(if cur then st_CurrentEpochParticipation s else st_PreviousEpochParticipation s) = ep"
    and d: "RewardDenominator cfg * ProposerRewardQuotient cfg \<noteq> 0"
    and p: "BeaconProposerIndex h b = Some p"
    and bals: "st_Balances s = Some bals" and r: "unat p < length bals"
  shows "commit_attestation h cfg b cur ep 0 = (b, None)"
proof -
  have s1: "(if cur then s\<lparr>st_CurrentEpochParticipation := ep\<rparr>
             else s\<lparr>st_PreviousEpochParticipation := ep\<rparr>) = s"
    using ep by (cases s) auto
  have set: "(if cur then BeaconState_SetCurrentParticipationBits b ep
      else BeaconState_SetPreviousParticipationBits b ep) = (b, None)"
    using s s1 by (auto simp: BeaconState_SetCurrentParticipationBits_def
        BeaconState_SetPreviousParticipationBits_def BeaconState_state_id split: if_splits)
  have "s\<lparr>st_Balances := Some (bals[unat p := bals ! unat p])\<rparr> = s"
    using bals by (cases s) simp
  then have inc: "IncreaseBalance b p 0 = (b, None)"
    using s bals r by (simp add: IncreaseBalance_def BeaconState_state_id)
  show ?thesis
    unfolding commit_attestation_def set using d p inc by simp
qed

lemma second_application:
  assumes v: "validate_attestation h cfg b att = Inr ck"
    and f: "participatedFlags cfg (BeaconState_Slot b) (at_Data att) (ck_matchingHead ck)
       (ck_matchingTarget ck) (ck_matchingSource ck) = Inr pf"
    and ai: "AttestingIndices h (at_AggregationBits att) (ck_committee ck) = Some indices"
    and lp: "attesting_loop (BaseReward h b) cfg pf indices (ck_epochParticipation ck, 0)
              = Inr (ep', num)"
    and cm: "commit_attestation h cfg b (ck_isCurrent ck) ep' num = (b', None)"
    and dj: "flags_disjoint cfg"
    and bl: "reward_blind h"
  shows "ProcessAttestationNoVerifySignature h cfg b' att = (b', None)"
proof -
  let ?cur = "ck_isCurrent ck"
  let ?ep = "ck_epochParticipation ck"
  from cm obtain s b1 p bals where s: "state b = Some s"
    and b1: "b1 = b\<lparr>state := Some (if ?cur then s\<lparr>st_CurrentEpochParticipation := ep'\<rparr>
                              else s\<lparr>st_PreviousEpochParticipation := ep'\<rparr>)\<rparr>"
    and d: "RewardDenominator cfg * ProposerRewardQuotient cfg \<noteq> 0"
    and p: "BeaconProposerIndex h b1 = Some p"
    and bals: "st_Balances s = Some bals" and r: "unat p < length bals"
    and b': "b' = b1\<lparr>state := Some ((if ?cur then s\<lparr>st_CurrentEpochParticipation := ep'\<rparr>
                               else s\<lparr>st_PreviousEpochParticipation := ep'\<rparr>)
               \<lparr>st_Balances := Some (bals[unat p := bals ! unat p
                   + num div (RewardDenominator cfg * ProposerRewardQuotient cfg)])\<rparr>)\<rparr>"
    by (rule commit_success)
  let ?s' = "(if ?cur then s\<lparr>st_CurrentEpochParticipation := ep'\<rparr>
                               else s\<lparr>st_PreviousEpochParticipation := ep'\<rparr>)
               \<lparr>st_Balances := Some (bals[unat p := bals ! unat p
                   + num div (RewardDenominator cfg * ProposerRewardQuotient cfg)])\<rparr>"
  have st': "state b' = Some ?s'" unfolding b' by simp
  have sim: "same_but_rewards b b'"
    using s st' by (simp add: same_but_rewards_def other_fields_def)
  have sim1: "same_but_rewards b1 b'"
    using st' b1 by (simp add: same_but_rewards_def other_fields_def)
  from bl sim have br: "BaseReward h b' = BaseReward h b"
    unfolding reward_blind_def by metis
  from bl sim1 p have p': "BeaconProposerIndex h b' = Some p"
    unfolding reward_blind_def by metis
  have sel: "(if ?cur then BeaconState_CurrentEpochParticipation b'
              else BeaconState_PreviousEpochParticipation b') = ep'"
    using st' by (simp add: BeaconState_CurrentEpochParticipation_def
        BeaconState_PreviousEpochParticipation_def)
  have v': "validate_attestation h cfg b' att = Inr (ck\<lparr>ck_epochParticipation := ep'\<rparr>)"
    unfolding validate_attestation_blind [OF bl sim] v using sel
    by (simp add: reselect_def)
  have f': "participatedFlags cfg (BeaconState_Slot b') (at_Data att) (ck_matchingHead ck)
       (ck_matchingTarget ck) (ck_matchingSource ck) = Inr pf"
    using f same_but_rewards_getters(1) [OF sim] by simp
  define bro where "bro = (\<lambda>i. the (BaseReward h b i))"
  from attesting_loop_br [OF lp] have brs: "\<forall>i\<in>set indices. BaseReward h b i = Some (bro i)"
    by (simp add: bro_def)
  from attesting_loop_Inr [OF lp dj brs]
  have len: "length ep' = length ?ep"
    and rng: "any_granted cfg pf \<longrightarrow> (\<forall>i\<in>set indices. unat i < length ?ep)"
    and pt: "\<forall>k<length ?ep. ep' ! k = (if k \<in> unat ` set indices
               then add_granted cfg pf (?ep ! k) else ?ep ! k)"
    by simp_all
  have fixed: "\<forall>i\<in>set indices. BaseReward h b i \<noteq> None
             \<and> (\<forall>f. pf f \<and> (f = TimelyHeadFlag cfg \<or> f = TimelySourceFlag cfg
                              \<or> f = TimelyTargetFlag cfg)
                    \<longrightarrow> unat i < length ep' \<and> HasValidatorFlag (ep' ! unat i) f)"
  proof (intro ballI conjI allI impI)
    fix i assume i: "i \<in> set indices"
    with brs show "BaseReward h b i \<noteq> None" by simp
    fix f assume g: "pf f \<and> (f = TimelyHeadFlag cfg \<or> f = TimelySourceFlag cfg
                              \<or> f = TimelyTargetFlag cfg)"
    then have "any_granted cfg pf" by (auto simp: any_granted_def)
    with rng i have ri: "unat i < length ?ep" by simp
    then show "unat i < length ep'" using len by simp
    from pt ri i have "ep' ! unat i = add_granted cfg pf (?ep ! unat i)" by auto
    with g Has_add_granted [of pf f cfg "?ep ! unat i"]
    show "HasValidatorFlag (ep' ! unat i) f" by simp
  qed
  have lp': "attesting_loop (BaseReward h b') cfg pf indices (ep', 0) = Inr (ep', 0)"
    unfolding br by (rule attesting_loop_fixed [OF fixed])
  have cm': "commit_attestation h cfg b' ?cur ep' 0 = (b', None)"
    by (rule commit_attestation_noop [OF st' _ d p', where bals = "bals[unat p := bals ! unat p
                   + num div (RewardDenominator cfg * ProposerRewardQuotient cfg)]"])
       (simp_all add: r)
  show ?thesis
    unfolding ProcessAttestationNoVerifySignature_def v'
    using f' ai lp' cm' by simp
qed

text \<open>
  Claim C3. When \<open>ProcessAttestationNoVerifySignature\<close> succeeds: every flag bit that was
  set in the selected participation array is set afterwards, the array keeps its length,
  the numerator the loop accrues is \<open>spec_numerator\<close>, in which a flag already set for an
  index contributes nothing, and processing the same attestation again on the resulting state
  succeeds and leaves that state as it is (no new bit, no further credit), for collaborators
  whose answers do not depend on balances and participation. The three flag constants are
  disjoint bit masks.
\<close>
theorem monotonic_participation:
  assumes ok: "ProcessAttestationNoVerifySignature h cfg b att = (b', None)"
    and dj: "flags_disjoint cfg"
  shows "\<exists>ck pf indices br ep'.
      validate_attestation h cfg b att = Inr ck
    \<and> participatedFlags cfg (BeaconState_Slot b) (at_Data att) (ck_matchingHead ck)
         (ck_matchingTarget ck) (ck_matchingSource ck) = Inr pf
    \<and> AttestingIndices h (at_AggregationBits att) (ck_committee ck) = Some indices
    \<and> (\<forall>i\<in>set indices. BaseReward h b i = Some (br i))
    \<and> (if ck_isCurrent ck then BeaconState_CurrentEpochParticipation b
        else BeaconState_PreviousEpochParticipation b) = ck_epochParticipation ck
    \<and> (if ck_isCurrent ck then BeaconState_CurrentEpochParticipation b'
        else BeaconState_PreviousEpochParticipation b') = ep'
    \<and> attesting_loop (BaseReward h b) cfg pf indices (ck_epochParticipation ck, 0)
        = Inr (ep', spec_numerator cfg pf br (ck_epochParticipation ck) indices)
    \<and> length ep' = length (ck_epochParticipation ck)
    \<and> (\<forall>k<length ep'. \<forall>f. HasValidatorFlag (ck_epochParticipation ck ! k) f
                             \<longrightarrow> HasValidatorFlag (ep' ! k) f)
    \<and> (\<forall>i\<in>set indices. \<forall>f v num. HasValidatorFlag (ck_epochParticipation ck ! unat i) f
          \<longrightarrow> flag_contribution pf f v num (ck_epochParticipation ck ! unat i) = 0)
    \<and> (reward_blind h \<longrightarrow> ProcessAttestationNoVerifySignature h cfg b' att = (b', None))"
proof -
  from ok obtain ck pf indices ep' num where
    v: "validate_attestation h cfg b att = Inr ck"
    and f: "participatedFlags cfg (BeaconState_Slot b) (at_Data att) (ck_matchingHead ck)
       (ck_matchingTarget ck) (ck_matchingSource ck) = Inr pf"
    and ai: "AttestingIndices h (at_AggregationBits att) (ck_committee ck) = Some indices"
    and lp: "attesting_loop (BaseReward h b) cfg pf indices (ck_epochParticipation ck, 0)
              = Inr (ep', num)"
    and cm: "commit_attestation h cfg b (ck_isCurrent ck) ep' num = (b', None)"
    by (rule main_success)
  let ?ep = "ck_epochParticipation ck"
  define br where "br = (\<lambda>i. the (BaseReward h b i))"
  from attesting_loop_br [OF lp] have brs: "\<forall>i\<in>set indices. BaseReward h b i = Some (br i)"
    by (simp add: br_def)
  from attesting_loop_Inr [OF lp dj brs]
  have len: "length ep' = length ?ep"
    and pt: "\<forall>k<length ?ep. ep' ! k = (if k \<in> unat ` set indices
               then add_granted cfg pf (?ep ! k) else ?ep ! k)"
    and num: "num = spec_numerator cfg pf br ?ep indices"
    by (simp_all add: spec_numerator_def sum_set_remdups)
  from validate_attestation_Inr [OF v] check_committee_Inr obtain c where
    "match_roots h b att c = Inr ck" by blast
  from match_roots_Inr [OF this]
  have sel: "(if ck_isCurrent ck then BeaconState_CurrentEpochParticipation b
        else BeaconState_PreviousEpochParticipation b) = ?ep"
    by auto
  from cm obtain s b1 p bals where s: "state b = Some s"
    and b1: "b1 = b\<lparr>state := Some (if ck_isCurrent ck then s\<lparr>st_CurrentEpochParticipation := ep'\<rparr>
                              else s\<lparr>st_PreviousEpochParticipation := ep'\<rparr>)\<rparr>"
    and d: "RewardDenominator cfg * ProposerRewardQuotient cfg \<noteq> 0"
    and p: "BeaconProposerIndex h b1 = Some p"
    and bals: "st_Balances s = Some bals" and r: "unat p < length bals"
    and b': "b' = b1\<lparr>state := Some ((if ck_isCurrent ck then s\<lparr>st_CurrentEpochParticipation := ep'\<rparr>
                               else s\<lparr>st_PreviousEpochParticipation := ep'\<rparr>)
               \<lparr>st_Balances := Some (bals[unat p := bals ! unat p
                   + num div (RewardDenominator cfg * ProposerRewardQuotient cfg)])\<rparr>)\<rparr>"
    by (rule commit_success)
  have sel': "(if ck_isCurrent ck then BeaconState_CurrentEpochParticipation b'
        else BeaconState_PreviousEpochParticipation b') = ep'"
    unfolding b' by (simp add: BeaconState_CurrentEpochParticipation_def
        BeaconState_PreviousEpochParticipation_def)
  have mono: "\<forall>k<length ep'. \<forall>f. HasValidatorFlag (?ep ! k) f \<longrightarrow> HasValidatorFlag (ep' ! k) f"
    using pt len by (auto simp: Has_add_granted_mono)
  have zero: "\<forall>i\<in>set indices. \<forall>f v num. HasValidatorFlag (?ep ! unat i) f
          \<longrightarrow> flag_contribution pf f v num (?ep ! unat i) = 0"
    by (simp add: flag_contribution_def)
  have again: "reward_blind h \<longrightarrow> ProcessAttestationNoVerifySignature h cfg b' att = (b', None)"
    using second_application [OF v f ai lp cm dj] by blast
  from v f ai brs sel sel' lp len mono zero again show ?thesis
    unfolding num by blast
qed

lemma same_but_rewards_NumValidators:
  assumes "same_but_rewards b b'"
  shows "BeaconState_NumValidators b' = BeaconState_NumValidators b"
proof -
  have "st_Validators s = st_Validators (other_fields s)" for s
    by (simp add: other_fields_def)
  with assms show ?thesis
    unfolding same_but_rewards_def BeaconState_NumValidators_def
    by (cases "state b"; cases "state b'"; simp; metis)
qed

lemma reward_blind_example: "reward_blind example_collaborators"
  unfolding reward_blind_def
proof (intro allI impI)
  fix b b' assume sim: "same_but_rewards b b'"
  note g = same_but_rewards_getters(1) [OF sim] same_but_rewards_NumValidators [OF sim]
  show "CurrentEpoch example_collaborators b = CurrentEpoch example_collaborators b' \<and>
       PrevEpoch example_collaborators b = PrevEpoch example_collaborators b' \<and>
       ActiveValidatorCount example_collaborators b = ActiveValidatorCount example_collaborators b' \<and>
       VerifyAttestationBitfieldLengths example_collaborators b =
       VerifyAttestationBitfieldLengths example_collaborators b' \<and>
       BeaconCommitteeFromState example_collaborators b =
       BeaconCommitteeFromState example_collaborators b' \<and>
       BlockRoot example_collaborators b = BlockRoot example_collaborators b' \<and>
       BlockRootAtSlot example_collaborators b = BlockRootAtSlot example_collaborators b' \<and>
       BaseReward example_collaborators b = BaseReward example_collaborators b' \<and>
       BeaconProposerIndex example_collaborators b = BeaconProposerIndex example_collaborators b'"
    by (simp add: example_collaborators_def g)
qed

lemma example_run_partial:
  "ProcessAttestationNoVerifySignature example_collaborators example_config example_state_partial
     (example_attestation [1]) = (example_state_after, None)"
  by (simp add: run_defs example_defs example_state_partial_def example_state_after_def)

theorem monotonic_participation_witness:
  "ProcessAttestationNoVerifySignature example_collaborators example_config example_state_partial
     (example_attestation [1]) = (example_state_after, None)
   \<and> flags_disjoint example_config
   \<and> reward_blind example_collaborators
   \<and> HasValidatorFlag (BeaconState_CurrentEpochParticipation example_state_partial ! 0)
        (TimelyHeadFlag example_config)
   \<and> BeaconState_CurrentEpochParticipation example_state_partial = [1, 0]
   \<and> BeaconState_CurrentEpochParticipation example_state_after = [7, 7]
   \<and> ProcessAttestationNoVerifySignature example_collaborators example_config example_state_after
       (example_attestation [1]) = (example_state_after, None)"
proof -
  have run: "ProcessAttestationNoVerifySignature example_collaborators example_config
     example_state_partial (example_attestation [1]) = (example_state_after, None)"
    by (rule example_run_partial)
  have dj: "flags_disjoint example_config" by (rule flags_disjoint_example)
  have bl: "reward_blind example_collaborators" by (rule reward_blind_example)
  have c: "HasValidatorFlag (BeaconState_CurrentEpochParticipation example_state_partial ! 0)
        (TimelyHeadFlag example_config)"
    "BeaconState_CurrentEpochParticipation example_state_partial = [1, 0]"
    "BeaconState_CurrentEpochParticipation example_state_after = [7, 7]"
    by (simp_all add: BeaconState_CurrentEpochParticipation_def example_state_partial_def
        example_state_after_def example_config_def HasValidatorFlag_def)
  from monotonic_participation [OF run dj] bl
  have "ProcessAttestationNoVerifySignature example_collaborators example_config
          example_state_after (example_attestation [1]) = (example_state_after, None)"
    by blast
  with run dj bl c show ?thesis by simp
qed

section \<open>Codec: verified properties\<close>

subsection \<open>Primitives and the fixed-size records\<close>

lemma length_le_encode [simp]: "length (le_encode n v) = n"
  by (induction n arbitrary: v) auto

lemma le_decode_encode: "le_decode (le_encode n v) = v mod 256 ^ n"
proof (induction n arbitrary: v)
  case 0
  then show ?case by simp
next
  case (Suc n)
  have "unat (word_of_nat (v mod 256) :: u8) = v mod 256"
    by (simp add: unat_of_nat)
  then have "le_decode (le_encode (Suc n) v) = v mod 256 + 256 * ((v div 256) mod 256 ^ n)"
    using Suc by simp
  also have "\<dots> = v mod (256 * 256 ^ n)"
    by (simp add: mod_mult2_eq)
  finally show ?case by simp
qed

lemma UnmarshallUint64_encode [simp]: "UnmarshallUint64 (le_encode 8 (unat v)) = v"
proof -
  have "unat v < 256 ^ 8" using unsigned_less [of v, where 'a = nat] by simp
  then show ?thesis
    by (simp add: UnmarshallUint64_def le_decode_encode)
qed

lemma ReadOffset_encode [simp]: "ReadOffset (le_encode 4 (i mod 2 ^ 32)) = i mod 2 ^ 32"
proof -
  have "(256::nat) ^ 4 = 2 ^ 32" by simp
  then show ?thesis
    unfolding ReadOffset_def le_decode_encode by (metis mod_mod_trivial)
qed

lemma marshal_vectors_Inr:
  "marshal_vectors k xs dst = Inr r \<Longrightarrow> (\<forall>x\<in>set xs. length x = k) \<and> r = dst @ concat xs"
proof (induction xs arbitrary: dst)
  case Nil
  then show ?case by simp
next
  case (Cons x xs)
  from Cons.prems have k: "length x = k" and r: "marshal_vectors k xs (dst @ x) = Inr r"
    by (simp_all split: if_splits)
  from Cons.IH [OF r] k show ?case by simp
qed

lemma length_concat_uniform:
  "\<forall>x\<in>set xs. length x = k \<Longrightarrow> length (concat xs) = length xs * k"
  by (induction xs) auto

lemma chunks_concat:
  "\<forall>x\<in>set xs. length x = k \<Longrightarrow> chunks k (length xs) (concat xs @ rest) = xs"
  by (induction xs) auto

lemma chunks_concat':
  "\<forall>x\<in>set xs. length x = k \<Longrightarrow> n = length xs \<Longrightarrow> chunks k n (concat xs) = xs"
  using chunks_concat [of xs k "[]"] by simp

lemma slice_0 [simp]: "slice 0 b buf = take b buf"
  by (simp add: slice_def)

lemma Fork_roundtrip:
  assumes "Fork_MarshalSSZ f = Inr bs"
  shows "Fork_UnmarshalSSZ new_Fork bs = Inr f \<and> Fork_SizeSSZ f = length bs"
  using assms
  by (cases f)
     (auto simp: Fork_MarshalSSZ_def Fork_MarshalSSZTo_def Fork_UnmarshalSSZ_def Fork_SizeSSZ_def
       MarshalUint64_def new_Fork_def slice_def split: if_splits)

lemma Status_roundtrip:
  assumes "Status_MarshalSSZ s = Inr bs"
  shows "Status_UnmarshalSSZ new_Status bs = Inr s \<and> Status_SizeSSZ s = length bs"
  using assms
  by (cases s)
     (auto simp: Status_MarshalSSZ_def Status_MarshalSSZTo_def Status_UnmarshalSSZ_def
       Status_SizeSSZ_def MarshalUint64_def new_Status_def slice_def split: if_splits)

lemma SigningData_roundtrip:
  assumes "SigningData_MarshalSSZ s = Inr bs"
  shows "SigningData_UnmarshalSSZ new_SigningData bs = Inr s \<and> SigningData_SizeSSZ s = length bs"
  using assms
  by (cases s)
     (auto simp: SigningData_MarshalSSZ_def SigningData_MarshalSSZTo_def
       SigningData_UnmarshalSSZ_def SigningData_SizeSSZ_def new_SigningData_def slice_def
       split: if_splits)

lemma ForkData_roundtrip:
  assumes "ForkData_MarshalSSZ f = Inr bs"
  shows "ForkData_UnmarshalSSZ new_ForkData bs = Inr f \<and> ForkData_SizeSSZ f = length bs"
  using assms
  by (cases f)
     (auto simp: ForkData_MarshalSSZ_def ForkData_MarshalSSZTo_def ForkData_UnmarshalSSZ_def
       ForkData_SizeSSZ_def new_ForkData_def slice_def split: if_splits)

lemma DepositMessage_roundtrip:
  assumes "DepositMessage_MarshalSSZ d = Inr bs"
  shows "DepositMessage_UnmarshalSSZ new_DepositMessage bs = Inr d
         \<and> DepositMessage_SizeSSZ d = length bs"
  using assms
  by (cases d)
     (auto simp: DepositMessage_MarshalSSZ_def DepositMessage_MarshalSSZTo_def
       DepositMessage_UnmarshalSSZ_def DepositMessage_SizeSSZ_def MarshalUint64_def
       new_DepositMessage_def slice_def split: if_splits)

lemma two_vectors_roundtrip:
  assumes 1: "marshal_vectors k xs [] = Inr d1" and 2: "marshal_vectors k ys d1 = Inr bs"
    and n: "length xs = n" and m: "length ys = m"
  shows "chunks k n (slice 0 (n * k) bs) = xs
       \<and> chunks k m (slice (n * k) (n * k + m * k) bs) = ys
       \<and> length bs = n * k + m * k"
proof -
  from marshal_vectors_Inr [OF 1] have x: "\<forall>x\<in>set xs. length x = k" and d1: "d1 = concat xs"
    by simp_all
  from marshal_vectors_Inr [OF 2] have y: "\<forall>x\<in>set ys. length x = k" and bs: "bs = d1 @ concat ys"
    by simp_all
  have lx: "length (concat xs) = n * k" using length_concat_uniform [OF x] n by simp
  have ly: "length (concat ys) = m * k" using length_concat_uniform [OF y] m by simp
  show ?thesis
    unfolding bs d1 using lx ly chunks_concat' [OF x] chunks_concat' [OF y] n m
    by (simp add: slice_def)
qed

lemma SyncCommittee_roundtrip:
  assumes "SyncCommittee_MarshalSSZ s = Inr bs"
  shows "SyncCommittee_UnmarshalSSZ r bs = Inr s \<and> SyncCommittee_SizeSSZ s = length bs"
proof -
  from assms obtain d1 where n: "length (sc_Pubkeys s) = 1024"
    and 1: "marshal_vectors 48 (sc_Pubkeys s) [] = Inr d1"
    and m: "length (sc_PubkeyAggregates s) = 16"
    and 2: "marshal_vectors 48 (sc_PubkeyAggregates s) d1 = Inr bs"
    by (auto simp: SyncCommittee_MarshalSSZ_def SyncCommittee_MarshalSSZTo_def
        split: if_splits sum.splits)
  from two_vectors_roundtrip [OF 1 2 n m] show ?thesis
    by (cases s) (simp add: SyncCommittee_UnmarshalSSZ_def SyncCommittee_SizeSSZ_def)
qed

lemma HistoricalBatch_roundtrip:
  assumes "HistoricalBatch_MarshalSSZ h = Inr bs"
  shows "HistoricalBatch_UnmarshalSSZ r bs = Inr h \<and> HistoricalBatch_SizeSSZ h = length bs"
proof -
  from assms obtain d1 where n: "length (hb_BlockRoots h) = 8192"
    and 1: "marshal_vectors 32 (hb_BlockRoots h) [] = Inr d1"
    and m: "length (hb_StateRoots h) = 8192"
    and 2: "marshal_vectors 32 (hb_StateRoots h) d1 = Inr bs"
    by (auto simp: HistoricalBatch_MarshalSSZ_def HistoricalBatch_MarshalSSZTo_def
        split: if_splits sum.splits)
  from two_vectors_roundtrip [OF 1 2 n m] show ?thesis
    by (cases h) (simp add: HistoricalBatch_UnmarshalSSZ_def HistoricalBatch_SizeSSZ_def)
qed

subsection \<open>The layout of an encoded BeaconState\<close>

lemma case_sum_Inr_iff:
  "((case m of Inl e \<Rightarrow> Inl e | Inr v \<Rightarrow> f v) = Inr r) = (\<exists>v. m = Inr v \<and> f v = Inr r)"
  by (cases m) auto

lemma if_Inl_Inr_iff:
  "((if c then Inl e else m) = Inr r) = (\<not> c \<and> m = Inr r)"
  by simp

lemma codec_ok_or_new:
  assumes "codec_ok enc dec z n" and "enc (or_new z p) dst = Inr r"
  obtains v e where "p = Some v" "r = dst @ e" "length e = n" "dec z e = Inr v"
proof (cases p)
  case None
  with assms(2) have "enc z dst = Inr r" by (simp add: or_new_def)
  moreover from assms(1) obtain err where "enc z dst = Inl err"
    unfolding codec_ok_def by blast
  ultimately show ?thesis by simp
next
  case (Some v)
  with assms(2) have "enc v dst = Inr r" by (simp add: or_new_def)
  with assms(1) obtain e where "r = dst @ e" "length e = n" "dec z e = Inr v"
    unfolding codec_ok_def by blast
  with Some that show ?thesis by blast
qed

lemma codec_ok_Fork: "codec_ok Fork_MarshalSSZTo Fork_UnmarshalSSZ new_Fork 16"
  unfolding codec_ok_def
proof (intro conjI allI impI)
  fix v dst r assume m: "Fork_MarshalSSZTo v dst = Inr r"
  let ?e = "fk_PreviousVersion v @ fk_CurrentVersion v @ le_encode 8 (unat (fk_Epoch v))"
  from m have l: "length (fk_PreviousVersion v) = 4" "length (fk_CurrentVersion v) = 4"
    and r: "r = dst @ ?e"
    by (auto simp: Fork_MarshalSSZTo_def MarshalUint64_def split: if_splits)
  have "Fork_UnmarshalSSZ new_Fork ?e = Inr v"
    using l by (cases v) (simp add: Fork_UnmarshalSSZ_def new_Fork_def slice_def)
  moreover have "length ?e = 16" using l by simp
  ultimately show "\<exists>e. r = dst @ e \<and> length e = 16 \<and> Fork_UnmarshalSSZ new_Fork e = Inr v"
    using r by blast
next
  fix dst show "\<exists>err. Fork_MarshalSSZTo new_Fork dst = Inl err"
    by (simp add: Fork_MarshalSSZTo_def new_Fork_def)
qed

lemma SyncCommittee_MarshalSSZTo_Inr:
  assumes "SyncCommittee_MarshalSSZTo s dst = Inr r"
  shows "\<exists>e. r = dst @ e \<and> length e = 49920 \<and> SyncCommittee_UnmarshalSSZ z e = Inr s"
proof -
  from assms obtain d1 where n: "length (sc_Pubkeys s) = 1024"
    and 1: "marshal_vectors 48 (sc_Pubkeys s) dst = Inr d1"
    and m: "length (sc_PubkeyAggregates s) = 16"
    and 2: "marshal_vectors 48 (sc_PubkeyAggregates s) d1 = Inr r"
    by (auto simp: SyncCommittee_MarshalSSZTo_def split: if_splits sum.splits)
  from marshal_vectors_Inr [OF 1] have x: "\<forall>x\<in>set (sc_Pubkeys s). length x = 48"
    and d1: "d1 = dst @ concat (sc_Pubkeys s)" by simp_all
  from marshal_vectors_Inr [OF 2] have y: "\<forall>x\<in>set (sc_PubkeyAggregates s). length x = 48"
    and r: "r = d1 @ concat (sc_PubkeyAggregates s)" by simp_all
  let ?e = "concat (sc_Pubkeys s) @ concat (sc_PubkeyAggregates s)"
  have lx: "length (concat (sc_Pubkeys s)) = 49152"
    using length_concat_uniform [OF x] n by simp
  have ly: "length (concat (sc_PubkeyAggregates s)) = 768"
    using length_concat_uniform [OF y] m by simp
  have "SyncCommittee_UnmarshalSSZ z ?e = Inr s"
    using lx ly chunks_concat' [OF x, of 1024] chunks_concat' [OF y, of 16] n m
    by (cases s) (simp add: SyncCommittee_UnmarshalSSZ_def slice_def)
  moreover have "length ?e = 49920" using lx ly by simp
  moreover have "r = dst @ ?e" using r d1 by simp
  ultimately show ?thesis by blast
qed

lemma codec_ok_SyncCommittee:
  "codec_ok SyncCommittee_MarshalSSZTo SyncCommittee_UnmarshalSSZ new_SyncCommittee 49920"
  unfolding codec_ok_def
  using SyncCommittee_MarshalSSZTo_Inr
  by (auto simp: SyncCommittee_MarshalSSZTo_def new_SyncCommittee_def)

lemma foldl_MarshalUint64:
  "foldl MarshalUint64 dst xs = dst @ concat (map (\<lambda>v. le_encode 8 (unat v)) xs)"
  by (induction xs arbitrary: dst) (simp_all add: MarshalUint64_def)

lemma length_concat_uint64s [simp]:
  "length (concat (map (\<lambda>v. le_encode 8 (unat v)) xs)) = 8 * length xs"
  by (induction xs) simp_all

lemma chunks_uint64s:
  "map UnmarshallUint64 (chunks 8 (length xs)
      (concat (map (\<lambda>v. le_encode 8 (unat v)) xs) @ rest)) = xs"
  by (induction xs) simp_all

lemma marshal_elements_Inr:
  assumes ok: "codec_ok enc dec z n" and m: "marshal_elements enc xs dst = Inr r"
  shows "\<exists>e. r = dst @ e \<and> length e = n * length xs
            \<and> (\<forall>rest. unmarshal_elements (dec z) (chunks n (length xs) (e @ rest)) = Inr xs)"
  using m
proof (induction xs arbitrary: dst)
  case Nil
  then show ?case by simp
next
  case (Cons a xs)
  from Cons.prems obtain v d1 where a: "a = Some v" and e1: "enc v dst = Inr d1"
    and rest: "marshal_elements enc xs d1 = Inr r"
    by (cases a) (auto split: sum.splits)
  from ok e1 obtain c where d1: "d1 = dst @ c" and lc: "length c = n" and dc: "dec z c = Inr v"
    unfolding codec_ok_def by blast
  from Cons.IH [OF rest] obtain e where r: "r = d1 @ e" and le: "length e = n * length xs"
    and ue: "\<forall>rest. unmarshal_elements (dec z) (chunks n (length xs) (e @ rest)) = Inr xs"
    by blast
  have "r = dst @ (c @ e)" using r d1 by simp
  moreover have "length (c @ e) = n * length (a # xs)" using lc le by simp
  moreover have "\<forall>rest. unmarshal_elements (dec z) (chunks n (length (a # xs)) ((c @ e) @ rest))
                   = Inr (a # xs)"
    using lc dc ue a by simp
  ultimately show ?case by blast
qed

lemma slice_cell:
  "length pre = a \<Longrightarrow> length c = n \<Longrightarrow> b = a + n \<Longrightarrow> slice a b (pre @ c @ post) = c"
  by (simp add: slice_def)

lemma slice_cell_last:
  "length pre = a \<Longrightarrow> drop a (pre @ c) = c"
  by simp

lemma marshal_fields_0_6_Inr:
  assumes ok: "ext_codecs_ok x" and m: "marshal_fields_0_6 x b buf = Inr r"
  obtains f fk h hd where
    "bs_Fork b = Some f" "length fk = 16" "Fork_UnmarshalSSZ new_Fork fk = Inr f"
    "bs_LatestBlockHeader b = Some h" "length hd = 112"
    "BeaconBlockHeader_UnmarshalSSZ x new_BeaconBlockHeader hd = Inr h"
    "length (bs_GenesisValidatorsRoot b) = 32"
    "length (bs_BlockRoots b) = 8192" "\<forall>r\<in>set (bs_BlockRoots b). length r = 32"
    "length (bs_StateRoots b) = 8192" "\<forall>r\<in>set (bs_StateRoots b). length r = 32"
    "r = buf @ le_encode 8 (unat (bs_GenesisTime b)) @ bs_GenesisValidatorsRoot b
           @ le_encode 8 (unat (bs_Slot b)) @ fk @ hd
           @ concat (bs_BlockRoots b) @ concat (bs_StateRoots b)"
proof -
  let ?d0 = "MarshalUint64 (MarshalUint64 buf (bs_GenesisTime b) @ bs_GenesisValidatorsRoot b)
               (bs_Slot b)"
  from m obtain d1 d2 d3 where g: "length (bs_GenesisValidatorsRoot b) = 32"
    and 1: "Fork_MarshalSSZTo (or_new new_Fork (bs_Fork b)) ?d0 = Inr d1"
    and 2: "BeaconBlockHeader_MarshalSSZTo x
              (or_new new_BeaconBlockHeader (bs_LatestBlockHeader b)) d1 = Inr d2"
    and lb: "length (bs_BlockRoots b) = 8192"
    and 3: "marshal_vectors 32 (bs_BlockRoots b) d2 = Inr d3"
    and ls: "length (bs_StateRoots b) = 8192"
    and 4: "marshal_vectors 32 (bs_StateRoots b) d3 = Inr r"
    unfolding marshal_fields_0_6_def Let_def
    by (auto simp: case_sum_Inr_iff if_Inl_Inr_iff)
  from codec_ok_Fork 1 obtain f fk where f: "bs_Fork b = Some f" and d1: "d1 = ?d0 @ fk"
    and lf: "length fk = 16" and uf: "Fork_UnmarshalSSZ new_Fork fk = Inr f"
    by (rule codec_ok_or_new)
  from ok have "codec_ok (BeaconBlockHeader_MarshalSSZTo x) (BeaconBlockHeader_UnmarshalSSZ x)
        new_BeaconBlockHeader 112" by (simp add: ext_codecs_ok_def)
  from this 2 obtain h hd where h: "bs_LatestBlockHeader b = Some h" and d2: "d2 = d1 @ hd"
    and lh: "length hd = 112"
    and uh: "BeaconBlockHeader_UnmarshalSSZ x new_BeaconBlockHeader hd = Inr h"
    by (rule codec_ok_or_new)
  from marshal_vectors_Inr [OF 3] have vb: "\<forall>r\<in>set (bs_BlockRoots b). length r = 32"
    and d3: "d3 = d2 @ concat (bs_BlockRoots b)" by simp_all
  from marshal_vectors_Inr [OF 4] have vs: "\<forall>r\<in>set (bs_StateRoots b). length r = 32"
    and r: "r = d3 @ concat (bs_StateRoots b)" by simp_all
  have "r = buf @ le_encode 8 (unat (bs_GenesisTime b)) @ bs_GenesisValidatorsRoot b
           @ le_encode 8 (unat (bs_Slot b)) @ fk @ hd
           @ concat (bs_BlockRoots b) @ concat (bs_StateRoots b)"
    unfolding r d3 d2 d1 by (simp add: MarshalUint64_def)
  with f lf uf h lh uh g lb vb ls vs show ?thesis by (rule that)
qed

lemma marshal_fields_7_14_Inr:
  assumes ok: "ext_codecs_ok x" and m: "marshal_fields_7_14 x b buf = Inr (r, off)"
  obtains e e1 where
    "bs_Eth1Data b = Some e" "length e1 = 72"
    "Eth1Data_UnmarshalSSZ x new_Eth1Data e1 = Inr e"
    "length (bs_RandaoMixes b) = 65536" "\<forall>r\<in>set (bs_RandaoMixes b). length r = 32"
    "length (bs_Slashings b) = 8192"
    "off = 2787217 + length (bs_HistoricalRoots b) * 32 + length (bs_Eth1DataVotes b) * 72
           + length (bs_Validators b) * 121 + length (bs_Balances b) * 8"
    "r = buf @ le_encode 4 (2787217 mod 2 ^ 32) @ e1
           @ le_encode 4 ((2787217 + length (bs_HistoricalRoots b) * 32) mod 2 ^ 32)
           @ le_encode 8 (unat (bs_Eth1DepositIndex b))
           @ le_encode 4 ((2787217 + length (bs_HistoricalRoots b) * 32
                            + length (bs_Eth1DataVotes b) * 72) mod 2 ^ 32)
           @ le_encode 4 ((2787217 + length (bs_HistoricalRoots b) * 32
                            + length (bs_Eth1DataVotes b) * 72
                            + length (bs_Validators b) * 121) mod 2 ^ 32)
           @ concat (bs_RandaoMixes b)
           @ concat (map (\<lambda>v. le_encode 8 (unat v)) (bs_Slashings b))"
proof -
  let ?h = "length (bs_HistoricalRoots b) * 32"
  let ?v = "length (bs_Eth1DataVotes b) * 72"
  let ?n = "length (bs_Validators b) * 121"
  from m obtain d1 d2 where
    1: "Eth1Data_MarshalSSZTo x (or_new new_Eth1Data (bs_Eth1Data b))
          (WriteOffset buf 2787217) = Inr d1"
    and lr: "length (bs_RandaoMixes b) = 65536"
    and 2: "marshal_vectors 32 (bs_RandaoMixes b)
             (WriteOffset (WriteOffset (MarshalUint64 (WriteOffset d1 (2787217 + ?h))
                (bs_Eth1DepositIndex b)) (2787217 + ?h + ?v)) (2787217 + ?h + ?v + ?n)) = Inr d2"
    and ls: "length (bs_Slashings b) = 8192"
    and r: "r = foldl MarshalUint64 d2 (bs_Slashings b)"
    and off: "off = 2787217 + ?h + ?v + ?n + length (bs_Balances b) * 8"
    unfolding marshal_fields_7_14_def Let_def
    by (auto simp: case_sum_Inr_iff if_Inl_Inr_iff)
  from ok have "codec_ok (Eth1Data_MarshalSSZTo x) (Eth1Data_UnmarshalSSZ x) new_Eth1Data 72"
    by (simp add: ext_codecs_ok_def)
  from this 1 obtain e e1 where e: "bs_Eth1Data b = Some e"
    and d1: "d1 = WriteOffset buf 2787217 @ e1"
    and le: "length e1 = 72" and ue: "Eth1Data_UnmarshalSSZ x new_Eth1Data e1 = Inr e"
    by (rule codec_ok_or_new)
  from marshal_vectors_Inr [OF 2] have vr: "\<forall>r\<in>set (bs_RandaoMixes b). length r = 32"
    and d2: "d2 = WriteOffset (WriteOffset (MarshalUint64 (WriteOffset d1 (2787217 + ?h))
                (bs_Eth1DepositIndex b)) (2787217 + ?h + ?v)) (2787217 + ?h + ?v + ?n)
                @ concat (bs_RandaoMixes b)" by simp_all
  have "r = buf @ le_encode 4 (2787217 mod 2 ^ 32) @ e1
           @ le_encode 4 ((2787217 + ?h) mod 2 ^ 32)
           @ le_encode 8 (unat (bs_Eth1DepositIndex b))
           @ le_encode 4 ((2787217 + ?h + ?v) mod 2 ^ 32)
           @ le_encode 4 ((2787217 + ?h + ?v + ?n) mod 2 ^ 32)
           @ concat (bs_RandaoMixes b)
           @ concat (map (\<lambda>v. le_encode 8 (unat v)) (bs_Slashings b))"
    unfolding r d2 d1 foldl_MarshalUint64
    by (simp only: MarshalUint64_def WriteOffset_def append_assoc)
  with e le ue lr vr ls off show ?thesis by (rule that)
qed

lemma marshal_fields_15_22_Inr:
  assumes ok: "ext_codecs_ok x" and m: "marshal_fields_15_22 x b (buf, off) = Inr r"
  obtains pj cpj cj ccj fc cfc cs ccs ns cns where
    "length (bs_JustificationBits b) = 1"
    "bs_PreviousJustifiedCheckpoint b = Some pj" "length cpj = 40"
    "Checkpoint_UnmarshalSSZ x new_Checkpoint cpj = Inr pj"
    "bs_CurrentJustifiedCheckpoint b = Some cj" "length ccj = 40"
    "Checkpoint_UnmarshalSSZ x new_Checkpoint ccj = Inr cj"
    "bs_FinalizedCheckpoint b = Some fc" "length cfc = 40"
    "Checkpoint_UnmarshalSSZ x new_Checkpoint cfc = Inr fc"
    "bs_CurrentSyncCommittee b = Some cs" "length ccs = 49920"
    "SyncCommittee_UnmarshalSSZ new_SyncCommittee ccs = Inr cs"
    "bs_NextSyncCommittee b = Some ns" "length cns = 49920"
    "SyncCommittee_UnmarshalSSZ new_SyncCommittee cns = Inr ns"
    "r = buf @ le_encode 4 (off mod 2 ^ 32)
           @ le_encode 4 ((off + length (bs_PreviousEpochParticipation b)) mod 2 ^ 32)
           @ bs_JustificationBits b @ cpj @ ccj @ cfc @ ccs @ cns"
proof -
  let ?d0 = "WriteOffset (WriteOffset buf off) (off + length (bs_PreviousEpochParticipation b))
             @ bs_JustificationBits b"
  from m obtain d1 d2 d3 d4 where j: "length (bs_JustificationBits b) = 1"
    and 1: "Checkpoint_MarshalSSZTo x
              (or_new new_Checkpoint (bs_PreviousJustifiedCheckpoint b)) ?d0 = Inr d1"
    and 2: "Checkpoint_MarshalSSZTo x
              (or_new new_Checkpoint (bs_CurrentJustifiedCheckpoint b)) d1 = Inr d2"
    and 3: "Checkpoint_MarshalSSZTo x
              (or_new new_Checkpoint (bs_FinalizedCheckpoint b)) d2 = Inr d3"
    and 4: "SyncCommittee_MarshalSSZTo
              (or_new new_SyncCommittee (bs_CurrentSyncCommittee b)) d3 = Inr d4"
    and 5: "SyncCommittee_MarshalSSZTo
              (or_new new_SyncCommittee (bs_NextSyncCommittee b)) d4 = Inr r"
    unfolding marshal_fields_15_22_def Let_def
    by (auto simp: case_sum_Inr_iff if_Inl_Inr_iff)
  from ok have c: "codec_ok (Checkpoint_MarshalSSZTo x) (Checkpoint_UnmarshalSSZ x)
                     new_Checkpoint 40"
    by (simp add: ext_codecs_ok_def)
  from c 1 obtain pj cpj where pj: "bs_PreviousJustifiedCheckpoint b = Some pj"
    and d1: "d1 = ?d0 @ cpj" and l1: "length cpj = 40"
    and u1: "Checkpoint_UnmarshalSSZ x new_Checkpoint cpj = Inr pj"
    by (rule codec_ok_or_new)
  from c 2 obtain cj ccj where cj: "bs_CurrentJustifiedCheckpoint b = Some cj"
    and d2: "d2 = d1 @ ccj" and l2: "length ccj = 40"
    and u2: "Checkpoint_UnmarshalSSZ x new_Checkpoint ccj = Inr cj"
    by (rule codec_ok_or_new)
  from c 3 obtain fc cfc where fc: "bs_FinalizedCheckpoint b = Some fc"
    and d3: "d3 = d2 @ cfc" and l3: "length cfc = 40"
    and u3: "Checkpoint_UnmarshalSSZ x new_Checkpoint cfc = Inr fc"
    by (rule codec_ok_or_new)
  from codec_ok_SyncCommittee 4 obtain cs ccs where cs: "bs_CurrentSyncCommittee b = Some cs"
    and d4: "d4 = d3 @ ccs" and l4: "length ccs = 49920"
    and u4: "SyncCommittee_UnmarshalSSZ new_SyncCommittee ccs = Inr cs"
    by (rule codec_ok_or_new)
  from codec_ok_SyncCommittee 5 obtain ns cns where ns: "bs_NextSyncCommittee b = Some ns"
    and r: "r = d4 @ cns" and l5: "length cns = 49920"
    and u5: "SyncCommittee_UnmarshalSSZ new_SyncCommittee cns = Inr ns"
    by (rule codec_ok_or_new)
  have "r = buf @ le_encode 4 (off mod 2 ^ 32)
           @ le_encode 4 ((off + length (bs_PreviousEpochParticipation b)) mod 2 ^ 32)
           @ bs_JustificationBits b @ cpj @ ccj @ cfc @ ccs @ cns"
    unfolding r d4 d3 d2 d1 by (simp only: WriteOffset_def append_assoc)
  with j pj l1 u1 cj l2 u2 fc l3 u3 cs l4 u4 ns l5 u5 show ?thesis by (rule that)
qed

lemma marshal_variable_Inr:
  assumes ok: "ext_codecs_ok x" and m: "marshal_variable x b buf = Inr r"
  obtains ev va where
    "\<forall>r\<in>set (bs_HistoricalRoots b). length r = 32"
    "length (bs_HistoricalRoots b) \<le> 16777216"
    "length (bs_Eth1DataVotes b) \<le> 2048"
    "length (bs_Validators b) \<le> 1099511627776"
    "length (bs_Balances b) \<le> 1099511627776"
    "length (bs_PreviousEpochParticipation b) \<le> 1099511627776"
    "length (bs_CurrentEpochParticipation b) \<le> 1099511627776"
    "length ev = 72 * length (bs_Eth1DataVotes b)"
    "\<forall>rest. unmarshal_elements (Eth1Data_UnmarshalSSZ x new_Eth1Data)
       (chunks 72 (length (bs_Eth1DataVotes b)) (ev @ rest)) = Inr (bs_Eth1DataVotes b)"
    "length va = 121 * length (bs_Validators b)"
    "\<forall>rest. unmarshal_elements (Validator_UnmarshalSSZ x empty_Validator)
       (chunks 121 (length (bs_Validators b)) (va @ rest)) = Inr (bs_Validators b)"
    "r = buf @ concat (bs_HistoricalRoots b) @ ev @ va
           @ concat (map (\<lambda>v. le_encode 8 (unat v)) (bs_Balances b))
           @ bs_PreviousEpochParticipation b @ bs_CurrentEpochParticipation b"
proof -
  from m obtain d1 d2 d3 where lh: "length (bs_HistoricalRoots b) \<le> 16777216"
    and 1: "marshal_vectors 32 (bs_HistoricalRoots b) buf = Inr d1"
    and le: "length (bs_Eth1DataVotes b) \<le> 2048"
    and 2: "marshal_elements (Eth1Data_MarshalSSZTo x) (bs_Eth1DataVotes b) d1 = Inr d2"
    and lv: "length (bs_Validators b) \<le> 1099511627776"
    and 3: "marshal_elements (Validator_MarshalSSZTo x) (bs_Validators b) d2 = Inr d3"
    and lb: "length (bs_Balances b) \<le> 1099511627776"
    and lp: "length (bs_PreviousEpochParticipation b) \<le> 1099511627776"
    and lc: "length (bs_CurrentEpochParticipation b) \<le> 1099511627776"
    and r: "r = foldl MarshalUint64 d3 (bs_Balances b) @ bs_PreviousEpochParticipation b
                @ bs_CurrentEpochParticipation b"
    unfolding marshal_variable_def Let_def
    by (auto simp: case_sum_Inr_iff if_Inl_Inr_iff not_less)
  from marshal_vectors_Inr [OF 1] have vh: "\<forall>r\<in>set (bs_HistoricalRoots b). length r = 32"
    and d1: "d1 = buf @ concat (bs_HistoricalRoots b)" by simp_all
  from ok have ce: "codec_ok (Eth1Data_MarshalSSZTo x) (Eth1Data_UnmarshalSSZ x) new_Eth1Data 72"
    and cv: "codec_ok (Validator_MarshalSSZTo x) (Validator_UnmarshalSSZ x) empty_Validator 121"
    by (simp_all add: ext_codecs_ok_def)
  from marshal_elements_Inr [OF ce 2] obtain ev where d2: "d2 = d1 @ ev"
    and lev: "length ev = 72 * length (bs_Eth1DataVotes b)"
    and uev: "\<forall>rest. unmarshal_elements (Eth1Data_UnmarshalSSZ x new_Eth1Data)
       (chunks 72 (length (bs_Eth1DataVotes b)) (ev @ rest)) = Inr (bs_Eth1DataVotes b)"
    by blast
  from marshal_elements_Inr [OF cv 3] obtain va where d3: "d3 = d2 @ va"
    and lva: "length va = 121 * length (bs_Validators b)"
    and uva: "\<forall>rest. unmarshal_elements (Validator_UnmarshalSSZ x empty_Validator)
       (chunks 121 (length (bs_Validators b)) (va @ rest)) = Inr (bs_Validators b)"
    by blast
  have "r = buf @ concat (bs_HistoricalRoots b) @ ev @ va
           @ concat (map (\<lambda>v. le_encode 8 (unat v)) (bs_Balances b))
           @ bs_PreviousEpochParticipation b @ bs_CurrentEpochParticipation b"
    unfolding r d3 d2 d1 foldl_MarshalUint64 by simp
  with vh lh le lv lb lp lc lev uev lva uva show ?thesis by (rule that)
qed

subsection \<open>Decoding an encoded BeaconState\<close>

lemma BeaconState_decode_encoded:
  assumes ok: "ext_codecs_ok x" and m: "BeaconState_MarshalSSZ x b = Inr bs"
  shows "BeaconState_SizeSSZ b = length bs
         \<and> (BeaconState_lastOffset b < 2 ^ 32 \<longrightarrow>
              BeaconState_UnmarshalSSZ x new_BeaconState bs = Inr b)"
proof -
  from m obtain A B off C where
    sa: "marshal_fields_0_6 x b [] = Inr A"
    and sb: "marshal_fields_7_14 x b A = Inr (B, off)"
    and sc: "marshal_fields_15_22 x b (B, off) = Inr C"
    and sd: "marshal_variable x b C = Inr bs"
    unfolding BeaconState_MarshalSSZ_def BeaconState_MarshalSSZTo_def
    by (auto simp: case_sum_Inr_iff)
  from ok sa obtain f c3 h c4 where
    f: "bs_Fork b = Some f" and l3: "length c3 = 16"
    and d3: "Fork_UnmarshalSSZ new_Fork c3 = Inr f"
    and h: "bs_LatestBlockHeader b = Some h" and l4: "length c4 = 112"
    and d4: "BeaconBlockHeader_UnmarshalSSZ x new_BeaconBlockHeader c4 = Inr h"
    and l1: "length (bs_GenesisValidatorsRoot b) = 32"
    and nb: "length (bs_BlockRoots b) = 8192" and vb: "\<forall>r\<in>set (bs_BlockRoots b). length r = 32"
    and ns: "length (bs_StateRoots b) = 8192" and vs: "\<forall>r\<in>set (bs_StateRoots b). length r = 32"
    and A: "A = [] @ le_encode 8 (unat (bs_GenesisTime b)) @ bs_GenesisValidatorsRoot b
           @ le_encode 8 (unat (bs_Slot b)) @ c3 @ c4
           @ concat (bs_BlockRoots b) @ concat (bs_StateRoots b)"
    by (rule marshal_fields_0_6_Inr)
  from ok sb obtain e c8 where
    e: "bs_Eth1Data b = Some e" and l8: "length c8 = 72"
    and d8: "Eth1Data_UnmarshalSSZ x new_Eth1Data c8 = Inr e"
    and nr: "length (bs_RandaoMixes b) = 65536"
    and vr: "\<forall>r\<in>set (bs_RandaoMixes b). length r = 32"
    and nsl: "length (bs_Slashings b) = 8192"
    and off: "off = 2787217 + length (bs_HistoricalRoots b) * 32
           + length (bs_Eth1DataVotes b) * 72
           + length (bs_Validators b) * 121 + length (bs_Balances b) * 8"
    and B: "B = A @ le_encode 4 (2787217 mod 2 ^ 32) @ c8
           @ le_encode 4 ((2787217 + length (bs_HistoricalRoots b) * 32) mod 2 ^ 32)
           @ le_encode 8 (unat (bs_Eth1DepositIndex b))
           @ le_encode 4 ((2787217 + length (bs_HistoricalRoots b) * 32
                            + length (bs_Eth1DataVotes b) * 72) mod 2 ^ 32)
           @ le_encode 4 ((2787217 + length (bs_HistoricalRoots b) * 32
                            + length (bs_Eth1DataVotes b) * 72
                            + length (bs_Validators b) * 121) mod 2 ^ 32)
           @ concat (bs_RandaoMixes b)
           @ concat (map (\<lambda>v. le_encode 8 (unat v)) (bs_Slashings b))"
    by (rule marshal_fields_7_14_Inr)
  from ok sc obtain pj c18 cj c19 fc c20 cs c21 nsc c22 where
    l17: "length (bs_JustificationBits b) = 1"
    and pj: "bs_PreviousJustifiedCheckpoint b = Some pj" and l18: "length c18 = 40"
    and d18: "Checkpoint_UnmarshalSSZ x new_Checkpoint c18 = Inr pj"
    and cj: "bs_CurrentJustifiedCheckpoint b = Some cj" and l19: "length c19 = 40"
    and d19: "Checkpoint_UnmarshalSSZ x new_Checkpoint c19 = Inr cj"
    and fc: "bs_FinalizedCheckpoint b = Some fc" and l20: "length c20 = 40"
    and d20: "Checkpoint_UnmarshalSSZ x new_Checkpoint c20 = Inr fc"
    and cs: "bs_CurrentSyncCommittee b = Some cs" and l21: "length c21 = 49920"
    and d21: "SyncCommittee_UnmarshalSSZ new_SyncCommittee c21 = Inr cs"
    and nsc: "bs_NextSyncCommittee b = Some nsc" and l22: "length c22 = 49920"
    and d22: "SyncCommittee_UnmarshalSSZ new_SyncCommittee c22 = Inr nsc"
    and C: "C = B @ le_encode 4 (off mod 2 ^ 32)
           @ le_encode 4 ((off + length (bs_PreviousEpochParticipation b)) mod 2 ^ 32)
           @ bs_JustificationBits b @ c18 @ c19 @ c20 @ c21 @ c22"
    by (rule marshal_fields_15_22_Inr)
  from ok sd obtain v1 v2 where
    vh: "\<forall>r\<in>set (bs_HistoricalRoots b). length r = 32"
    and bh: "length (bs_HistoricalRoots b) \<le> 16777216"
    and be: "length (bs_Eth1DataVotes b) \<le> 2048"
    and bv: "length (bs_Validators b) \<le> 1099511627776"
    and bb: "length (bs_Balances b) \<le> 1099511627776"
    and bp: "length (bs_PreviousEpochParticipation b) \<le> 1099511627776"
    and bc: "length (bs_CurrentEpochParticipation b) \<le> 1099511627776"
    and lv1: "length v1 = 72 * length (bs_Eth1DataVotes b)"
    and dv1: "\<forall>rest. unmarshal_elements (Eth1Data_UnmarshalSSZ x new_Eth1Data)
       (chunks 72 (length (bs_Eth1DataVotes b)) (v1 @ rest)) = Inr (bs_Eth1DataVotes b)"
    and lv2: "length v2 = 121 * length (bs_Validators b)"
    and dv2: "\<forall>rest. unmarshal_elements (Validator_UnmarshalSSZ x empty_Validator)
       (chunks 121 (length (bs_Validators b)) (v2 @ rest)) = Inr (bs_Validators b)"
    and bsC: "bs = C @ concat (bs_HistoricalRoots b) @ v1 @ v2
           @ concat (map (\<lambda>v. le_encode 8 (unat v)) (bs_Balances b))
           @ bs_PreviousEpochParticipation b @ bs_CurrentEpochParticipation b"
    by (rule marshal_variable_Inr)
  define c0 where "c0 = le_encode 8 (unat (bs_GenesisTime b))"
  define c1 where "c1 = bs_GenesisValidatorsRoot b"
  define c2 where "c2 = le_encode 8 (unat (bs_Slot b))"
  define c5 where "c5 = concat (bs_BlockRoots b)"
  define c6 where "c6 = concat (bs_StateRoots b)"
  define c7 where "c7 = le_encode 4 (2787217 mod 2 ^ 32)"
  define c9 where "c9 = le_encode 4 ((2787217 + length (bs_HistoricalRoots b) * 32) mod 2 ^ 32)"
  define c10 where "c10 = le_encode 8 (unat (bs_Eth1DepositIndex b))"
  define c11 where "c11 = le_encode 4 ((2787217 + length (bs_HistoricalRoots b) * 32 + length (bs_Eth1DataVotes b) * 72) mod 2 ^ 32)"
  define c12 where "c12 = le_encode 4 ((2787217 + length (bs_HistoricalRoots b) * 32 + length (bs_Eth1DataVotes b) * 72 + length (bs_Validators b) * 121) mod 2 ^ 32)"
  define c13 where "c13 = concat (bs_RandaoMixes b)"
  define c14 where "c14 = concat (map (\<lambda>v. le_encode 8 (unat v)) (bs_Slashings b))"
  define c15 where "c15 = le_encode 4 (off mod 2 ^ 32)"
  define c16 where "c16 = le_encode 4 ((off + length (bs_PreviousEpochParticipation b)) mod 2 ^ 32)"
  define c17 where "c17 = bs_JustificationBits b"
  define v0 where "v0 = concat (bs_HistoricalRoots b)"
  define v3 where "v3 = concat (map (\<lambda>v. le_encode 8 (unat v)) (bs_Balances b))"
  define v4 where "v4 = bs_PreviousEpochParticipation b"
  define v5 where "v5 = bs_CurrentEpochParticipation b"
  have bs: "bs = c0 @ c1 @ c2 @ c3 @ c4 @ c5 @ c6 @ c7 @ c8 @ c9 @ c10 @ c11 @ c12 @ c13 @ c14 @ c15 @ c16 @ c17 @ c18 @ c19 @ c20 @ c21 @ c22 @ v0 @ v1 @ v2 @ v3 @ v4 @ v5"
    unfolding bsC C B A c0_def c1_def c2_def c5_def c6_def c7_def c9_def c10_def c11_def c12_def c13_def c14_def c15_def c16_def c17_def v0_def v3_def v4_def v5_def by (simp only: append_assoc append_Nil)
  have lens [simp]:
    "length c0 = 8"
    "length c1 = 32"
    "length c2 = 8"
    "length c3 = 16"
    "length c4 = 112"
    "length c5 = 262144"
    "length c6 = 262144"
    "length c7 = 4"
    "length c8 = 72"
    "length c9 = 4"
    "length c10 = 8"
    "length c11 = 4"
    "length c12 = 4"
    "length c13 = 2097152"
    "length c14 = 65536"
    "length c15 = 4"
    "length c16 = 4"
    "length c17 = 1"
    "length c18 = 40"
    "length c19 = 40"
    "length c20 = 40"
    "length c21 = 49920"
    "length c22 = 49920"
    using l1 l3 l4 l8 l17 l18 l19 l20 l21 l22 nsl
      length_concat_uniform [OF vb] length_concat_uniform [OF vs] length_concat_uniform [OF vr]
      nb ns nr
    by (simp_all add: c0_def c1_def c2_def c5_def c6_def c7_def c9_def c10_def c11_def c12_def c13_def c14_def c15_def c16_def c17_def)
  have lv0: "length v0 = 32 * length (bs_HistoricalRoots b)"
    using length_concat_uniform [OF vh] by (simp add: v0_def)
  have lv3: "length v3 = 8 * length (bs_Balances b)"
    by (simp add: v3_def)
  note lv = lv0 lv1 lv2 lv3
  have len: "length bs = 2787217 + 32 * length (bs_HistoricalRoots b)
      + 72 * length (bs_Eth1DataVotes b) + 121 * length (bs_Validators b)
      + 8 * length (bs_Balances b) + length v4 + length v5"
    unfolding bs by (simp add: lv)
  have size: "BeaconState_SizeSSZ b = length bs"
    unfolding len by (simp add: BeaconState_SizeSSZ_def v4_def v5_def)
  have decoded: "BeaconState_UnmarshalSSZ x new_BeaconState bs = Inr b"
    if sz0: "BeaconState_lastOffset b < 2 ^ 32"
  proof -
  define H where "H = length (bs_HistoricalRoots b)"
  define E where "E = length (bs_Eth1DataVotes b)"
  define V where "V = length (bs_Validators b)"
  define M where "M = length (bs_Balances b)"
  define P where "P = length v4"
  define Q where "Q = length v5"
  have lv': "length v0 = 32 * H" "length v1 = 72 * E" "length v2 = 121 * V" "length v3 = 8 * M"
    "length v4 = P" "length v5 = Q"
    using lv by (simp_all add: H_def E_def V_def M_def P_def Q_def)
  have len': "length bs = 2787217 + 32 * H + 72 * E + 121 * V + 8 * M + P + Q"
    using len by (simp add: H_def E_def V_def M_def P_def Q_def)
  have small: "2787217 + 32 * H + 72 * E + 121 * V + 8 * M + P < 2 ^ 32"
    using sz0 by (simp add: BeaconState_lastOffset_def H_def E_def V_def M_def P_def v4_def)
  have r7: "ReadOffset c7 = 2787217"
    unfolding c7_def ReadOffset_encode by simp
  have r9: "ReadOffset c9 = 2787217 + 32 * H"
  proof -
    have "(2787217 + length (bs_HistoricalRoots b) * 32) mod 2 ^ 32 = 2787217 + 32 * H"
      using small by (simp add: H_def)
    then show ?thesis unfolding c9_def ReadOffset_encode by simp
  qed
  have r11: "ReadOffset c11 = 2787217 + 32 * H + 72 * E"
  proof -
    have "(2787217 + length (bs_HistoricalRoots b) * 32 + length (bs_Eth1DataVotes b) * 72)
            mod 2 ^ 32 = 2787217 + 32 * H + 72 * E"
      using small by (simp add: H_def E_def)
    then show ?thesis unfolding c11_def ReadOffset_encode by simp
  qed
  have r12: "ReadOffset c12 = 2787217 + 32 * H + 72 * E + 121 * V"
  proof -
    have "(2787217 + length (bs_HistoricalRoots b) * 32 + length (bs_Eth1DataVotes b) * 72
            + length (bs_Validators b) * 121) mod 2 ^ 32
          = 2787217 + 32 * H + 72 * E + 121 * V"
      using small by (simp add: H_def E_def V_def)
    then show ?thesis unfolding c12_def ReadOffset_encode by simp
  qed
  have r15: "ReadOffset c15 = 2787217 + 32 * H + 72 * E + 121 * V + 8 * M"
  proof -
    have "off mod 2 ^ 32 = 2787217 + 32 * H + 72 * E + 121 * V + 8 * M"
      using small by (simp add: off H_def E_def V_def M_def)
    then show ?thesis unfolding c15_def ReadOffset_encode by simp
  qed
  have r16: "ReadOffset c16 = 2787217 + 32 * H + 72 * E + 121 * V + 8 * M + P"
  proof -
    have "(off + length (bs_PreviousEpochParticipation b)) mod 2 ^ 32
          = 2787217 + 32 * H + 72 * E + 121 * V + 8 * M + P"
      using small by (simp add: off H_def E_def V_def M_def P_def v4_def)
    then show ?thesis unfolding c16_def ReadOffset_encode by simp
  qed
  have sl:
    "slice 0 8 bs = c0"
    "slice 8 40 bs = c1"
    "slice 40 48 bs = c2"
    "slice 48 64 bs = c3"
    "slice 64 176 bs = c4"
    "slice 176 262320 bs = c5"
    "slice 262320 524464 bs = c6"
    "slice 524464 524468 bs = c7"
    "slice 524468 524540 bs = c8"
    "slice 524540 524544 bs = c9"
    "slice 524544 524552 bs = c10"
    "slice 524552 524556 bs = c11"
    "slice 524556 524560 bs = c12"
    "slice 524560 2621712 bs = c13"
    "slice 2621712 2687248 bs = c14"
    "slice 2687248 2687252 bs = c15"
    "slice 2687252 2687256 bs = c16"
    "slice 2687256 2687257 bs = c17"
    "slice 2687257 2687297 bs = c18"
    "slice 2687297 2687337 bs = c19"
    "slice 2687337 2687377 bs = c20"
    "slice 2687377 2737297 bs = c21"
    "slice 2737297 2787217 bs = c22"
    unfolding bs by (simp_all add: slice_def)
  define F where "F = c0 @ c1 @ c2 @ c3 @ c4 @ c5 @ c6 @ c7 @ c8 @ c9 @ c10 @ c11 @ c12 @ c13 @ c14 @ c15 @ c16 @ c17 @ c18 @ c19 @ c20 @ c21 @ c22"
  have lF: "length F = 2787217"
    by (simp add: F_def)
  have fx: "bs = F @ v0 @ v1 @ v2 @ v3 @ v4 @ v5"
    unfolding bs F_def by (simp only: append_assoc)
  have s0: "slice 2787217 (2787217 + 32 * H) bs = v0"
    unfolding fx by (rule slice_cell) (simp_all add: lF lv')
  have s1: "slice (2787217 + 32 * H) (2787217 + 32 * H + 72 * E) bs = v1"
    using slice_cell [of "F @ v0" "2787217 + 32 * H" v1 "72 * E"
        "2787217 + 32 * H + 72 * E" "v2 @ v3 @ v4 @ v5"]
    by (simp add: fx lF lv')
  have s2: "slice (2787217 + 32 * H + 72 * E) (2787217 + 32 * H + 72 * E + 121 * V) bs = v2"
    using slice_cell [of "F @ v0 @ v1" "2787217 + 32 * H + 72 * E" v2 "121 * V"
        "2787217 + 32 * H + 72 * E + 121 * V" "v3 @ v4 @ v5"]
    by (simp add: fx lF lv')
  have s3: "slice (2787217 + 32 * H + 72 * E + 121 * V)
              (2787217 + 32 * H + 72 * E + 121 * V + 8 * M) bs = v3"
    using slice_cell [of "F @ v0 @ v1 @ v2" "2787217 + 32 * H + 72 * E + 121 * V" v3 "8 * M"
        "2787217 + 32 * H + 72 * E + 121 * V + 8 * M" "v4 @ v5"]
    by (simp add: fx lF lv')
  have s4: "slice (2787217 + 32 * H + 72 * E + 121 * V + 8 * M)
              (2787217 + 32 * H + 72 * E + 121 * V + 8 * M + P) bs = v4"
    using slice_cell [of "F @ v0 @ v1 @ v2 @ v3" "2787217 + 32 * H + 72 * E + 121 * V + 8 * M"
        v4 P "2787217 + 32 * H + 72 * E + 121 * V + 8 * M + P" v5]
    by (simp add: fx lF lv')
  have s5: "drop (2787217 + 32 * H + 72 * E + 121 * V + 8 * M + P) bs = v5"
    using slice_cell_last [of "F @ v0 @ v1 @ v2 @ v3 @ v4"
        "2787217 + 32 * H + 72 * E + 121 * V + 8 * M + P" v5]
    by (simp add: fx lF lv')
  have u0: "UnmarshallUint64 c0 = bs_GenesisTime b" by (simp add: c0_def)
  have u2: "UnmarshallUint64 c2 = bs_Slot b" by (simp add: c2_def)
  have u10: "UnmarshallUint64 c10 = bs_Eth1DepositIndex b" by (simp add: c10_def)
  have u5: "chunks 32 8192 c5 = bs_BlockRoots b"
    unfolding c5_def using vb nb by (simp add: chunks_concat')
  have u6: "chunks 32 8192 c6 = bs_StateRoots b"
    unfolding c6_def using vs ns by (simp add: chunks_concat')
  have u13: "chunks 32 65536 c13 = bs_RandaoMixes b"
    unfolding c13_def using vr nr by (simp add: chunks_concat')
  have u14: "map UnmarshallUint64 (chunks 8 8192 c14) = bs_Slashings b"
    unfolding c14_def using chunks_uint64s [of "bs_Slashings b" "[]"] nsl by simp
  have w0: "chunks 32 H v0 = bs_HistoricalRoots b"
    unfolding v0_def H_def using vh by (simp add: chunks_concat')
  have w1: "unmarshal_elements (Eth1Data_UnmarshalSSZ x new_Eth1Data) (chunks 72 E v1)
            = Inr (bs_Eth1DataVotes b)"
    using dv1 [rule_format, of "[]"] by (simp add: E_def)
  have w2: "unmarshal_elements (Validator_UnmarshalSSZ x empty_Validator) (chunks 121 V v2)
            = Inr (bs_Validators b)"
    using dv2 [rule_format, of "[]"] by (simp add: V_def)
  have w3: "map UnmarshallUint64 (chunks 8 M v3) = bs_Balances b"
    unfolding v3_def M_def using chunks_uint64s [of "bs_Balances b" "[]"] by simp
  have q0: "DivideInt2 (32 * H) 32 16777216 = Inr H"
    using bh by (simp add: DivideInt2_def H_def)
  have q1: "DivideInt2 (72 * E) 72 2048 = Inr E"
    using be by (simp add: DivideInt2_def E_def)
  have q2: "DivideInt2 (121 * V) 121 1099511627776 = Inr V"
    using bv by (simp add: DivideInt2_def V_def)
  have q3: "DivideInt2 (8 * M) 8 1099511627776 = Inr M"
    using bb by (simp add: DivideInt2_def M_def)
  have q4: "\<not> 1099511627776 < P" "\<not> 1099511627776 < Q"
    using bp bc by (simp_all add: P_def Q_def v4_def v5_def)
  have tk: "take 8 bs = c0" using sl(1) by simp
  have t1: "unmarshal_fields_0_7 x new_BeaconState bs =
      Inr (new_BeaconState\<lparr>bs_GenesisTime := bs_GenesisTime b,
             bs_GenesisValidatorsRoot := bs_GenesisValidatorsRoot b,
             bs_Slot := bs_Slot b, bs_Fork := bs_Fork b,
             bs_LatestBlockHeader := bs_LatestBlockHeader b,
             bs_BlockRoots := bs_BlockRoots b, bs_StateRoots := bs_StateRoots b\<rparr>,
           \<lparr>o7 = 2787217, o9 = 0, o11 = 0, o12 = 0, o15 = 0, o16 = 0\<rparr>)"
    by (simp add: unmarshal_fields_0_7_def sl or_new_def new_BeaconState_def d3 d4 r7 u0 u2
        u5 u6 len' f h c1_def tk)
  define R1 where "R1 = new_BeaconState\<lparr>bs_GenesisTime := bs_GenesisTime b,
             bs_GenesisValidatorsRoot := bs_GenesisValidatorsRoot b,
             bs_Slot := bs_Slot b, bs_Fork := bs_Fork b,
             bs_LatestBlockHeader := bs_LatestBlockHeader b,
             bs_BlockRoots := bs_BlockRoots b, bs_StateRoots := bs_StateRoots b\<rparr>"
  define R2 where "R2 = R1\<lparr>bs_Eth1Data := bs_Eth1Data b,
             bs_Eth1DepositIndex := bs_Eth1DepositIndex b,
             bs_RandaoMixes := bs_RandaoMixes b, bs_Slashings := bs_Slashings b\<rparr>"
  define R3 where "R3 = R2\<lparr>bs_JustificationBits := bs_JustificationBits b,
             bs_PreviousJustifiedCheckpoint := bs_PreviousJustifiedCheckpoint b,
             bs_CurrentJustifiedCheckpoint := bs_CurrentJustifiedCheckpoint b,
             bs_FinalizedCheckpoint := bs_FinalizedCheckpoint b,
             bs_CurrentSyncCommittee := bs_CurrentSyncCommittee b,
             bs_NextSyncCommittee := bs_NextSyncCommittee b\<rparr>"
  define R4 where "R4 = R3\<lparr>bs_HistoricalRoots := bs_HistoricalRoots b,
             bs_Eth1DataVotes := bs_Eth1DataVotes b, bs_Validators := bs_Validators b,
             bs_Balances := bs_Balances b,
             bs_PreviousEpochParticipation := bs_PreviousEpochParticipation b,
             bs_CurrentEpochParticipation := bs_CurrentEpochParticipation b\<rparr>"
  define O1 where "O1 = \<lparr>o7 = 2787217, o9 = 0, o11 = 0, o12 = 0, o15 = 0, o16 = 0\<rparr>"
  define O2 where "O2 = O1\<lparr>o9 := 2787217 + 32 * H, o11 := 2787217 + 32 * H + 72 * E,
             o12 := 2787217 + 32 * H + 72 * E + 121 * V\<rparr>"
  define O3 where "O3 = O2\<lparr>o15 := 2787217 + 32 * H + 72 * E + 121 * V + 8 * M,
             o16 := 2787217 + 32 * H + 72 * E + 121 * V + 8 * M + P\<rparr>"
  have t1': "unmarshal_fields_0_7 x new_BeaconState bs = Inr (R1, O1)"
    unfolding R1_def O1_def by (rule t1)
  have t2: "unmarshal_fields_8_14 x bs (R1, O1) = Inr (R2, O2)"
    by (simp add: unmarshal_fields_8_14_def Let_def sl or_new_def R1_def R2_def O1_def O2_def
        new_BeaconState_def d8 r9 r11 r12 u10 u13 u14 len' e)
  have t3: "unmarshal_fields_15_22 x bs (R2, O2) = Inr (R3, O3)"
    by (simp add: unmarshal_fields_15_22_def Let_def sl or_new_def R1_def R2_def R3_def
        O1_def O2_def O3_def new_BeaconState_def d18 d19 d20 d21 d22 r15 r16 len'
        pj cj fc cs nsc c17_def)
  have t4: "unmarshal_variable x bs (R3, O3) = Inr R4"
    by (simp add: unmarshal_variable_def Let_def R1_def R2_def R3_def R4_def
        O1_def O2_def O3_def new_BeaconState_def s0 s1 s2 s3 s4 s5 lv' q0 q1 q2 q3 q4
        w0 w1 w2 w3 v4_def [symmetric] v5_def [symmetric])
  have R4: "R4 = b"
    by (rule pb_BeaconState.equality)
      (simp_all add: R1_def R2_def R3_def R4_def new_BeaconState_def)
  have "\<not> length bs < 2787217"
    using len' by simp
  then show ?thesis
    by (simp add: BeaconState_UnmarshalSSZ_def t1' t2 t3 t4 R4)
  qed
  with size show ?thesis by blast
qed

lemma BeaconState_roundtrip:
  assumes ok: "ext_codecs_ok x" and m: "BeaconState_MarshalSSZ x b = Inr bs"
    and sz0: "BeaconState_SizeSSZ b < 2 ^ 32"
  shows "BeaconState_UnmarshalSSZ x new_BeaconState bs = Inr b
         \<and> BeaconState_SizeSSZ b = length bs"
proof -
  have "BeaconState_lastOffset b \<le> BeaconState_SizeSSZ b"
    by (simp add: BeaconState_lastOffset_def BeaconState_SizeSSZ_def)
  with sz0 have "BeaconState_lastOffset b < 2 ^ 32" by simp
  with BeaconState_decode_encoded [OF ok m] show ?thesis by simp
qed

subsection \<open>Offsets\<close>

lemma length_slice: "b \<le> length buf \<Longrightarrow> length (slice a b buf) = b - a"
  by (simp add: slice_def)

lemma unmarshal_fields_0_7_cases:
  assumes sz: "2787217 \<le> length buf" and tot: "ext_decoders_total x"
  shows "(ReadOffset (slice 524464 524468 buf) > length buf
            \<and> unmarshal_fields_0_7 x b buf = Inl ErrOffset)
         \<or> (ReadOffset (slice 524464 524468 buf) \<le> length buf
            \<and> (\<exists>r. unmarshal_fields_0_7 x b buf
                  = Inr (r, \<lparr>o7 = ReadOffset (slice 524464 524468 buf), o9 = 0, o11 = 0,
                              o12 = 0, o15 = 0, o16 = 0\<rparr>)))"
proof -
  have "length (slice 48 64 buf) = 16" using sz by (simp add: length_slice)
  then obtain fk where fk: "Fork_UnmarshalSSZ (or_new new_Fork (bs_Fork b)) (slice 48 64 buf) = Inr fk"
    by (simp add: Fork_UnmarshalSSZ_def)
  have "length (slice 64 176 buf) = 112" using sz by (simp add: length_slice)
  with tot obtain h where h: "BeaconBlockHeader_UnmarshalSSZ x
      (or_new new_BeaconBlockHeader (bs_LatestBlockHeader b)) (slice 64 176 buf) = Inr h"
    unfolding ext_decoders_total_def by blast
  show ?thesis
    by (simp add: unmarshal_fields_0_7_def fk h)
qed

lemma unmarshal_fields_8_14_cases:
  assumes sz: "2787217 \<le> length buf" and tot: "ext_decoders_total x"
  shows "\<exists>r. unmarshal_fields_8_14 x buf (b, os) =
           (let v9 = ReadOffset (slice 524540 524544 buf);
                v11 = ReadOffset (slice 524552 524556 buf);
                v12 = ReadOffset (slice 524556 524560 buf) in
            if v9 \<le> length buf \<and> o7 os \<le> v9 \<and> v11 \<le> length buf \<and> v9 \<le> v11
               \<and> v12 \<le> length buf \<and> v11 \<le> v12
            then Inr (r, os\<lparr>o9 := v9, o11 := v11, o12 := v12\<rparr>) else Inl ErrOffset)"
proof -
  have "length (slice 524468 524540 buf) = 72" using sz by (simp add: length_slice)
  with tot obtain e where e: "Eth1Data_UnmarshalSSZ x
      (or_new new_Eth1Data (bs_Eth1Data b)) (slice 524468 524540 buf) = Inr e"
    unfolding ext_decoders_total_def by blast
  show ?thesis
    by (auto simp add: unmarshal_fields_8_14_def e Let_def)
qed

lemma unmarshal_fields_15_22_cases:
  "unmarshal_fields_15_22 x buf (b, os) =
     (let v15 = ReadOffset (slice 2687248 2687252 buf);
          v16 = ReadOffset (slice 2687252 2687256 buf) in
      if v15 \<le> length buf \<and> o12 os \<le> v15 \<and> v16 \<le> length buf \<and> v15 \<le> v16
      then unmarshal_fields_15_22 x buf (b, os) else Inl ErrOffset)
   \<and> (\<forall>r os'. unmarshal_fields_15_22 x buf (b, os) = Inr (r, os') \<longrightarrow>
         os' = os\<lparr>o15 := ReadOffset (slice 2687248 2687252 buf),
                  o16 := ReadOffset (slice 2687252 2687256 buf)\<rparr>)"
  by (auto simp add: unmarshal_fields_15_22_def Let_def split: sum.splits)

lemma offset_validation_aux:
  assumes sz: "2787217 \<le> length buf" and tot: "ext_decoders_total x"
    and bad: "\<not> offsets_valid (length buf) (read_offsets buf)"
  shows "BeaconState_UnmarshalSSZ x b buf = Inl ErrOffset"
proof -
  let ?o7 = "ReadOffset (slice 524464 524468 buf)"
  from sz have nsz: "\<not> length buf < 2787217" by simp
  from unmarshal_fields_0_7_cases [OF sz tot, of b]
  show ?thesis
  proof (elim disjE conjE exE)
    assume "unmarshal_fields_0_7 x b buf = Inl ErrOffset"
    then show ?thesis by (simp add: BeaconState_UnmarshalSSZ_def nsz)
  next
    fix r1
    assume o7: "?o7 \<le> length buf"
      and s1: "unmarshal_fields_0_7 x b buf
        = Inr (r1, \<lparr>o7 = ?o7, o9 = 0, o11 = 0, o12 = 0, o15 = 0, o16 = 0\<rparr>)"
    let ?os1 = "\<lparr>o7 = ?o7, o9 = 0, o11 = 0, o12 = 0, o15 = 0, o16 = 0\<rparr>"
    from unmarshal_fields_8_14_cases [OF sz tot, of r1 ?os1]
    obtain r2 where c2: "unmarshal_fields_8_14 x buf (r1, ?os1) =
           (let v9 = ReadOffset (slice 524540 524544 buf);
                v11 = ReadOffset (slice 524552 524556 buf);
                v12 = ReadOffset (slice 524556 524560 buf) in
            if v9 \<le> length buf \<and> o7 ?os1 \<le> v9 \<and> v11 \<le> length buf \<and> v9 \<le> v11
               \<and> v12 \<le> length buf \<and> v11 \<le> v12
            then Inr (r2, ?os1\<lparr>o9 := v9, o11 := v11, o12 := v12\<rparr>) else Inl ErrOffset)"
      by blast
    let ?ok2 = "ReadOffset (slice 524540 524544 buf) \<le> length buf
         \<and> ?o7 \<le> ReadOffset (slice 524540 524544 buf)
         \<and> ReadOffset (slice 524552 524556 buf) \<le> length buf
         \<and> ReadOffset (slice 524540 524544 buf) \<le> ReadOffset (slice 524552 524556 buf)
         \<and> ReadOffset (slice 524556 524560 buf) \<le> length buf
         \<and> ReadOffset (slice 524552 524556 buf) \<le> ReadOffset (slice 524556 524560 buf)"
    show ?thesis
    proof (cases ?ok2)
      case False
      with c2 have "unmarshal_fields_8_14 x buf (r1, ?os1) = Inl ErrOffset"
        by (simp add: Let_def)
      with s1 show ?thesis by (simp add: BeaconState_UnmarshalSSZ_def nsz)
    next
      case True
      define os2 where "os2 = ?os1\<lparr>o9 := ReadOffset (slice 524540 524544 buf),
                        o11 := ReadOffset (slice 524552 524556 buf),
                        o12 := ReadOffset (slice 524556 524560 buf)\<rparr>"
      from True c2 have Inr: "unmarshal_fields_8_14 x buf (r1, ?os1) = Inr (r2, os2)"
        by (simp add: Let_def os2_def)
      note ok2 = True
      note c3 = unmarshal_fields_15_22_cases [of x buf r2 os2]
      from bad o7 ok2 have bad3: "\<not> (ReadOffset (slice 2687248 2687252 buf) \<le> length buf
          \<and> o12 os2 \<le> ReadOffset (slice 2687248 2687252 buf)
          \<and> ReadOffset (slice 2687252 2687256 buf) \<le> length buf
          \<and> ReadOffset (slice 2687248 2687252 buf) \<le> ReadOffset (slice 2687252 2687256 buf))"
        by (simp add: offsets_valid_def read_offsets_def os2_def)
      with c3 have "unmarshal_fields_15_22 x buf (r2, os2) = Inl ErrOffset"
        by (simp add: Let_def)
      with s1 Inr show ?thesis by (simp add: BeaconState_UnmarshalSSZ_def nsz)
    qed
  qed
qed

subsection \<open>The examples\<close>

lemma codec_ok_ex_BeaconBlockHeader:
  "codec_ok ex_BeaconBlockHeader_MarshalSSZTo ex_BeaconBlockHeader_UnmarshalSSZ
     new_BeaconBlockHeader 112"
  unfolding codec_ok_def
proof (intro conjI allI impI)
  fix v dst r assume m: "ex_BeaconBlockHeader_MarshalSSZTo v dst = Inr r"
  let ?e = "le_encode 8 (unat (bh_Slot v)) @ le_encode 8 (unat (bh_ProposerIndex v))
            @ bh_ParentRoot v @ bh_StateRoot v @ bh_BodyRoot v"
  from m have l: "length (bh_ParentRoot v) = 32" "length (bh_StateRoot v) = 32"
      "length (bh_BodyRoot v) = 32"
    and r: "r = dst @ ?e"
    by (auto simp: ex_BeaconBlockHeader_MarshalSSZTo_def MarshalUint64_def split: if_splits)
  have "ex_BeaconBlockHeader_UnmarshalSSZ new_BeaconBlockHeader ?e = Inr v"
    using l by (cases v)
      (simp add: ex_BeaconBlockHeader_UnmarshalSSZ_def new_BeaconBlockHeader_def slice_def)
  moreover have "length ?e = 112" using l by simp
  ultimately show "\<exists>e. r = dst @ e \<and> length e = 112
      \<and> ex_BeaconBlockHeader_UnmarshalSSZ new_BeaconBlockHeader e = Inr v"
    using r by blast
next
  fix dst show "\<exists>err. ex_BeaconBlockHeader_MarshalSSZTo new_BeaconBlockHeader dst = Inl err"
    by (simp add: ex_BeaconBlockHeader_MarshalSSZTo_def new_BeaconBlockHeader_def)
qed

lemma codec_ok_ex_Eth1Data:
  "codec_ok ex_Eth1Data_MarshalSSZTo ex_Eth1Data_UnmarshalSSZ new_Eth1Data 72"
  unfolding codec_ok_def
proof (intro conjI allI impI)
  fix v dst r assume m: "ex_Eth1Data_MarshalSSZTo v dst = Inr r"
  let ?e = "e1_DepositRoot v @ le_encode 8 (unat (e1_DepositCount v)) @ e1_BlockHash v"
  from m have l: "length (e1_DepositRoot v) = 32" "length (e1_BlockHash v) = 32"
    and r: "r = dst @ ?e"
    by (auto simp: ex_Eth1Data_MarshalSSZTo_def MarshalUint64_def split: if_splits)
  have "ex_Eth1Data_UnmarshalSSZ new_Eth1Data ?e = Inr v"
    using l by (cases v) (simp add: ex_Eth1Data_UnmarshalSSZ_def new_Eth1Data_def slice_def)
  moreover have "length ?e = 72" using l by simp
  ultimately show "\<exists>e. r = dst @ e \<and> length e = 72
      \<and> ex_Eth1Data_UnmarshalSSZ new_Eth1Data e = Inr v"
    using r by blast
next
  fix dst show "\<exists>err. ex_Eth1Data_MarshalSSZTo new_Eth1Data dst = Inl err"
    by (simp add: ex_Eth1Data_MarshalSSZTo_def new_Eth1Data_def)
qed

lemma codec_ok_ex_Validator:
  "codec_ok ex_Validator_MarshalSSZTo ex_Validator_UnmarshalSSZ empty_Validator 121"
  unfolding codec_ok_def
proof (intro conjI allI impI)
  fix v dst r assume m: "ex_Validator_MarshalSSZTo v dst = Inr r"
  let ?e = "va_PublicKey v @ va_WithdrawalCredentials v
            @ le_encode 8 (unat (va_EffectiveBalance v)) @ [if va_Slashed v then 1 else 0]
            @ le_encode 8 (unat (va_ActivationEligibilityEpoch v))
            @ le_encode 8 (unat (va_ActivationEpoch v))
            @ le_encode 8 (unat (va_ExitEpoch v))
            @ le_encode 8 (unat (va_WithdrawableEpoch v))"
  from m have l: "length (va_PublicKey v) = 48" "length (va_WithdrawalCredentials v) = 32"
    and r: "r = dst @ ?e"
    by (auto simp: ex_Validator_MarshalSSZTo_def MarshalUint64_def MarshalBool_def
        split: if_splits)
  have "ex_Validator_UnmarshalSSZ empty_Validator ?e = Inr v"
    using l by (cases v)
      (simp add: ex_Validator_UnmarshalSSZ_def empty_Validator_def slice_def UnmarshalBool_def)
  moreover have "length ?e = 121" using l by simp
  ultimately show "\<exists>e. r = dst @ e \<and> length e = 121
      \<and> ex_Validator_UnmarshalSSZ empty_Validator e = Inr v"
    using r by blast
next
  fix dst show "\<exists>err. ex_Validator_MarshalSSZTo empty_Validator dst = Inl err"
    by (simp add: ex_Validator_MarshalSSZTo_def empty_Validator_def)
qed

lemma codec_ok_ex_Checkpoint:
  "codec_ok ex_Checkpoint_MarshalSSZTo ex_Checkpoint_UnmarshalSSZ new_Checkpoint 40"
  unfolding codec_ok_def
proof (intro conjI allI impI)
  fix v dst r assume m: "ex_Checkpoint_MarshalSSZTo v dst = Inr r"
  let ?e = "le_encode 8 (unat (cp_Epoch v)) @ cp_Root v"
  from m have l: "length (cp_Root v) = 32"
    and r: "r = dst @ ?e"
    by (auto simp: ex_Checkpoint_MarshalSSZTo_def MarshalUint64_def split: if_splits)
  have "ex_Checkpoint_UnmarshalSSZ new_Checkpoint ?e = Inr v"
    using l by (cases v)
      (simp add: ex_Checkpoint_UnmarshalSSZ_def new_Checkpoint_def slice_def)
  moreover have "length ?e = 40" using l by simp
  ultimately show "\<exists>e. r = dst @ e \<and> length e = 40
      \<and> ex_Checkpoint_UnmarshalSSZ new_Checkpoint e = Inr v"
    using r by blast
next
  fix dst show "\<exists>err. ex_Checkpoint_MarshalSSZTo new_Checkpoint dst = Inl err"
    by (simp add: ex_Checkpoint_MarshalSSZTo_def new_Checkpoint_def)
qed

lemma ext_codecs_ok_example: "ext_codecs_ok example_codecs"
  unfolding ext_codecs_ok_def example_codecs_def
  by (simp add: codec_ok_ex_BeaconBlockHeader codec_ok_ex_Eth1Data codec_ok_ex_Validator
      codec_ok_ex_Checkpoint)

lemma ext_decoders_total_example: "ext_decoders_total example_codecs"
  unfolding ext_decoders_total_def example_codecs_def
  by (simp add: ex_BeaconBlockHeader_UnmarshalSSZ_def ex_Eth1Data_UnmarshalSSZ_def)

lemma marshal_vectors_replicate:
  "length v = k \<Longrightarrow> marshal_vectors k (replicate n v) dst = Inr (dst @ concat (replicate n v))"
  by (induction n arbitrary: dst) simp_all

lemma example_Fork_marshal:
  "Fork_MarshalSSZTo example_Fork dst = Inr (dst @ example_Fork_encoding)"
  by (simp add: Fork_MarshalSSZTo_def example_Fork_def example_Fork_encoding_def
      MarshalUint64_def)

lemma example_SyncCommittee_marshal:
  "SyncCommittee_MarshalSSZTo example_SyncCommittee dst
   = Inr (dst @ example_SyncCommittee_encoding)"
  by (simp add: SyncCommittee_MarshalSSZTo_def example_SyncCommittee_def
      example_SyncCommittee_encoding_def marshal_vectors_replicate example_pubkey_def)

lemma example_HistoricalBatch_marshal:
  "HistoricalBatch_MarshalSSZTo example_HistoricalBatch dst
   = Inr (dst @ example_HistoricalBatch_encoding)"
  by (simp add: HistoricalBatch_MarshalSSZTo_def example_HistoricalBatch_def
      example_HistoricalBatch_encoding_def marshal_vectors_replicate example_root_def)

lemma example_BeaconBlockHeader_marshal:
  "ex_BeaconBlockHeader_MarshalSSZTo example_BeaconBlockHeader dst
   = Inr (dst @ example_BeaconBlockHeader_encoding)"
  by (simp add: ex_BeaconBlockHeader_MarshalSSZTo_def example_BeaconBlockHeader_def
      example_BeaconBlockHeader_encoding_def MarshalUint64_def example_root_def)

lemma example_Eth1Data_marshal:
  "ex_Eth1Data_MarshalSSZTo example_Eth1Data dst = Inr (dst @ example_Eth1Data_encoding)"
  by (simp add: ex_Eth1Data_MarshalSSZTo_def example_Eth1Data_def
      example_Eth1Data_encoding_def MarshalUint64_def example_root_def)

lemma example_Checkpoint_marshal:
  "ex_Checkpoint_MarshalSSZTo example_Checkpoint dst
   = Inr (dst @ example_Checkpoint_encoding)"
  by (simp add: ex_Checkpoint_MarshalSSZTo_def example_Checkpoint_def
      example_Checkpoint_encoding_def MarshalUint64_def example_root_def)

lemma unat_max_u64: "unat (- 1 :: u64) = 2 ^ 64 - 1"
  by (simp add: unsigned_minus_1_eq_mask mask_eq_exp_minus_1)

lemma example_validator_marshal:
  "ex_Validator_MarshalSSZTo example_validator dst = Inr (dst @ example_validator_encoding)"
  by (simp add: ex_Validator_MarshalSSZTo_def example_validator_def
      example_validator_encoding_def MarshalUint64_def MarshalBool_def unat_max_u64)

lemma example_state_marshal:
  "BeaconState_MarshalSSZ example_codecs example_pb_state = Inr example_state_encoding"
proof -
  have x: "BeaconBlockHeader_MarshalSSZTo example_codecs = ex_BeaconBlockHeader_MarshalSSZTo"
    "Eth1Data_MarshalSSZTo example_codecs = ex_Eth1Data_MarshalSSZTo"
    "Validator_MarshalSSZTo example_codecs = ex_Validator_MarshalSSZTo"
    "Checkpoint_MarshalSSZTo example_codecs = ex_Checkpoint_MarshalSSZTo"
    by (simp_all add: example_codecs_def)
  have r: "length example_root = 32" by (simp add: example_root_def)
  have z: "concat (map (\<lambda>v. le_encode 8 (unat v)) (replicate 8192 (0::u64)))
           = concat (replicate 8192 (le_encode 8 0))"
    by simp
  have s1: "marshal_fields_0_6 example_codecs example_pb_state [] =
      Inr (le_encode 8 1 @ example_root @ le_encode 8 130 @ example_Fork_encoding
        @ example_BeaconBlockHeader_encoding
        @ concat (replicate 8192 example_root) @ concat (replicate 8192 example_root))"
    by (simp add: marshal_fields_0_6_def example_pb_state_def x r or_new_def
        MarshalUint64_def example_Fork_marshal example_BeaconBlockHeader_marshal
        marshal_vectors_replicate)
  have s2: "marshal_fields_7_14 example_codecs example_pb_state A =
      Inr (A @ le_encode 4 2787217 @ example_Eth1Data_encoding @ le_encode 4 2787249
        @ le_encode 8 1 @ le_encode 4 2787321 @ le_encode 4 2787442
        @ concat (replicate 65536 example_root) @ concat (replicate 8192 (le_encode 8 0)),
        2787450)" for A
    by (simp add: marshal_fields_7_14_def example_pb_state_def x r or_new_def Let_def
        MarshalUint64_def WriteOffset_def example_Eth1Data_marshal
        marshal_vectors_replicate foldl_MarshalUint64 z)
  have s3: "marshal_fields_15_22 example_codecs example_pb_state (B, 2787450) =
      Inr (B @ le_encode 4 2787450 @ le_encode 4 2787451 @ [0]
        @ example_Checkpoint_encoding @ example_Checkpoint_encoding
        @ example_Checkpoint_encoding
        @ example_SyncCommittee_encoding @ example_SyncCommittee_encoding)" for B
    by (simp add: marshal_fields_15_22_def example_pb_state_def x or_new_def Let_def
        WriteOffset_def example_Checkpoint_marshal example_SyncCommittee_marshal)
  have s4: "marshal_variable example_codecs example_pb_state C =
      Inr (C @ example_root @ example_Eth1Data_encoding @ example_validator_encoding
        @ le_encode 8 32000000000 @ [1] @ [3])" for C
    by (simp add: marshal_variable_def example_pb_state_def x r Let_def
        MarshalUint64_def example_Eth1Data_marshal example_validator_marshal)
  show ?thesis
    unfolding BeaconState_MarshalSSZ_def BeaconState_MarshalSSZTo_def
    by (simp only: s1 s2 s3 s4 sum.case example_state_encoding_def append_assoc)
qed

lemma participation_state_marshal:
  assumes p: "length p \<le> 1099511627776" and c: "length c \<le> 1099511627776"
  shows "BeaconState_MarshalSSZ example_codecs
           (example_pb_state\<lparr>bs_PreviousEpochParticipation := p,
                              bs_CurrentEpochParticipation := c\<rparr>) =
     Inr (le_encode 8 1 @ example_root @ le_encode 8 130 @ example_Fork_encoding
        @ example_BeaconBlockHeader_encoding
        @ concat (replicate 8192 example_root) @ concat (replicate 8192 example_root)
        @ le_encode 4 2787217 @ example_Eth1Data_encoding @ le_encode 4 2787249
        @ le_encode 8 1 @ le_encode 4 2787321 @ le_encode 4 2787442
        @ concat (replicate 65536 example_root) @ concat (replicate 8192 (le_encode 8 0))
        @ le_encode 4 2787450 @ le_encode 4 ((2787450 + length p) mod 2 ^ 32) @ [0]
        @ example_Checkpoint_encoding @ example_Checkpoint_encoding
        @ example_Checkpoint_encoding
        @ example_SyncCommittee_encoding @ example_SyncCommittee_encoding
        @ example_root @ example_Eth1Data_encoding @ example_validator_encoding
        @ le_encode 8 32000000000 @ p @ c)"
proof -
  let ?b = "example_pb_state\<lparr>bs_PreviousEpochParticipation := p,
                              bs_CurrentEpochParticipation := c\<rparr>"
  have x: "BeaconBlockHeader_MarshalSSZTo example_codecs = ex_BeaconBlockHeader_MarshalSSZTo"
    "Eth1Data_MarshalSSZTo example_codecs = ex_Eth1Data_MarshalSSZTo"
    "Validator_MarshalSSZTo example_codecs = ex_Validator_MarshalSSZTo"
    "Checkpoint_MarshalSSZTo example_codecs = ex_Checkpoint_MarshalSSZTo"
    by (simp_all add: example_codecs_def)
  have r: "length example_root = 32" by (simp add: example_root_def)
  have z: "concat (map (\<lambda>v. le_encode 8 (unat v)) (replicate 8192 (0::u64)))
           = concat (replicate 8192 (le_encode 8 0))"
    by simp
  have np: "\<not> 1099511627776 < length p" and nc: "\<not> 1099511627776 < length c"
    using p c by simp_all
  have s1: "marshal_fields_0_6 example_codecs ?b [] =
      Inr (le_encode 8 1 @ example_root @ le_encode 8 130 @ example_Fork_encoding
        @ example_BeaconBlockHeader_encoding
        @ concat (replicate 8192 example_root) @ concat (replicate 8192 example_root))"
    by (simp add: marshal_fields_0_6_def example_pb_state_def x r or_new_def
        MarshalUint64_def example_Fork_marshal example_BeaconBlockHeader_marshal
        marshal_vectors_replicate)
  have s2: "marshal_fields_7_14 example_codecs ?b A =
      Inr (A @ le_encode 4 2787217 @ example_Eth1Data_encoding @ le_encode 4 2787249
        @ le_encode 8 1 @ le_encode 4 2787321 @ le_encode 4 2787442
        @ concat (replicate 65536 example_root) @ concat (replicate 8192 (le_encode 8 0)),
        2787450)" for A
    by (simp add: marshal_fields_7_14_def example_pb_state_def x r or_new_def Let_def
        MarshalUint64_def WriteOffset_def example_Eth1Data_marshal
        marshal_vectors_replicate foldl_MarshalUint64 z)
  have s3: "marshal_fields_15_22 example_codecs ?b (B, 2787450) =
      Inr (B @ le_encode 4 2787450 @ le_encode 4 ((2787450 + length p) mod 2 ^ 32) @ [0]
        @ example_Checkpoint_encoding @ example_Checkpoint_encoding
        @ example_Checkpoint_encoding
        @ example_SyncCommittee_encoding @ example_SyncCommittee_encoding)" for B
    by (simp add: marshal_fields_15_22_def example_pb_state_def x or_new_def Let_def
        WriteOffset_def example_Checkpoint_marshal example_SyncCommittee_marshal)
  have s4: "marshal_variable example_codecs ?b C =
      Inr (C @ example_root @ example_Eth1Data_encoding @ example_validator_encoding
        @ le_encode 8 32000000000 @ p @ c)" for C
    using np nc
    by (simp add: marshal_variable_def example_pb_state_def x r Let_def
        MarshalUint64_def example_Eth1Data_marshal example_validator_marshal)
  show ?thesis
    unfolding BeaconState_MarshalSSZ_def BeaconState_MarshalSSZTo_def
    by (simp only: s1 s2 s3 s4 sum.case append_assoc)
qed

lemma long_previous_state_marshal:
  "BeaconState_MarshalSSZ example_codecs long_previous_state = Inr long_participation_encoding"
  using participation_state_marshal [of "replicate 4294967296 0" "[]"]
  by (simp add: long_previous_state_def long_participation_encoding_def)

lemma long_current_state_marshal:
  "BeaconState_MarshalSSZ example_codecs long_current_state = Inr long_participation_encoding"
  using participation_state_marshal [of "[]" "replicate 4294967296 0"]
  by (simp add: long_current_state_def long_participation_encoding_def)

lemma long_current_state_offsets: "BeaconState_lastOffset long_current_state < 2 ^ 32"
  by (simp add: BeaconState_lastOffset_def long_current_state_def example_pb_state_def)

lemma long_states_differ: "long_current_state \<noteq> long_previous_state"
proof
  assume "long_current_state = long_previous_state"
  then have "bs_PreviousEpochParticipation long_current_state
             = bs_PreviousEpochParticipation long_previous_state"
    by simp
  then show False
    by (simp add: long_current_state_def long_previous_state_def)
qed

lemma example_state_offsets: "BeaconState_lastOffset example_pb_state < 2 ^ 32"
  by (simp add: BeaconState_lastOffset_def example_pb_state_def)

lemma example_state_size: "BeaconState_SizeSSZ example_pb_state < 2 ^ 32"
  by (simp add: BeaconState_SizeSSZ_def example_pb_state_def)

lemma example_Status_marshal:
  "Status_MarshalSSZ example_Status = Inr example_Status_encoding"
  by (simp add: Status_MarshalSSZ_def Status_MarshalSSZTo_def example_Status_def
      example_Status_encoding_def MarshalUint64_def example_root_def)

lemma example_SigningData_marshal:
  "SigningData_MarshalSSZ example_SigningData = Inr example_SigningData_encoding"
  by (simp add: SigningData_MarshalSSZ_def SigningData_MarshalSSZTo_def
      example_SigningData_def example_SigningData_encoding_def example_root_def)

lemma example_ForkData_marshal:
  "ForkData_MarshalSSZ example_ForkData = Inr example_ForkData_encoding"
  by (simp add: ForkData_MarshalSSZ_def ForkData_MarshalSSZTo_def
      example_ForkData_def example_ForkData_encoding_def example_root_def)

lemma example_DepositMessage_marshal:
  "DepositMessage_MarshalSSZ example_DepositMessage = Inr example_DepositMessage_encoding"
  by (simp add: DepositMessage_MarshalSSZ_def DepositMessage_MarshalSSZTo_def
      example_DepositMessage_def example_DepositMessage_encoding_def MarshalUint64_def
      example_pubkey_def)

subsection \<open>Round trip and offset validation\<close>

lemma decoded_offsets:
  assumes "unmarshal_fields_0_7 x b buf = Inr a1"
    and "unmarshal_fields_8_14 x buf a1 = Inr a2"
    and "unmarshal_fields_15_22 x buf a2 = Inr (r, os)"
  shows "os = read_offsets buf \<and> offsets_valid (length buf) os"
proof -
  obtain r1 os1 where a1: "a1 = (r1, os1)" by (cases a1)
  obtain r2 os2 where a2: "a2 = (r2, os2)" by (cases a2)
  from assms(1) a1 have o1: "os1 = \<lparr>o7 = ReadOffset (slice 524464 524468 buf), o9 = 0,
        o11 = 0, o12 = 0, o15 = 0, o16 = 0\<rparr>"
    and v1: "ReadOffset (slice 524464 524468 buf) \<le> length buf"
    by (auto simp: unmarshal_fields_0_7_def split: sum.splits if_splits)
  from assms(2) a1 a2 have o2: "os2 = os1\<lparr>o9 := ReadOffset (slice 524540 524544 buf),
        o11 := ReadOffset (slice 524552 524556 buf),
        o12 := ReadOffset (slice 524556 524560 buf)\<rparr>"
    and v2: "ReadOffset (slice 524540 524544 buf) \<le> length buf"
      "o7 os1 \<le> ReadOffset (slice 524540 524544 buf)"
      "ReadOffset (slice 524552 524556 buf) \<le> length buf"
      "ReadOffset (slice 524540 524544 buf) \<le> ReadOffset (slice 524552 524556 buf)"
      "ReadOffset (slice 524556 524560 buf) \<le> length buf"
      "ReadOffset (slice 524552 524556 buf) \<le> ReadOffset (slice 524556 524560 buf)"
    by (auto simp: unmarshal_fields_8_14_def Let_def split: sum.splits if_splits)
  from assms(3) a2 have o3: "os = os2\<lparr>o15 := ReadOffset (slice 2687248 2687252 buf),
        o16 := ReadOffset (slice 2687252 2687256 buf)\<rparr>"
    and v3: "ReadOffset (slice 2687248 2687252 buf) \<le> length buf"
      "o12 os2 \<le> ReadOffset (slice 2687248 2687252 buf)"
      "ReadOffset (slice 2687252 2687256 buf) \<le> length buf"
      "ReadOffset (slice 2687248 2687252 buf) \<le> ReadOffset (slice 2687252 2687256 buf)"
    by (auto simp: unmarshal_fields_15_22_def Let_def split: sum.splits if_splits)
  show ?thesis
    using v1 v2 v3 by (simp add: o1 o2 o3 read_offsets_def offsets_valid_def)
qed

lemma decoded_stages:
  assumes "BeaconState_UnmarshalSSZ x b buf = Inr r"
  obtains a1 a2 r3 os where "unmarshal_fields_0_7 x b buf = Inr a1"
    and "unmarshal_fields_8_14 x buf a1 = Inr a2"
    and "unmarshal_fields_15_22 x buf a2 = Inr (r3, os)"
    and "unmarshal_variable x buf (r3, os) = Inr r"
proof -
  from assms obtain a1 a2 a3 where s: "unmarshal_fields_0_7 x b buf = Inr a1"
    "unmarshal_fields_8_14 x buf a1 = Inr a2" "unmarshal_fields_15_22 x buf a2 = Inr a3"
    "unmarshal_variable x buf a3 = Inr r"
    by (auto simp: BeaconState_UnmarshalSSZ_def split: if_splits sum.splits)
  obtain r3 os where "a3 = (r3, os)" by (cases a3)
  with s that show ?thesis by blast
qed

text \<open>
  Claim C6, as stated, fails for \<open>BeaconState\<close>. An offset is written as 4 bytes. The state
  with \<open>2 ^ 32\<close> bytes of \<open>PreviousEpochParticipation\<close> is within every limit and
  \<open>MarshalSSZ\<close> accepts it, but the offset of \<open>CurrentEpochParticipation\<close> wraps around to
  the offset of \<open>PreviousEpochParticipation\<close>: decoding the encoding gives another state,
  in which the \<open>2 ^ 32\<close> bytes are the \<open>CurrentEpochParticipation\<close>.
\<close>

theorem codec_round_trip_counterexample:
  "ext_codecs_ok example_codecs
   \<and> BeaconState_MarshalSSZ example_codecs long_previous_state
       = Inr long_participation_encoding
   \<and> BeaconState_UnmarshalSSZ example_codecs new_BeaconState long_participation_encoding
       = Inr long_current_state
   \<and> BeaconState_UnmarshalSSZ example_codecs new_BeaconState long_participation_encoding
       \<noteq> Inr long_previous_state"
proof -
  have d: "BeaconState_UnmarshalSSZ example_codecs new_BeaconState long_participation_encoding
       = Inr long_current_state"
    using BeaconState_decode_encoded [OF ext_codecs_ok_example long_current_state_marshal]
      long_current_state_offsets
    by blast
  with long_states_differ
  have "BeaconState_UnmarshalSSZ example_codecs new_BeaconState long_participation_encoding
       \<noteq> Inr long_previous_state"
    by simp
  with d ext_codecs_ok_example long_previous_state_marshal show ?thesis by blast
qed

text \<open>
  C6 (codec round trip), amended. For each of the eight record types with a generated
  codec, when \<open>MarshalSSZ\<close> accepts a record (its byte fields and vectors have the declared
  lengths, its lists are within their limits, no pointer is nil), \<open>SizeSSZ\<close> is the length
  of the encoding, and \<open>UnmarshalSSZ\<close> into a fresh record gives the record back; for
  \<open>BeaconState\<close> it does so when the last offset written, and so each of the six, is below
  \<open>2 ^ 32\<close>. The codecs of the embedded records of the other package are parameters that
  round-trip on their own records.
\<close>

theorem codec_round_trip:
  "(Fork_MarshalSSZ fk = Inr e1 \<longrightarrow>
      Fork_UnmarshalSSZ new_Fork e1 = Inr fk \<and> Fork_SizeSSZ fk = length e1)
   \<and> (Status_MarshalSSZ st = Inr e2 \<longrightarrow>
      Status_UnmarshalSSZ new_Status e2 = Inr st \<and> Status_SizeSSZ st = length e2)
   \<and> (SigningData_MarshalSSZ sd = Inr e3 \<longrightarrow>
      SigningData_UnmarshalSSZ new_SigningData e3 = Inr sd
      \<and> SigningData_SizeSSZ sd = length e3)
   \<and> (ForkData_MarshalSSZ fd = Inr e4 \<longrightarrow>
      ForkData_UnmarshalSSZ new_ForkData e4 = Inr fd \<and> ForkData_SizeSSZ fd = length e4)
   \<and> (DepositMessage_MarshalSSZ dm = Inr e5 \<longrightarrow>
      DepositMessage_UnmarshalSSZ new_DepositMessage e5 = Inr dm
      \<and> DepositMessage_SizeSSZ dm = length e5)
   \<and> (SyncCommittee_MarshalSSZ sc = Inr e6 \<longrightarrow>
      SyncCommittee_UnmarshalSSZ new_SyncCommittee e6 = Inr sc
      \<and> SyncCommittee_SizeSSZ sc = length e6)
   \<and> (HistoricalBatch_MarshalSSZ hb = Inr e7 \<longrightarrow>
      HistoricalBatch_UnmarshalSSZ new_HistoricalBatch e7 = Inr hb
      \<and> HistoricalBatch_SizeSSZ hb = length e7)
   \<and> (ext_codecs_ok x \<and> BeaconState_MarshalSSZ x b = Inr e8 \<longrightarrow>
      BeaconState_SizeSSZ b = length e8
      \<and> (BeaconState_lastOffset b < 2 ^ 32 \<longrightarrow>
           BeaconState_UnmarshalSSZ x new_BeaconState e8 = Inr b))"
  using Fork_roundtrip [of fk e1] Status_roundtrip [of st e2]
    SigningData_roundtrip [of sd e3] ForkData_roundtrip [of fd e4]
    DepositMessage_roundtrip [of dm e5] SyncCommittee_roundtrip [of sc e6 new_SyncCommittee]
    HistoricalBatch_roundtrip [of hb e7 new_HistoricalBatch]
    BeaconState_decode_encoded [of x b e8]
  by blast

theorem codec_round_trip_witness:
  "Fork_MarshalSSZ example_Fork = Inr example_Fork_encoding
   \<and> Fork_UnmarshalSSZ new_Fork example_Fork_encoding = Inr example_Fork
   \<and> Fork_SizeSSZ example_Fork = length example_Fork_encoding
   \<and> Status_MarshalSSZ example_Status = Inr example_Status_encoding
   \<and> Status_UnmarshalSSZ new_Status example_Status_encoding = Inr example_Status
   \<and> Status_SizeSSZ example_Status = length example_Status_encoding
   \<and> SigningData_MarshalSSZ example_SigningData = Inr example_SigningData_encoding
   \<and> SigningData_UnmarshalSSZ new_SigningData example_SigningData_encoding
       = Inr example_SigningData
   \<and> SigningData_SizeSSZ example_SigningData = length example_SigningData_encoding
   \<and> ForkData_MarshalSSZ example_ForkData = Inr example_ForkData_encoding
   \<and> ForkData_UnmarshalSSZ new_ForkData example_ForkData_encoding = Inr example_ForkData
   \<and> ForkData_SizeSSZ example_ForkData = length example_ForkData_encoding
   \<and> DepositMessage_MarshalSSZ example_DepositMessage = Inr example_DepositMessage_encoding
   \<and> DepositMessage_UnmarshalSSZ new_DepositMessage example_DepositMessage_encoding
       = Inr example_DepositMessage
   \<and> DepositMessage_SizeSSZ example_DepositMessage = length example_DepositMessage_encoding
   \<and> SyncCommittee_MarshalSSZ example_SyncCommittee = Inr example_SyncCommittee_encoding
   \<and> SyncCommittee_UnmarshalSSZ new_SyncCommittee example_SyncCommittee_encoding
       = Inr example_SyncCommittee
   \<and> SyncCommittee_SizeSSZ example_SyncCommittee = length example_SyncCommittee_encoding
   \<and> HistoricalBatch_MarshalSSZ example_HistoricalBatch
       = Inr example_HistoricalBatch_encoding
   \<and> HistoricalBatch_UnmarshalSSZ new_HistoricalBatch example_HistoricalBatch_encoding
       = Inr example_HistoricalBatch
   \<and> HistoricalBatch_SizeSSZ example_HistoricalBatch
       = length example_HistoricalBatch_encoding
   \<and> ext_codecs_ok example_codecs
   \<and> BeaconState_MarshalSSZ example_codecs example_pb_state = Inr example_state_encoding
   \<and> BeaconState_SizeSSZ example_pb_state = length example_state_encoding
   \<and> BeaconState_lastOffset example_pb_state < 2 ^ 32
   \<and> BeaconState_UnmarshalSSZ example_codecs new_BeaconState example_state_encoding
       = Inr example_pb_state"
proof -
  have h1: "Fork_MarshalSSZ example_Fork = Inr example_Fork_encoding"
    using example_Fork_marshal [of "[]"] by (simp add: Fork_MarshalSSZ_def)
  have h6: "SyncCommittee_MarshalSSZ example_SyncCommittee
      = Inr example_SyncCommittee_encoding"
    using example_SyncCommittee_marshal [of "[]"] by (simp add: SyncCommittee_MarshalSSZ_def)
  have h7: "HistoricalBatch_MarshalSSZ example_HistoricalBatch
      = Inr example_HistoricalBatch_encoding"
    using example_HistoricalBatch_marshal [of "[]"]
    by (simp add: HistoricalBatch_MarshalSSZ_def)
  note h = h1 example_Status_marshal example_SigningData_marshal example_ForkData_marshal
    example_DepositMessage_marshal h6 h7 ext_codecs_ok_example example_state_marshal
    example_state_offsets
  from codec_round_trip [where fk = example_Fork and ?e1.0 = example_Fork_encoding
      and st = example_Status and ?e2.0 = example_Status_encoding
      and sd = example_SigningData and ?e3.0 = example_SigningData_encoding
      and fd = example_ForkData and ?e4.0 = example_ForkData_encoding
      and dm = example_DepositMessage and ?e5.0 = example_DepositMessage_encoding
      and sc = example_SyncCommittee and ?e6.0 = example_SyncCommittee_encoding
      and hb = example_HistoricalBatch and ?e7.0 = example_HistoricalBatch_encoding
      and x = example_codecs and b = example_pb_state and ?e8.0 = example_state_encoding] h
  show ?thesis by blast
qed

text \<open>
  C8 (offset validation on decode). On a buffer that holds the fixed part, with embedded
  decoders that accept input of their fixed size: if one of the six offsets read from the
  buffer exceeds the buffer length or is smaller than the offset read before it,
  \<open>BeaconState.UnmarshalSSZ\<close> returns \<open>ErrOffset\<close>. Whenever the three fixed stages
  succeed, the offsets handed to the decoding of the variable sections are the six read
  ones, ordered \<open>o7 \<le> o9 \<le> o11 \<le> o12 \<le> o15 \<le> o16\<close> and each at most the buffer length;
  so a successful decode implies valid offsets.
\<close>

theorem offset_validation:
  "(2787217 \<le> length buf \<and> ext_decoders_total x
      \<and> \<not> offsets_valid (length buf) (read_offsets buf) \<longrightarrow>
      BeaconState_UnmarshalSSZ x b buf = Inl ErrOffset)
   \<and> (\<forall>a1 a2 r os. unmarshal_fields_0_7 x b buf = Inr a1
         \<and> unmarshal_fields_8_14 x buf a1 = Inr a2
         \<and> unmarshal_fields_15_22 x buf a2 = Inr (r, os) \<longrightarrow>
         os = read_offsets buf \<and> offsets_valid (length buf) os)
   \<and> (\<forall>r. BeaconState_UnmarshalSSZ x b buf = Inr r \<longrightarrow>
         offsets_valid (length buf) (read_offsets buf))"
proof (intro conjI allI impI)
  assume "2787217 \<le> length buf \<and> ext_decoders_total x
      \<and> \<not> offsets_valid (length buf) (read_offsets buf)"
  then show "BeaconState_UnmarshalSSZ x b buf = Inl ErrOffset"
    using offset_validation_aux [of buf x b] by blast
next
  fix a1 a2 r os
  assume "unmarshal_fields_0_7 x b buf = Inr a1
         \<and> unmarshal_fields_8_14 x buf a1 = Inr a2
         \<and> unmarshal_fields_15_22 x buf a2 = Inr (r, os)"
  then show "os = read_offsets buf" "offsets_valid (length buf) os"
    using decoded_offsets [of x b buf a1 a2 r os] by blast+
next
  fix r assume "BeaconState_UnmarshalSSZ x b buf = Inr r"
  then obtain a1 a2 r3 os where "unmarshal_fields_0_7 x b buf = Inr a1"
    "unmarshal_fields_8_14 x buf a1 = Inr a2"
    "unmarshal_fields_15_22 x buf a2 = Inr (r3, os)"
    by (rule decoded_stages)
  then show "offsets_valid (length buf) (read_offsets buf)"
    using decoded_offsets [of x b buf a1 a2 r3 os] by blast
qed

theorem offset_validation_witness:
  "2787217 \<le> length bad_offset_buffer \<and> ext_decoders_total example_codecs
   \<and> \<not> offsets_valid (length bad_offset_buffer) (read_offsets bad_offset_buffer)
   \<and> BeaconState_UnmarshalSSZ example_codecs new_BeaconState bad_offset_buffer
       = Inl ErrOffset
   \<and> BeaconState_UnmarshalSSZ example_codecs new_BeaconState example_state_encoding
       = Inr example_pb_state
   \<and> offsets_valid (length example_state_encoding) (read_offsets example_state_encoding)"
proof -
  have l: "2787217 \<le> length bad_offset_buffer"
    by (simp add: bad_offset_buffer_def)
  have "slice 524464 524468 bad_offset_buffer = [255, 255, 255, 255]"
    by (simp add: bad_offset_buffer_def slice_def)
  then have "o7 (read_offsets bad_offset_buffer) = 4294967295"
    by (simp add: read_offsets_def ReadOffset_def)
  then have bad: "\<not> offsets_valid (length bad_offset_buffer) (read_offsets bad_offset_buffer)"
    by (simp add: offsets_valid_def bad_offset_buffer_def)
  have good: "BeaconState_UnmarshalSSZ example_codecs new_BeaconState example_state_encoding
       = Inr example_pb_state"
    using BeaconState_roundtrip [OF ext_codecs_ok_example example_state_marshal
        example_state_size] by simp
  from offset_validation [of bad_offset_buffer example_codecs new_BeaconState]
    offset_validation [of example_state_encoding example_codecs new_BeaconState]
    l ext_decoders_total_example bad good
  show ?thesis by blast
qed

section \<open>Merkleization: verified properties\<close>








subsection \<open>The roots of the list fields\<close>

lemma length_toy_hash [simp]: "length (toy_hash a b) = min (length a) (length b)"
  by (simp add: toy_hash_def)















end
